(* ===== verification/Prelude.thy ===== *)
theory Prelude
  imports Main "HOL-Library.Word" "HOL-Library.Multiset"
begin

text \<open>
  What the components share: the C types the sources use, the error numbers they return, the
  string helpers of \<^verbatim>\<open>contrib/re/src/fmt/str.c\<close>, one-shot timers, and the generic lemmas and
  automation on lists, strings and invariants of event systems.

  A \<^verbatim>\<open>char *\<close> that may be \<^verbatim>\<open>NULL\<close> is a \<open>cptr\<close> (\<open>None\<close> is \<^verbatim>\<open>NULL\<close>); a string that is known to
  be present is a \<open>string\<close>, the bytes before the terminator. Functions that return an \<^verbatim>\<open>int\<close> error
  code return an \<open>int\<close>, with 0 for success.
\<close>

section \<open>Types\<close>

type_synonym u8 = "8 word"
type_synonym u16 = "16 word"
type_synonym u32 = "32 word"
type_synonym i32 = "32 word"
type_synonym u64 = "64 word"
type_synonym cptr = "string option"

section \<open>Error numbers\<close>

text \<open>The values are those of Linux; the proofs use only that they are distinct and not 0.\<close>

abbreviation ENOENT :: int where "ENOENT \<equiv> 2"
abbreviation EINTR :: int where "EINTR \<equiv> 4"
abbreviation EIO :: int where "EIO \<equiv> 5"
abbreviation ENOMEM :: int where "ENOMEM \<equiv> 12"
abbreviation EINVAL :: int where "EINVAL \<equiv> 22"
abbreviation ERANGE :: int where "ERANGE \<equiv> 34"
abbreviation ENOSYS :: int where "ENOSYS \<equiv> 38"
abbreviation ENODATA :: int where "ENODATA \<equiv> 61"
abbreviation ENOSR :: int where "ENOSR \<equiv> 63"
abbreviation EPROTO :: int where "EPROTO \<equiv> 71"
abbreviation EBADMSG :: int where "EBADMSG \<equiv> 74"
abbreviation EOVERFLOW :: int where "EOVERFLOW \<equiv> 75"
abbreviation ENOTSUP :: int where "ENOTSUP \<equiv> 95"
abbreviation EAFNOSUPPORT :: int where "EAFNOSUPPORT \<equiv> 97"
abbreviation EADDRINUSE :: int where "EADDRINUSE \<equiv> 98"
abbreviation ECONNRESET :: int where "ECONNRESET \<equiv> 104"
abbreviation ETIMEDOUT :: int where "ETIMEDOUT \<equiv> 110"
abbreviation EALREADY :: int where "EALREADY \<equiv> 114"
abbreviation ECANCELED :: int where "ECANCELED \<equiv> 125"
abbreviation EAUTH :: int where "EAUTH \<equiv> 217"

section \<open>Strings\<close>

text \<open>\<^verbatim>\<open>tolower\<close> of the C locale.\<close>

definition tolower :: "char \<Rightarrow> char" where
  "tolower c = (let n = (of_char c :: nat) in if 65 \<le> n \<and> n \<le> 90 then char_of (n + 32) else c)"

text \<open>
  \<^verbatim>\<open>strcmp\<close> compares bytes as unsigned values; only the sign of its result is specified, and
  only the sign is used.
\<close>

fun strcmp :: "string \<Rightarrow> string \<Rightarrow> int" where
  "strcmp [] [] = 0"
| "strcmp [] (y # ys) = -1"
| "strcmp (x # xs) [] = 1"
| "strcmp (x # xs) (y # ys) =
     (if x = y then strcmp xs ys
      else if (of_char x :: nat) < of_char y then -1 else 1)"

definition str_cmp :: "cptr \<Rightarrow> cptr \<Rightarrow> int" where
  "str_cmp s1 s2 =
     (case (s1, s2) of (Some a, Some b) \<Rightarrow> strcmp a b | _ \<Rightarrow> 1)"

text \<open>\<^verbatim>\<open>str_casecmp\<close>: equal pointers (two \<^verbatim>\<open>NULL\<close>s included) compare equal.\<close>

definition str_casecmp :: "cptr \<Rightarrow> cptr \<Rightarrow> int" where
  "str_casecmp s1 s2 =
     (if s1 = s2 then 0
      else case (s1, s2) of
             (Some a, Some b) \<Rightarrow> strcmp (map tolower a) (map tolower b)
           | _ \<Rightarrow> 1)"

text \<open>\<^verbatim>\<open>str_ncpy (dst, src, n)\<close> returns the new contents of \<open>dst\<close>.\<close>

definition str_ncpy :: "string \<Rightarrow> cptr \<Rightarrow> nat \<Rightarrow> string" where
  "str_ncpy dst src n =
     (case src of
        None \<Rightarrow> dst
      | Some s \<Rightarrow> if n = 0 then dst else take (n - 1) s)"

definition str_isset :: "cptr \<Rightarrow> bool" where
  "str_isset s = (case s of None \<Rightarrow> False | Some t \<Rightarrow> t \<noteq> [])"

definition str_len :: "cptr \<Rightarrow> nat" where
  "str_len s = (case s of None \<Rightarrow> 0 | Some t \<Rightarrow> length t)"

text \<open>\<^verbatim>\<open>str_dup (&dst, src)\<close>: the error and the new \<open>dst\<close>; allocation succeeds.\<close>

definition str_dup :: "cptr \<Rightarrow> cptr \<Rightarrow> int \<times> cptr" where
  "str_dup dst src = (case src of None \<Rightarrow> (EINVAL, dst) | Some s \<Rightarrow> (0, Some s))"

section \<open>Timers\<close>

text \<open>
  A \<^verbatim>\<open>struct tmr\<close> that is not running is \<open>None\<close>; a running one has its delay in milliseconds and
  its handler. Starting a running timer replaces it; a timer that fires is stopped before its
  handler runs.
\<close>

type_synonym 'h tmr = "(nat \<times> 'h) option"

definition tmr_start :: "nat \<Rightarrow> 'h \<Rightarrow> 'h tmr" where
  "tmr_start delay th = Some (delay, th)"

definition tmr_cancel :: "'h tmr" where
  "tmr_cancel = None"

definition tmr_isrunning :: "'h tmr \<Rightarrow> bool" where
  "tmr_isrunning t = (t \<noteq> None)"

lemmas tmr_defs [simp] = tmr_start_def tmr_cancel_def tmr_isrunning_def

section \<open>Lemmas on strings\<close>

lemma strcmp_eq_0_iff [simp]: "strcmp a b = 0 \<longleftrightarrow> a = b"
  by (induction a b rule: strcmp.induct) auto

lemma strcmp_refl [simp]: "strcmp a a = 0"
  by simp

lemma strcmp_swap: "strcmp b a = - strcmp a b"
proof (induction a b rule: strcmp.induct)
  case (4 x xs y ys)
  have "(of_char x :: nat) \<noteq> of_char y" if "x \<noteq> y"
    using that by simp
  with 4 show ?case by (auto simp: not_less_iff_gr_or_eq)
qed auto

lemma strcmp_pos_swap: "a \<noteq> b \<Longrightarrow> 0 < strcmp a b \<longleftrightarrow> \<not> 0 < strcmp b a"
proof -
  assume "a \<noteq> b"
  then have "strcmp a b \<noteq> 0" by simp
  then show ?thesis using strcmp_swap [of b a] by linarith
qed

lemma str_casecmp_refl [simp]: "str_casecmp s s = 0"
  by (simp add: str_casecmp_def)

lemma str_casecmp_0_iff:
  "str_casecmp (Some a) (Some b) = 0 \<longleftrightarrow> map tolower a = map tolower b"
  by (auto simp: str_casecmp_def)

lemma str_casecmp_0_length:
  "str_casecmp (Some a) (Some b) = 0 \<Longrightarrow> length a = length b"
  by (metis length_map str_casecmp_0_iff)

lemma str_casecmp_0_sym:
  "str_casecmp a b = 0 \<Longrightarrow> str_casecmp b a = 0"
  by (auto simp: str_casecmp_def split: option.splits if_splits)

lemma str_ncpy_Some: "0 < n \<Longrightarrow> str_ncpy dst (Some s) n = take (n - 1) s"
  by (simp add: str_ncpy_def)

lemma str_ncpy_fits [simp]: "length s < n \<Longrightarrow> str_ncpy dst (Some s) n = s"
  by (simp add: str_ncpy_def)

lemma length_str_ncpy: "0 < n \<Longrightarrow> length (str_ncpy dst (Some s) n) < n"
  by (auto simp: str_ncpy_def)

lemma str_isset_simps [simp]:
  "\<not> str_isset None" "str_isset (Some s) \<longleftrightarrow> s \<noteq> []"
  by (simp_all add: str_isset_def)

section \<open>Event systems\<close>

text \<open>
  A component that reacts to events is a function \<open>'e \<Rightarrow> 's \<Rightarrow> 's\<close>. The states it can reach and the
  invariant rule are shared by every component with such a step function.
\<close>

fun run :: "('e \<Rightarrow> 's \<Rightarrow> 's) \<Rightarrow> 'e list \<Rightarrow> 's \<Rightarrow> 's" where
  "run f [] s = s"
| "run f (e # es) s = run f es (f e s)"

lemma run_append [simp]: "run f (xs @ ys) s = run f ys (run f xs s)"
  by (induction xs arbitrary: s) auto

locale event_system =
  fixes step :: "'e \<Rightarrow> 's \<Rightarrow> 's"
    and inv :: "'s \<Rightarrow> bool"
  assumes inv_step: "inv s \<Longrightarrow> inv (step e s)"
begin

lemma inv_run: "inv s \<Longrightarrow> inv (run step es s)"
  by (induction es arbitrary: s) (auto intro: inv_step)

end

text \<open>
  The same for a quantity that never decreases along steps, which is how "once set, never
  changed" facts are stated.
\<close>

locale monotone_step =
  fixes step :: "'e \<Rightarrow> 's \<Rightarrow> 's"
    and rel :: "'s \<Rightarrow> 's \<Rightarrow> bool"
  assumes rel_refl: "rel s s"
    and rel_trans: "rel s t \<Longrightarrow> rel t u \<Longrightarrow> rel s u"
    and rel_step: "rel s (step e s)"
begin

lemma rel_run: "rel s (run step es s)"
proof (induction es arbitrary: s)
  case Nil
  show ?case by (simp add: rel_refl)
next
  case (Cons e es)
  from rel_step Cons.IH have "rel s (run step es (step e s))"
    by (rule rel_trans)
  then show ?case by simp
qed

end

end
