(* ===== verification/Hash.thy ===== *)
theory Hash
  imports Prelude
begin

text \<open>
  The hash table of \<^verbatim>\<open>contrib/re/src/hash\<close>: a power-of-two number of buckets, each a linked list in
  insertion order, and the Jenkins one-at-a-time hash the dictionaries use. A list element is
  modelled by its data; unlinking one is removing the element a search found.
\<close>

unbundle bit_operations_syntax

section \<open>Hash functions\<close>

definition joaat_mix :: "u32 \<Rightarrow> u32 \<Rightarrow> u32" where
  "joaat_mix x hash =
     (let hash = hash + x; hash = hash + push_bit 10 hash in hash XOR drop_bit 6 hash)"

definition joaat_finish :: "u32 \<Rightarrow> u32" where
  "joaat_finish hash =
     (let hash = hash + push_bit 3 hash; hash = hash XOR drop_bit 11 hash
      in hash + push_bit 15 hash)"

text \<open>A \<^verbatim>\<open>char\<close> is signed: bytes from 128 on are added as negative numbers.\<close>

definition char_u32 :: "char \<Rightarrow> u32" where
  "char_u32 c = signed_take_bit 7 (of_char c)"

definition hash_joaat :: "u8 list \<Rightarrow> u32" where
  "hash_joaat key = joaat_finish (fold (\<lambda>b. joaat_mix (ucast b)) key 0)"

definition hash_joaat_str :: "string \<Rightarrow> u32" where
  "hash_joaat_str str = joaat_finish (fold (\<lambda>c. joaat_mix (char_u32 c)) str 0)"

definition hash_joaat_str_ci :: "string \<Rightarrow> u32" where
  "hash_joaat_str_ci str = joaat_finish (fold (\<lambda>c. joaat_mix (char_u32 (tolower c))) str 0)"

section \<open>The table\<close>

record 'a hash =
  ht_bucket :: "'a list list"
  ht_bsize :: u32

definition hash_alloc :: "u32 \<Rightarrow> int + 'a hash" where
  "hash_alloc bsize =
     (if bsize = 0 then Inl EINVAL
      else if bsize AND (bsize - 1) \<noteq> 0 then Inl EINVAL
      else Inr \<lparr>ht_bucket = replicate (unat bsize) [], ht_bsize = bsize\<rparr>)"

definition hash_slot :: "'a hash \<Rightarrow> u32 \<Rightarrow> nat" where
  "hash_slot h key = unat (key AND (ht_bsize h - 1))"

definition hash_append :: "'a hash \<Rightarrow> u32 \<Rightarrow> 'a \<Rightarrow> 'a hash" where
  "hash_append h key x =
     (let i = hash_slot h key
      in h\<lparr>ht_bucket := (ht_bucket h)[i := ht_bucket h ! i @ [x]]\<rparr>)"

text \<open>\<^verbatim>\<open>list_apply\<close> from head to tail: the first element the handler accepts.\<close>

fun list_apply :: "('a \<Rightarrow> bool) \<Rightarrow> 'a list \<Rightarrow> 'a option" where
  "list_apply ah [] = None"
| "list_apply ah (x # xs) = (if ah x then Some x else list_apply ah xs)"

fun list_unlink :: "('a \<Rightarrow> bool) \<Rightarrow> 'a list \<Rightarrow> 'a list" where
  "list_unlink ah [] = []"
| "list_unlink ah (x # xs) = (if ah x then xs else x # list_unlink ah xs)"

definition hash_list :: "'a hash \<Rightarrow> u32 \<Rightarrow> 'a list" where
  "hash_list h key = ht_bucket h ! hash_slot h key"

definition hash_lookup :: "'a hash \<Rightarrow> u32 \<Rightarrow> ('a \<Rightarrow> bool) \<Rightarrow> 'a option" where
  "hash_lookup h key ah = list_apply ah (ht_bucket h ! hash_slot h key)"

definition hash_unlink :: "'a hash \<Rightarrow> u32 \<Rightarrow> ('a \<Rightarrow> bool) \<Rightarrow> 'a hash" where
  "hash_unlink h key ah =
     (let i = hash_slot h key
      in h\<lparr>ht_bucket := (ht_bucket h)[i := list_unlink ah (ht_bucket h ! i)]\<rparr>)"

fun buckets_apply :: "('a \<Rightarrow> bool) \<Rightarrow> 'a list list \<Rightarrow> 'a option" where
  "buckets_apply ah [] = None"
| "buckets_apply ah (b # bs) =
     (case list_apply ah b of None \<Rightarrow> buckets_apply ah bs | Some x \<Rightarrow> Some x)"

definition hash_apply :: "'a hash \<Rightarrow> ('a \<Rightarrow> bool) \<Rightarrow> 'a option" where
  "hash_apply h ah = buckets_apply ah (ht_bucket h)"

definition hash_bsize :: "'a hash option \<Rightarrow> u32" where
  "hash_bsize h = (case h of None \<Rightarrow> 0 | Some h \<Rightarrow> ht_bsize h)"

definition hash_flush :: "'a hash \<Rightarrow> 'a hash" where
  "hash_flush h = h\<lparr>ht_bucket := map (\<lambda>_. []) (ht_bucket h)\<rparr>"

section \<open>Lemmas\<close>

lemma list_apply_append:
  "list_apply P (xs @ ys) = (case list_apply P xs of None \<Rightarrow> list_apply P ys | Some x \<Rightarrow> Some x)"
  by (induction xs) auto

lemma list_apply_Some: "list_apply P xs = Some x \<Longrightarrow> x \<in> set xs \<and> P x"
  by (induction xs) (auto split: if_splits)

lemma list_apply_None: "list_apply P xs = None \<longleftrightarrow> (\<forall>x \<in> set xs. \<not> P x)"
  by (induction xs) auto

lemma list_apply_filter: "(\<And>x. P x \<Longrightarrow> Q x) \<Longrightarrow> list_apply P (filter Q xs) = list_apply P xs"
  by (induction xs) auto

lemma buckets_apply_concat: "buckets_apply P bs = list_apply P (concat bs)"
  by (induction bs) (auto simp: list_apply_append split: option.split)

lemma set_list_unlink: "set (list_unlink P xs) \<subseteq> set xs"
  by (induction xs) auto

lemma list_unlink_other: "(\<And>x. P x \<Longrightarrow> \<not> Q x) \<Longrightarrow> list_apply Q (list_unlink P xs) = list_apply Q xs"
  by (induction xs) auto

text \<open>
  A well-formed table, whose elements hash to \<open>kf\<close>: the number of buckets is the power of two
  \<open>ht_bsize\<close>, and each element is in the bucket of its hash.
\<close>

definition hash_wf :: "('a \<Rightarrow> u32) \<Rightarrow> 'a hash \<Rightarrow> bool" where
  "hash_wf kf h \<longleftrightarrow>
     ht_bsize h \<noteq> 0 \<and> ht_bsize h AND (ht_bsize h - 1) = 0 \<and>
     length (ht_bucket h) = unat (ht_bsize h) \<and>
     (\<forall>i < length (ht_bucket h). \<forall>x \<in> set (ht_bucket h ! i). hash_slot h (kf x) = i)"

lemma hash_slot_less: "ht_bsize h \<noteq> 0 \<Longrightarrow> hash_slot h key < unat (ht_bsize h)"
proof -
  assume "ht_bsize h \<noteq> 0"
  then have "unat (ht_bsize h - 1) < unat (ht_bsize h)"
    using unat_minus_one [of "ht_bsize h"] unat_gt_0 [of "ht_bsize h"] by simp
  moreover have "unat (key AND (ht_bsize h - 1)) \<le> unat (ht_bsize h - 1)"
    using word_and_le1 [of key "ht_bsize h - 1"] by (simp add: word_le_nat_alt)
  ultimately show ?thesis by (simp add: hash_slot_def)
qed

lemma hash_alloc_wf: "hash_alloc n = Inr h \<Longrightarrow> hash_wf kf h"
  by (auto simp: hash_alloc_def hash_wf_def split: if_splits)

lemma hash_alloc_empty: "hash_alloc n = Inr h \<Longrightarrow> hash_lookup h k P = None"
  using hash_slot_less [of h k]
  by (auto simp: hash_alloc_def hash_lookup_def split: if_splits)

lemma hash_wf_slot: "hash_wf kf h \<Longrightarrow> hash_slot h key < length (ht_bucket h)"
  by (simp add: hash_wf_def hash_slot_less)

lemma hash_wf_update:
  assumes "hash_wf kf h" and "i < length (ht_bucket h)"
    and "\<And>x. x \<in> set xs \<Longrightarrow> hash_slot h (kf x) = i"
  shows "hash_wf kf (h\<lparr>ht_bucket := (ht_bucket h)[i := xs]\<rparr>)"
  using assms by (auto simp: hash_wf_def hash_slot_def nth_list_update)

lemma hash_append_wf: "hash_wf kf h \<Longrightarrow> hash_wf kf (hash_append h (kf x) x)"
  by (auto simp: hash_append_def Let_def hash_wf_slot intro!: hash_wf_update)
     (auto simp: hash_wf_def hash_slot_less)

lemma hash_unlink_wf: "hash_wf kf h \<Longrightarrow> hash_wf kf (hash_unlink h k P)"
  using set_list_unlink [of P "ht_bucket h ! hash_slot h k"]
  by (auto simp: hash_unlink_def Let_def hash_wf_slot intro!: hash_wf_update)
     (auto simp: hash_wf_def hash_slot_less)

lemma hash_flush_wf: "hash_wf kf h \<Longrightarrow> hash_wf kf (hash_flush h)"
  by (simp add: hash_wf_def hash_flush_def)

lemma hash_slot_bucket [simp]: "hash_slot (h\<lparr>ht_bucket := b\<rparr>) k = hash_slot h k"
  by (simp add: hash_slot_def)

text \<open>A search for elements of one hash value sees exactly the appends of such elements.\<close>

lemma hash_lookup_append:
  "hash_wf kf h \<Longrightarrow>
     hash_lookup (hash_append h k x) k' P =
       (case hash_lookup h k' P of
          Some y \<Rightarrow> Some y
        | None \<Rightarrow> if hash_slot h k = hash_slot h k' \<and> P x then Some x else None)"
  using hash_wf_slot [of kf h k']
  by (cases "hash_slot h k = hash_slot h k'")
     (auto simp: hash_lookup_def hash_append_def Let_def list_apply_append split: option.split)

lemma hash_lookup_unlink_other:
  "(\<And>x. P x \<Longrightarrow> \<not> Q x) \<Longrightarrow> hash_wf kf h \<Longrightarrow>
     hash_lookup (hash_unlink h k P) k' Q = hash_lookup h k' Q"
  using hash_wf_slot [of kf h k']
  by (cases "hash_slot h k = hash_slot h k'")
     (auto simp: hash_lookup_def hash_unlink_def Let_def list_unlink_other)

lemma hash_lookup_flush [simp]: "hash_wf kf h \<Longrightarrow> hash_lookup (hash_flush h) k P = None"
  using hash_wf_slot [of kf h k] by (simp add: hash_lookup_def hash_flush_def hash_slot_def)

section \<open>Stores\<close>

text \<open>
  The contract of the dictionaries built on the table: the first value added under a key is the
  one a lookup finds. The second locale adds removal; its stores behave like finite maps.
\<close>

locale store =
  fixes inv :: "'d \<Rightarrow> bool"
    and look :: "'d \<Rightarrow> string \<Rightarrow> 'v option"
    and add :: "string \<Rightarrow> 'v \<Rightarrow> 'd \<Rightarrow> 'd"
  assumes inv_add: "inv d \<Longrightarrow> inv (add k v d)"
    and look_add: "inv d \<Longrightarrow>
      look (add k v d) k' =
        (case look d k' of Some x \<Rightarrow> Some x | None \<Rightarrow> if k' = k then Some v else None)"
begin

lemma look_adds:
  "inv d \<Longrightarrow>
     look (fold (\<lambda>(k, v). add k v) kvs d) k =
       (case look d k of Some x \<Rightarrow> Some x | None \<Rightarrow> map_of kvs k)"
proof (induction kvs arbitrary: d)
  case (Cons kv kvs)
  then show ?case
    by (cases kv) (auto simp: look_add inv_add split: option.splits)
qed (simp split: option.split)

end

datatype 'v store_op = Store_add string 'v | Store_del string

fun map_op :: "'v store_op \<Rightarrow> (string \<rightharpoonup> 'v) \<Rightarrow> (string \<rightharpoonup> 'v)" where
  "map_op (Store_add k v) m = (if m k = None then m(k \<mapsto> v) else m)"
| "map_op (Store_del k) m = m(k := None)"

locale map_store = store +
  fixes del :: "string \<Rightarrow> 'd \<Rightarrow> 'd"
  assumes inv_del: "inv d \<Longrightarrow> inv (del k d)"
    and look_del: "inv d \<Longrightarrow> look (del k d) k' = (if k' = k then None else look d k')"
begin

lemma look_run:
  "inv d \<Longrightarrow>
     look (run (\<lambda>e. case e of Store_add k v \<Rightarrow> add k v | Store_del k \<Rightarrow> del k) ops d) =
       run map_op ops (look d)"
proof (induction ops arbitrary: d)
  case (Cons e ops)
  let ?f = "\<lambda>e. case e of Store_add k v \<Rightarrow> add k v | Store_del k \<Rightarrow> del k"
  have "look (?f e d) = map_op e (look d)" "inv (?f e d)"
    using Cons.prems
    by (auto simp: fun_eq_iff look_add look_del inv_add inv_del split: store_op.split option.split)
  then show ?case using Cons.IH [of "?f e d"] by simp
qed simp

end

end
