(* ===== verification/Odict.thy ===== *)
theory Odict
  imports Hash
begin

text \<open>
  Ordered dictionaries, \<^verbatim>\<open>contrib/re/src/odict\<close>, the tree the JSON code works on.

  A dictionary keeps its entries in insertion order in the list \<^verbatim>\<open>lst\<close>, and again in a hash table
  for the lookup. The clients use the list \<open>odict\<close> alone, in which a lookup finds the first entry
  of the key; the record \<open>odict_ht\<close> is the pair of list and table the code has, and it is shown to
  behave like the list, whatever the hash function (\<^verbatim>\<open>hash_fast_str\<close> in the code). A double is
  kept as its 64 bits.
\<close>

section \<open>Entries and dictionaries\<close>

datatype odict_val =
    ODICT_OBJECT "(string \<times> odict_val) list"
  | ODICT_ARRAY "(string \<times> odict_val) list"
  | ODICT_STRING string
  | ODICT_INT u64
  | ODICT_DOUBLE u64
  | ODICT_BOOL bool
  | ODICT_NULL

type_synonym odict = "(string \<times> odict_val) list"

definition odict_lookup :: "odict \<Rightarrow> string \<Rightarrow> odict_val option" where
  "odict_lookup = map_of"

definition odict_entry_add :: "odict \<Rightarrow> string \<Rightarrow> odict_val \<Rightarrow> odict" where
  "odict_entry_add od key v = od @ [(key, v)]"

definition odict_type_iscontainer :: "odict_val \<Rightarrow> bool" where
  "odict_type_iscontainer v =
     (case v of ODICT_OBJECT _ \<Rightarrow> True | ODICT_ARRAY _ \<Rightarrow> True | _ \<Rightarrow> False)"

definition odict_type_isreal :: "odict_val \<Rightarrow> bool" where
  "odict_type_isreal v =
     (case v of ODICT_STRING _ \<Rightarrow> True | ODICT_INT _ \<Rightarrow> True | ODICT_DOUBLE _ \<Rightarrow> True
      | ODICT_BOOL _ \<Rightarrow> True | ODICT_NULL \<Rightarrow> True | _ \<Rightarrow> False)"

fun odict_count :: "odict \<Rightarrow> bool \<Rightarrow> nat" where
  "odict_count od nested =
     (if \<not> nested then length od
      else sum_list (map (\<lambda>(k, v). case v of
                            ODICT_OBJECT od' \<Rightarrow> odict_count od' True
                          | ODICT_ARRAY od' \<Rightarrow> odict_count od' True
                          | _ \<Rightarrow> 1) od))"

declare odict_count.simps [simp del]

text \<open>Replacing the value of the entry a lookup finds.\<close>

fun odict_set_first :: "odict \<Rightarrow> string \<Rightarrow> odict_val \<Rightarrow> odict" where
  "odict_set_first [] key v = []"
| "odict_set_first ((k, x) # od) key v =
     (if k = key then (k, v) # od else (k, x) # odict_set_first od key v)"

section \<open>List and table\<close>

record odict_ht =
  od_lst :: odict
  od_ht :: "(string \<times> odict_val) hash"

definition odict_alloc :: "u32 \<Rightarrow> int + odict_ht" where
  "odict_alloc hash_size =
     (case hash_alloc hash_size of
        Inl err \<Rightarrow> Inl err
      | Inr ht \<Rightarrow> Inr \<lparr>od_lst = [], od_ht = ht\<rparr>)"

definition odict_ht_entry_add ::
  "(string \<Rightarrow> u32) \<Rightarrow> string \<Rightarrow> odict_val \<Rightarrow> odict_ht \<Rightarrow> odict_ht" where
  "odict_ht_entry_add hash_fast_str key v od =
     od\<lparr>od_lst := od_lst od @ [(key, v)],
        od_ht := hash_append (od_ht od) (hash_fast_str key) (key, v)\<rparr>"

definition odict_ht_lookup :: "(string \<Rightarrow> u32) \<Rightarrow> odict_ht \<Rightarrow> string \<Rightarrow> odict_val option" where
  "odict_ht_lookup hash_fast_str od key =
     map_option snd
       (list_apply (\<lambda>e. str_cmp (Some (fst e)) (Some key) = 0)
          (hash_list (od_ht od) (hash_fast_str key)))"

section \<open>Lemmas\<close>

lemma odict_lookup_simps [simp]:
  "odict_lookup [] key = None"
  "odict_lookup ((k, v) # od) key = (if k = key then Some v else odict_lookup od key)"
  by (simp_all add: odict_lookup_def)

lemma odict_lookup_append:
  "odict_lookup (xs @ ys) k = (case odict_lookup xs k of None \<Rightarrow> odict_lookup ys k | Some v \<Rightarrow> Some v)"
  by (induction xs) auto

lemma odict_lookup_set_first:
  "odict_lookup (odict_set_first od key v) k =
     (if k = key \<and> odict_lookup od key \<noteq> None then Some v else odict_lookup od k)"
  by (induction od key v rule: odict_set_first.induct) auto

lemma odict_set_first_keys [simp]: "map fst (odict_set_first od key v) = map fst od"
  by (induction od key v rule: odict_set_first.induct) auto

definition odict_ht_wf :: "(string \<Rightarrow> u32) \<Rightarrow> odict_ht \<Rightarrow> bool" where
  "odict_ht_wf hf od \<longleftrightarrow>
     hash_wf (hf \<circ> fst) (od_ht od) \<and>
     (\<forall>k. odict_ht_lookup hf od k = odict_lookup (od_lst od) k)"

lemma odict_ht_lookup_eq:
  "odict_ht_lookup hf od k = map_option snd (hash_lookup (od_ht od) (hf k) (\<lambda>e. fst e = k))"
  by (simp add: odict_ht_lookup_def hash_lookup_def hash_list_def str_cmp_def)

lemma odict_ht_lookup_add:
  assumes "odict_ht_wf hf od"
  shows "odict_ht_lookup hf (odict_ht_entry_add hf k v od) k' =
    (case odict_ht_lookup hf od k' of Some x \<Rightarrow> Some x | None \<Rightarrow> if k' = k then Some v else None)"
proof -
  have "hash_wf (hf \<circ> fst) (od_ht od)" using assms by (simp add: odict_ht_wf_def)
  from hash_lookup_append [OF this] show ?thesis
    by (auto simp: odict_ht_lookup_eq odict_ht_entry_add_def split: option.split)
qed

lemma odict_ht_wf_add: "odict_ht_wf hf od \<Longrightarrow> odict_ht_wf hf (odict_ht_entry_add hf k v od)"
  using odict_ht_lookup_add [of hf od k v] hash_append_wf [of "hf \<circ> fst" "od_ht od" "(k, v)"]
  by (auto simp: odict_ht_wf_def odict_ht_entry_add_def odict_lookup_append split: option.split)

interpretation odict_store: store "odict_ht_wf hf" "odict_ht_lookup hf" "odict_ht_entry_add hf" for hf
  by unfold_locales (auto simp: odict_ht_wf_add odict_ht_lookup_add)

lemma odict_alloc_wf: "odict_alloc n = Inr od \<Longrightarrow> odict_ht_wf hf od"
  using hash_alloc_wf [of n _ "hf \<circ> fst"] hash_alloc_empty [of n]
  by (auto simp: odict_alloc_def odict_ht_wf_def odict_ht_lookup_eq split: sum.splits)

section \<open>Property\<close>



end
