(* ===== verification/Econn_Msg.thy ===== *)
theory Econn_Msg
  imports Odict
begin

text \<open>
  The data the signalling layer exchanges: property sets (\<^verbatim>\<open>src/econn/props.c\<close>), messages
  (\<^verbatim>\<open>include/avs_econn.h\<close>, \<^verbatim>\<open>src/econn/msg.c\<close>) and the helpers of \<^verbatim>\<open>src/econn/econn_help.c\<close>.
\<close>

section \<open>Properties\<close>

text \<open>
  A property set is a reference-counted dictionary. \<^verbatim>\<open>econn_props_get\<close> returns the \<^verbatim>\<open>u.str\<close> member
  of the entry's union without looking at the entry's type: for an entry that is not a string
  this is \<^verbatim>\<open>NULL\<close> when the union is zero and otherwise a wild pointer, the constructor \<open>Wild\<close> of
  the result type. \<^verbatim>\<open>econn_props_update\<close> replaces the \<^verbatim>\<open>u.str\<close> member, again without looking at
  the type; on an entry that is not a string it releases what is not a string, the result \<open>None\<close>.
\<close>

type_synonym econn_props = odict

datatype strptr = Null | Str string | Wild odict_val

definition econn_props_alloc :: "odict option \<Rightarrow> econn_props" where
  "econn_props_alloc dict = (case dict of None \<Rightarrow> [] | Some od \<Rightarrow> od)"

definition econn_props_add :: "econn_props option \<Rightarrow> cptr \<Rightarrow> cptr \<Rightarrow> int \<times> econn_props option" where
  "econn_props_add props key val =
     (case (props, key, val) of
        (Some od, Some k, Some v) \<Rightarrow> (0, Some (odict_entry_add od k (ODICT_STRING v)))
      | _ \<Rightarrow> (EINVAL, props))"

definition econn_props_update :: "econn_props \<Rightarrow> string \<Rightarrow> string \<Rightarrow> (int \<times> econn_props) option" where
  "econn_props_update props key val =
     (case odict_lookup props key of
        Some (ODICT_STRING _) \<Rightarrow> Some (0, odict_set_first props key (ODICT_STRING val))
      | Some _ \<Rightarrow> None
      | None \<Rightarrow>
          (let (err, p) = econn_props_add (Some props) (Some key) (Some val)
           in Some (err, case p of None \<Rightarrow> props | Some od \<Rightarrow> od)))"

definition u_str :: "odict_val \<Rightarrow> strptr" where
  "u_str v =
     (case v of
        ODICT_STRING s \<Rightarrow> Str s
      | ODICT_INT i \<Rightarrow> if i = 0 then Null else Wild v
      | ODICT_DOUBLE d \<Rightarrow> if d = 0 then Null else Wild v
      | ODICT_BOOL b \<Rightarrow> if b then Wild v else Null
      | ODICT_NULL \<Rightarrow> Null
      | _ \<Rightarrow> Wild v)"

definition econn_props_get :: "econn_props option \<Rightarrow> cptr \<Rightarrow> strptr" where
  "econn_props_get props key =
     (if props = None \<or> \<not> str_isset key then Null
      else case odict_lookup (the props) (the key) of None \<Rightarrow> Null | Some v \<Rightarrow> u_str v)"

text \<open>The property sets on which \<^verbatim>\<open>econn_props_get\<close> returns no wild pointer.\<close>

definition props_strings :: "econn_props \<Rightarrow> bool" where
  "props_strings props = list_all (\<lambda>(k, v). case v of ODICT_STRING _ \<Rightarrow> True | _ \<Rightarrow> False) props"

section \<open>Messages\<close>

text \<open>
  The enumerators of \<^verbatim>\<open>enum econn_msg\<close>; a freshly allocated (zeroed) message has the value 0,
  which is none of them.
\<close>

datatype econn_msg =
    ECONN_SETUP
  | ECONN_CANCEL
  | ECONN_UPDATE
  | ECONN_HANGUP
  | ECONN_PROPSYNC
  | ECONN_MSG_VALUE int

text \<open>
  The union \<^verbatim>\<open>u\<close> is read only through the member that belongs to the type of the message, so its
  members are kept as separate fields.
\<close>

record econn_message =
  msg_type :: econn_msg
  sessid_sender :: string
  msg_resp :: bool
  msg_time :: u32
  msg_age :: u32
  sdp_msg :: cptr
  setup_props :: "econn_props option"
  propsync_props :: "econn_props option"

definition econn_message_zero :: econn_message where
  "econn_message_zero =
     \<lparr>msg_type = ECONN_MSG_VALUE 0, sessid_sender = [], msg_resp = False, msg_time = 0,
      msg_age = 0, sdp_msg = None, setup_props = None, propsync_props = None\<rparr>"

definition econn_message_init :: "econn_msg \<Rightarrow> cptr \<Rightarrow> econn_message" where
  "econn_message_init mtype sessid =
     econn_message_zero
       \<lparr>msg_type := mtype, sessid_sender := str_ncpy [] sessid 64\<rparr>"

definition econn_message_reset :: "econn_message \<Rightarrow> econn_message" where
  "econn_message_reset msg = econn_message_zero"

definition econn_message_isrequest :: "econn_message option \<Rightarrow> bool" where
  "econn_message_isrequest msg = (case msg of None \<Rightarrow> False | Some m \<Rightarrow> \<not> msg_resp m)"

section \<open>Helpers\<close>

definition econn_msg_name :: "econn_msg \<Rightarrow> string" where
  "econn_msg_name m =
     (case m of
        ECONN_SETUP \<Rightarrow> ''SETUP''
      | ECONN_CANCEL \<Rightarrow> ''CANCEL''
      | ECONN_UPDATE \<Rightarrow> ''UPDATE''
      | ECONN_HANGUP \<Rightarrow> ''HANGUP''
      | ECONN_PROPSYNC \<Rightarrow> ''PROPSYNC''
      | ECONN_MSG_VALUE _ \<Rightarrow> ''???'')"

definition econn_iswinner :: "string \<Rightarrow> string \<Rightarrow> string \<Rightarrow> string \<Rightarrow> bool" where
  "econn_iswinner userid_self clientid userid_remote clientid_remote =
     (let r = strcmp userid_self userid_remote;
          r = (if r = 0 then strcmp clientid clientid_remote else r)
      in 0 < r)"

definition econn_is_creator :: "cptr \<Rightarrow> cptr \<Rightarrow> econn_message option \<Rightarrow> bool" where
  "econn_is_creator userid_self userid_remote msg =
     (if \<not> str_isset userid_self \<or> \<not> str_isset userid_remote \<or> msg = None then False
      else str_casecmp userid_self userid_remote \<noteq> 0 \<and>
           econn_message_isrequest msg \<and>
           msg_type (the msg) = ECONN_SETUP)"

section \<open>Lemmas\<close>

lemma props_strings_simps [simp]:
  "props_strings []"
  "props_strings ((k, v) # od) \<longleftrightarrow> (\<exists>s. v = ODICT_STRING s) \<and> props_strings od"
  "props_strings (xs @ ys) \<longleftrightarrow> props_strings xs \<and> props_strings ys"
  by (auto simp: props_strings_def split: odict_val.splits)

lemma props_strings_lookup:
  "props_strings od \<Longrightarrow> odict_lookup od k = Some v \<Longrightarrow> \<exists>s. v = ODICT_STRING s"
proof (induction od)
  case (Cons a od)
  then show ?case by (cases a) (auto split: if_splits)
qed simp

lemma props_strings_set_first:
  "props_strings od \<Longrightarrow> props_strings (odict_set_first od key (ODICT_STRING s))"
  by (induction od key "ODICT_STRING s" rule: odict_set_first.induct) auto

lemma econn_props_update_ok:
  "props_strings props \<Longrightarrow>
   econn_props_update props key val =
     Some (0, if odict_lookup props key = None then props @ [(key, ODICT_STRING val)]
              else odict_set_first props key (ODICT_STRING val))"
  by (auto simp: econn_props_update_def econn_props_add_def odict_entry_add_def
      dest: props_strings_lookup split: option.splits)

lemma econn_props_get_strings:
  "props_strings props \<Longrightarrow> econn_props_get (Some props) key \<noteq> Wild v"
  by (auto simp: econn_props_get_def u_str_def dest: props_strings_lookup
      split: option.splits odict_val.splits)

lemma econn_message_init_simps [simp]:
  "msg_type (econn_message_init t s) = t"
  "msg_resp (econn_message_init t s) = False"
  "sessid_sender (econn_message_init t s) = str_ncpy [] s 64"
  "sdp_msg (econn_message_init t s) = None"
  "setup_props (econn_message_init t s) = None"
  "propsync_props (econn_message_init t s) = None"
  by (simp_all add: econn_message_init_def econn_message_zero_def)

lemma econn_message_isrequest_Some [simp]:
  "econn_message_isrequest (Some m) \<longleftrightarrow> \<not> msg_resp m"
  by (simp add: econn_message_isrequest_def)

lemma econn_iswinner_irrefl [simp]: "\<not> econn_iswinner u c u c"
  by (simp add: econn_iswinner_def)

lemma econn_iswinner_swap:
  "(u, c) \<noteq> (u', c') \<Longrightarrow> econn_iswinner u c u' c' \<longleftrightarrow> \<not> econn_iswinner u' c' u c"
  using strcmp_pos_swap [of u u'] strcmp_pos_swap [of c c']
  by (auto simp: econn_iswinner_def Let_def)

end
