(* ===== verification/Econn.thy ===== *)
theory Econn
  imports Econn_Msg
begin

text \<open>
  One encrypted connection, \<^verbatim>\<open>struct econn\<close>: \<^verbatim>\<open>src/econn/econn.c\<close>, \<^verbatim>\<open>econn.h\<close>, \<^verbatim>\<open>state.c\<close> and the
  configuration and state types of \<^verbatim>\<open>include/avs_econn.h\<close>.

  The transport and the five callbacks are parameters, a record \<open>'w econn_h\<close> of functions over
  the caller's state \<open>'w\<close>; a callback that is \<^verbatim>\<open>NULL\<close> is \<open>None\<close>. A callback gets the connection and
  may change it, because the real ones do: \<open>ecall\<close> answers from inside the answer handler. The
  only callback pointer that changes is \<^verbatim>\<open>closeh\<close>, which \<^verbatim>\<open>econn_close\<close> sets to \<^verbatim>\<open>NULL\<close>; the
  field \<open>ec_closeh\<close> says whether it is still set. Memory allocation does not fail in the model,
  and the magic number, which only serves assertions, is left out.
\<close>

section \<open>State\<close>

datatype econn_state =
    ECONN_IDLE
  | ECONN_PENDING_OUTGOING
  | ECONN_PENDING_INCOMING
  | ECONN_CONFLICT_RESOLUTION
  | ECONN_ANSWERED
  | ECONN_DATACHAN_ESTABLISHED
  | ECONN_HANGUP_SENT
  | ECONN_HANGUP_RECV
  | ECONN_UPDATE_SENT
  | ECONN_UPDATE_RECV
  | ECONN_TERMINATING

datatype econn_dir = ECONN_DIR_UNKNOWN | ECONN_DIR_OUTGOING | ECONN_DIR_INCOMING

text \<open>The handlers \<^verbatim>\<open>tmr_local\<close> is started with.\<close>

datatype econn_tmr = Tmr_local | Tmr_term | Tmr_cancel

record econn_conf =
  timeout_setup :: u32
  timeout_term :: u32

definition default_conf :: econn_conf where
  "default_conf = \<lparr>timeout_setup = 30000, timeout_term = 5000\<rparr>"

record econn =
  ec_conf :: econn_conf
  ec_tmr :: "econn_tmr tmr"
  ec_state :: econn_state
  ec_dir :: econn_dir
  ec_userid_self :: string
  ec_clientid :: string
  ec_sessid_local :: string
  ec_sessid_remote :: string
  ec_clientid_remote :: string
  ec_setup_err :: int
  ec_conflict :: int
  ec_closeh :: bool
  ec_err :: int

record 'w econn_h =
  eh_sendh :: "(econn \<Rightarrow> econn_message \<Rightarrow> 'w \<Rightarrow> int \<times> 'w) option"
  eh_connh :: "(u32 \<Rightarrow> string \<Rightarrow> string \<Rightarrow> u32 \<Rightarrow> cptr \<Rightarrow> econn_props option \<Rightarrow>
                econn \<times> 'w \<Rightarrow> econn \<times> 'w) option"
  eh_answerh :: "(bool \<Rightarrow> cptr \<Rightarrow> econn_props option \<Rightarrow> econn \<times> 'w \<Rightarrow> econn \<times> 'w) option"
  eh_update_reqh :: "(string \<Rightarrow> string \<Rightarrow> cptr \<Rightarrow> econn_props option \<Rightarrow> bool \<Rightarrow>
                econn \<times> 'w \<Rightarrow> econn \<times> 'w) option"
  eh_update_resph :: "(cptr \<Rightarrow> econn_props option \<Rightarrow> econn \<times> 'w \<Rightarrow> econn \<times> 'w) option"
  eh_closeh :: "int \<Rightarrow> econn \<times> 'w \<Rightarrow> econn \<times> 'w"

section \<open>Sending\<close>

definition econn_set_state :: "econn_state \<Rightarrow> econn \<Rightarrow> econn" where
  "econn_set_state st c = (if ec_state c = st then c else c\<lparr>ec_state := st\<rparr>)"

definition transp_send :: "'w econn_h \<Rightarrow> econn_message \<Rightarrow> econn \<Rightarrow> 'w \<Rightarrow> int \<times> 'w" where
  "transp_send h msg c w =
     (case eh_sendh h of
        None \<Rightarrow> (ENOTSUP, w)
      | Some sendh \<Rightarrow>
          (let (err, w) = sendh c msg w in if err \<noteq> 0 then (err, w) else (0, w)))"

definition econn_send_setup ::
  "'w econn_h \<Rightarrow> bool \<Rightarrow> cptr \<Rightarrow> econn_props option \<Rightarrow> bool \<Rightarrow> econn \<times> 'w \<Rightarrow> int \<times> econn \<times> 'w" where
  "econn_send_setup h is_resp sdp props update = (\<lambda>(c, w).
     let mtype = (if update then ECONN_UPDATE else ECONN_SETUP);
         msg = (econn_message_init mtype (Some (ec_sessid_local c)))
                 \<lparr>sdp_msg := sdp, setup_props := props, msg_resp := is_resp\<rparr>;
         (err, w) = transp_send h msg c w;
         c = (if err \<noteq> 0 then econn_set_state ECONN_TERMINATING (c\<lparr>ec_setup_err := err\<rparr>) else c)
     in (err, c, w))"

definition send_cancel :: "'w econn_h \<Rightarrow> econn \<Rightarrow> 'w \<Rightarrow> int \<times> 'w" where
  "send_cancel h c w =
     transp_send h (econn_message_init ECONN_CANCEL (Some (ec_sessid_local c))) c w"

definition send_hangup :: "'w econn_h \<Rightarrow> bool \<Rightarrow> econn \<Rightarrow> 'w \<Rightarrow> int \<times> 'w" where
  "send_hangup h is_resp c w =
     transp_send h
       ((econn_message_init ECONN_HANGUP (Some (ec_sessid_local c)))\<lparr>msg_resp := is_resp\<rparr>) c w"

section \<open>Closing\<close>

definition econn_close :: "'w econn_h \<Rightarrow> int \<Rightarrow> econn \<times> 'w \<Rightarrow> econn \<times> 'w" where
  "econn_close h err = (\<lambda>(c, w).
     let closeh = ec_closeh c;
         c = c\<lparr>ec_tmr := tmr_cancel, ec_setup_err := err\<rparr>;
         w = (if ec_state c = ECONN_PENDING_OUTGOING then snd (send_cancel h c w) else w);
         c = c\<lparr>ec_state := ECONN_TERMINATING\<rparr>
     in if closeh then eh_closeh h err (c\<lparr>ec_closeh := False\<rparr>, w) else (c, w))"

section \<open>Receiving\<close>

definition call_h :: "('a \<Rightarrow> 'a) option \<Rightarrow> 'a \<Rightarrow> 'a" where
  "call_h f s = (case f of None \<Rightarrow> s | Some g \<Rightarrow> g s)"

definition handle_setup_request ::
  "'w econn_h \<Rightarrow> string \<Rightarrow> string \<Rightarrow> econn_message \<Rightarrow> econn \<times> 'w \<Rightarrow> econn \<times> 'w" where
  "handle_setup_request h userid_sender clientid_sender msg = (\<lambda>(c, w).
     case ec_state c of
       ECONN_IDLE \<Rightarrow>
         (let c = econn_set_state ECONN_PENDING_INCOMING c;
              c = c\<lparr>ec_dir := ECONN_DIR_INCOMING\<rparr>;
              c = c\<lparr>ec_sessid_remote := str_ncpy (ec_sessid_remote c) (Some (sessid_sender msg)) 64\<rparr>;
              c = c\<lparr>ec_tmr := tmr_start (unat (timeout_setup (ec_conf c))) Tmr_local\<rparr>
          in call_h (map_option (\<lambda>f. f (msg_time msg) userid_sender clientid_sender (msg_age msg)
                                      (sdp_msg msg) (setup_props msg)) (eh_connh h)) (c, w))
     | ECONN_PENDING_OUTGOING \<Rightarrow>
         (let is_winner = econn_iswinner (ec_userid_self c) (ec_clientid c)
                            userid_sender clientid_sender;
              c = c\<lparr>ec_sessid_remote := str_ncpy (ec_sessid_remote c) (Some (sessid_sender msg)) 64\<rparr>
          in if is_winner then (c\<lparr>ec_conflict := 1\<rparr>, w)
             else
               (let c = c\<lparr>ec_conflict := -1\<rparr>;
                    c = econn_set_state ECONN_CONFLICT_RESOLUTION c
                in call_h (map_option (\<lambda>f. f True (sdp_msg msg) (setup_props msg)) (eh_answerh h))
                     (c, w)))
     | _ \<Rightarrow> (c, w))"

definition handle_setup_response ::
  "'w econn_h \<Rightarrow> string \<Rightarrow> string \<Rightarrow> econn_message \<Rightarrow> econn \<times> 'w \<Rightarrow> econn \<times> 'w" where
  "handle_setup_response h userid_sender clientid_sender msg = (\<lambda>(c, w).
     if ec_state c \<noteq> ECONN_PENDING_OUTGOING \<and> ec_state c \<noteq> ECONN_CONFLICT_RESOLUTION then (c, w)
     else
       (let c = c\<lparr>ec_tmr := tmr_cancel\<rparr>;
            c = econn_set_state ECONN_ANSWERED c;
            c = c\<lparr>ec_sessid_remote := str_ncpy (ec_sessid_remote c) (Some (sessid_sender msg)) 64\<rparr>
        in call_h (map_option (\<lambda>f. f False (sdp_msg msg) (setup_props msg)) (eh_answerh h)) (c, w)))"

definition recv_setup ::
  "'w econn_h \<Rightarrow> string \<Rightarrow> string \<Rightarrow> econn_message \<Rightarrow> econn \<times> 'w \<Rightarrow> econn \<times> 'w" where
  "recv_setup h userid_sender clientid_sender msg = (\<lambda>(c, w).
     if str_isset (Some (ec_clientid_remote c)) \<and>
        str_casecmp (Some (ec_clientid_remote c)) (Some clientid_sender) \<noteq> 0 then (c, w)
     else
       (let c = (if str_isset (Some (ec_clientid_remote c)) then c
                 else c\<lparr>ec_clientid_remote :=
                          str_ncpy (ec_clientid_remote c) (Some clientid_sender) 32\<rparr>)
        in if econn_message_isrequest (Some msg)
           then handle_setup_request h userid_sender clientid_sender msg (c, w)
           else handle_setup_response h userid_sender clientid_sender msg (c, w)))"

definition handle_update_request ::
  "'w econn_h \<Rightarrow> string \<Rightarrow> string \<Rightarrow> econn_message \<Rightarrow> econn \<times> 'w \<Rightarrow> econn \<times> 'w" where
  "handle_update_request h userid_sender clientid_sender msg = (\<lambda>(c, w).
     if str_casecmp (Some (ec_clientid_remote c)) (Some clientid_sender) \<noteq> 0 then (c, w)
     else
       let accept = (\<lambda>c should_reset.
             call_h (map_option (\<lambda>f. f userid_sender clientid_sender (sdp_msg msg) (setup_props msg)
                                      should_reset) (eh_update_reqh h))
               (c\<lparr>ec_tmr := tmr_start (unat (timeout_setup (ec_conf c))) Tmr_local\<rparr>, w))
       in case ec_state c of
            ECONN_ANSWERED \<Rightarrow> accept (econn_set_state ECONN_UPDATE_RECV c) False
          | ECONN_DATACHAN_ESTABLISHED \<Rightarrow> accept (econn_set_state ECONN_UPDATE_RECV c) False
          | ECONN_UPDATE_SENT \<Rightarrow>
              if econn_iswinner (ec_userid_self c) (ec_clientid c) userid_sender clientid_sender
              then (c, w)
              else accept (econn_set_state ECONN_UPDATE_RECV c) True
          | _ \<Rightarrow> (c, w))"

definition handle_update_response ::
  "'w econn_h \<Rightarrow> string \<Rightarrow> string \<Rightarrow> econn_message \<Rightarrow> econn \<times> 'w \<Rightarrow> econn \<times> 'w" where
  "handle_update_response h userid_sender clientid_sender msg = (\<lambda>(c, w).
     if str_casecmp (Some (ec_clientid_remote c)) (Some clientid_sender) \<noteq> 0 then (c, w)
     else if ec_state c \<noteq> ECONN_UPDATE_SENT then (c, w)
     else
       (let c = c\<lparr>ec_tmr := tmr_cancel\<rparr>;
            c = econn_set_state ECONN_ANSWERED c
        in call_h (map_option (\<lambda>f. f (sdp_msg msg) (setup_props msg)) (eh_update_resph h)) (c, w)))"

definition recv_update ::
  "'w econn_h \<Rightarrow> string \<Rightarrow> string \<Rightarrow> econn_message \<Rightarrow> econn \<times> 'w \<Rightarrow> econn \<times> 'w" where
  "recv_update h userid_sender clientid_sender msg = (\<lambda>(c, w).
     if str_casecmp (Some (ec_sessid_remote c)) (Some (sessid_sender msg)) \<noteq> 0 then (c, w)
     else if econn_message_isrequest (Some msg)
     then handle_update_request h userid_sender clientid_sender msg (c, w)
     else handle_update_response h userid_sender clientid_sender msg (c, w))"

definition recv_cancel ::
  "'w econn_h \<Rightarrow> string \<Rightarrow> econn_message \<Rightarrow> econn \<times> 'w \<Rightarrow> econn \<times> 'w" where
  "recv_cancel h clientid_sender msg = (\<lambda>(c, w).
     if str_casecmp (Some clientid_sender) (Some (ec_clientid_remote c)) \<noteq> 0 then (c, w)
     else if ec_state c \<noteq> ECONN_PENDING_INCOMING \<and> ec_state c \<noteq> ECONN_ANSWERED \<and>
             ec_state c \<noteq> ECONN_DATACHAN_ESTABLISHED then (c, w)
     else if str_casecmp (Some (ec_sessid_remote c)) (Some (sessid_sender msg)) \<noteq> 0 then (c, w)
     else econn_close h ECANCELED (econn_set_state ECONN_TERMINATING c, w))"

definition recv_hangup :: "'w econn_h \<Rightarrow> econn_message \<Rightarrow> econn \<times> 'w \<Rightarrow> econn \<times> 'w" where
  "recv_hangup h msg = (\<lambda>(c, w).
     if str_casecmp (Some (ec_sessid_remote c)) (Some (sessid_sender msg)) \<noteq> 0 then (c, w)
     else if ec_state c \<noteq> ECONN_DATACHAN_ESTABLISHED \<and> ec_state c \<noteq> ECONN_HANGUP_SENT then (c, w)
     else
       (let c = econn_set_state ECONN_HANGUP_RECV c;
            w = (if econn_message_isrequest (Some msg) then snd (send_hangup h True c w) else w);
            c = econn_set_state ECONN_TERMINATING c
        in econn_close h 0 (c, w)))"

definition econn_recv_message ::
  "'w econn_h \<Rightarrow> string \<Rightarrow> string \<Rightarrow> econn_message \<Rightarrow> econn \<times> 'w \<Rightarrow> econn \<times> 'w" where
  "econn_recv_message h userid_sender clientid_sender msg s =
     (case msg_type msg of
        ECONN_SETUP \<Rightarrow> recv_setup h userid_sender clientid_sender msg s
      | ECONN_UPDATE \<Rightarrow> recv_update h userid_sender clientid_sender msg s
      | ECONN_CANCEL \<Rightarrow> recv_cancel h clientid_sender msg s
      | ECONN_HANGUP \<Rightarrow> recv_hangup h msg s
      | _ \<Rightarrow> s)"

section \<open>Creation and the local operations\<close>

text \<open>\<open>sessid\<close> is what \<^verbatim>\<open>rand_str\<close> wrote, \<open>has_closeh\<close> whether a close handler is given.\<close>

definition econn_alloc ::
  "econn_conf option \<Rightarrow> cptr \<Rightarrow> cptr \<Rightarrow> bool \<Rightarrow> string \<Rightarrow> int + econn" where
  "econn_alloc cfg userid_self clientid has_closeh sessid =
     (if \<not> str_isset userid_self \<or> \<not> str_isset clientid then Inl EINVAL
      else Inr \<lparr>ec_conf = (case cfg of None \<Rightarrow> default_conf | Some x \<Rightarrow> x),
                ec_tmr = None, ec_state = ECONN_IDLE, ec_dir = ECONN_DIR_UNKNOWN,
                ec_userid_self = the userid_self, ec_clientid = the clientid,
                ec_sessid_local = sessid, ec_sessid_remote = [], ec_clientid_remote = [],
                ec_setup_err = 0, ec_conflict = 0, ec_closeh = has_closeh, ec_err = 0\<rparr>)"

definition econn_start ::
  "'w econn_h \<Rightarrow> cptr \<Rightarrow> econn_props option \<Rightarrow> econn \<times> 'w \<Rightarrow> int \<times> econn \<times> 'w" where
  "econn_start h sdp props = (\<lambda>(c, w).
     if ec_state c \<noteq> ECONN_IDLE \<and> ec_state c \<noteq> ECONN_PENDING_OUTGOING then (EPROTO, c, w)
     else
       (let c = econn_set_state ECONN_PENDING_OUTGOING c;
            c = c\<lparr>ec_dir := ECONN_DIR_OUTGOING\<rparr>;
            (err, c, w) = econn_send_setup h False sdp props False (c, w)
        in if err \<noteq> 0 then (err, c, w)
           else if timeout_setup (ec_conf c) = 0 then (EPROTO, c, w)
           else (0, c\<lparr>ec_tmr := tmr_start (unat (timeout_setup (ec_conf c))) Tmr_local\<rparr>, w)))"

definition econn_update_req ::
  "'w econn_h \<Rightarrow> cptr \<Rightarrow> econn_props option \<Rightarrow> econn \<times> 'w \<Rightarrow> int \<times> econn \<times> 'w" where
  "econn_update_req h sdp props = (\<lambda>(c, w).
     let c = econn_set_state ECONN_UPDATE_SENT c;
         (err, c, w) = econn_send_setup h False sdp props True (c, w)
     in if err \<noteq> 0 then (err, c, w)
        else if timeout_setup (ec_conf c) = 0 then (EPROTO, c, w)
        else (0, c\<lparr>ec_tmr := tmr_start (unat (timeout_setup (ec_conf c))) Tmr_local\<rparr>, w))"

definition econn_update_resp ::
  "'w econn_h \<Rightarrow> cptr \<Rightarrow> econn_props option \<Rightarrow> econn \<times> 'w \<Rightarrow> int \<times> econn \<times> 'w" where
  "econn_update_resp h sdp props = (\<lambda>(c, w).
     if ec_state c \<noteq> ECONN_UPDATE_RECV then (EPROTO, c, w)
     else
       (let c = c\<lparr>ec_tmr := tmr_cancel\<rparr>;
            (err, c, w) = econn_send_setup h True sdp props True (c, w)
        in if err \<noteq> 0 then (err, c, w)
           else (0, econn_set_state ECONN_ANSWERED c, w)))"

definition econn_answer ::
  "'w econn_h \<Rightarrow> cptr \<Rightarrow> econn_props option \<Rightarrow> econn \<times> 'w \<Rightarrow> int \<times> econn \<times> 'w" where
  "econn_answer h sdp props = (\<lambda>(c, w).
     if ec_state c \<noteq> ECONN_PENDING_INCOMING \<and> ec_state c \<noteq> ECONN_CONFLICT_RESOLUTION
     then (EPROTO, c, w)
     else
       (let c = c\<lparr>ec_tmr := tmr_cancel\<rparr>;
            (err, c, w) = econn_send_setup h True sdp props False (c, w)
        in if err \<noteq> 0 then (err, c, w)
           else (0, econn_set_state ECONN_ANSWERED c, w)))"

definition econn_end :: "'w econn_h \<Rightarrow> econn \<times> 'w \<Rightarrow> econn \<times> 'w" where
  "econn_end h = (\<lambda>(c, w).
     case ec_state c of
       ECONN_PENDING_INCOMING \<Rightarrow>
         ((econn_set_state ECONN_TERMINATING c)\<lparr>ec_tmr := tmr_start 1 Tmr_cancel\<rparr>, w)
     | ECONN_PENDING_OUTGOING \<Rightarrow>
         ((econn_set_state ECONN_TERMINATING c)\<lparr>ec_tmr := tmr_start 1 Tmr_cancel\<rparr>,
          snd (send_cancel h c w))
     | ECONN_ANSWERED \<Rightarrow>
         ((econn_set_state ECONN_TERMINATING c)\<lparr>ec_tmr := tmr_start 1 Tmr_cancel\<rparr>,
          snd (send_cancel h c w))
     | ECONN_CONFLICT_RESOLUTION \<Rightarrow>
         ((econn_set_state ECONN_TERMINATING c)\<lparr>ec_tmr := tmr_start 1 Tmr_cancel\<rparr>,
          snd (send_cancel h c w))
     | ECONN_DATACHAN_ESTABLISHED \<Rightarrow>
         ((econn_set_state ECONN_HANGUP_SENT c)
            \<lparr>ec_tmr := tmr_start (unat (timeout_term (ec_conf c))) Tmr_term\<rparr>,
          snd (send_hangup h False c w))
     | _ \<Rightarrow> (c, w))"

definition econn_can_send_propsync :: "econn option \<Rightarrow> bool" where
  "econn_can_send_propsync conn =
     (case conn of None \<Rightarrow> False | Some c \<Rightarrow> ec_state c = ECONN_DATACHAN_ESTABLISHED)"

definition econn_send_propsync ::
  "'w econn_h \<Rightarrow> bool \<Rightarrow> econn_props option \<Rightarrow> econn \<times> 'w \<Rightarrow> int \<times> econn \<times> 'w" where
  "econn_send_propsync h is_resp props = (\<lambda>(c, w).
     if props = None then (EINVAL, c, w)
     else if ec_state c \<noteq> ECONN_DATACHAN_ESTABLISHED then (EPROTO, c, w)
     else
       (let msg = (econn_message_init ECONN_PROPSYNC (Some (ec_sessid_local c)))
                    \<lparr>msg_resp := is_resp, propsync_props := props\<rparr>;
            (err, w) = transp_send h msg c w
        in (err, c, w)))"

definition econn_set_datachan_established :: "econn \<Rightarrow> econn" where
  "econn_set_datachan_established c =
     (if ec_state c = ECONN_ANSWERED then econn_set_state ECONN_DATACHAN_ESTABLISHED c else c)"

definition econn_set_error :: "int \<Rightarrow> econn \<Rightarrow> econn" where
  "econn_set_error err c = c\<lparr>ec_err := err\<rparr>"

definition econn_current_state :: "econn option \<Rightarrow> econn_state" where
  "econn_current_state conn = (case conn of None \<Rightarrow> ECONN_IDLE | Some c \<Rightarrow> ec_state c)"

definition econn_current_dir :: "econn option \<Rightarrow> econn_dir" where
  "econn_current_dir conn = (case conn of None \<Rightarrow> ECONN_DIR_UNKNOWN | Some c \<Rightarrow> ec_dir c)"

section \<open>Timers\<close>

definition tmr_local_handler :: "'w econn_h \<Rightarrow> econn \<times> 'w \<Rightarrow> econn \<times> 'w" where
  "tmr_local_handler h s = econn_close h ETIMEDOUT s"

definition tmr_term_handler :: "'w econn_h \<Rightarrow> econn \<times> 'w \<Rightarrow> econn \<times> 'w" where
  "tmr_term_handler h s = econn_close h (ec_err (fst s)) s"

definition tmr_cancel_handler :: "'w econn_h \<Rightarrow> econn \<times> 'w \<Rightarrow> econn \<times> 'w" where
  "tmr_cancel_handler h s = econn_close h (ec_err (fst s)) s"

text \<open>The timer fires: \<^verbatim>\<open>tmr_poll\<close> clears its handler and calls it.\<close>

definition econn_tmr_fire :: "'w econn_h \<Rightarrow> econn \<times> 'w \<Rightarrow> econn \<times> 'w" where
  "econn_tmr_fire h = (\<lambda>(c, w).
     case ec_tmr c of
       None \<Rightarrow> (c, w)
     | Some (_, th) \<Rightarrow>
         (let s = (c\<lparr>ec_tmr := None\<rparr>, w)
          in case th of
               Tmr_local \<Rightarrow> tmr_local_handler h s
             | Tmr_term \<Rightarrow> tmr_term_handler h s
             | Tmr_cancel \<Rightarrow> tmr_cancel_handler h s))"

section \<open>The connection as an event system\<close>

text \<open>Everything that can happen to a connection: a message, the timer, or a call of its user.\<close>

datatype econn_event =
    Ev_recv string string econn_message
  | Ev_tmr
  | Ev_start cptr "econn_props option"
  | Ev_answer cptr "econn_props option"
  | Ev_update_req cptr "econn_props option"
  | Ev_update_resp cptr "econn_props option"
  | Ev_end
  | Ev_propsync bool "econn_props option"
  | Ev_datachan
  | Ev_set_error int
  | Ev_close int

fun econn_step :: "'w econn_h \<Rightarrow> econn_event \<Rightarrow> econn \<times> 'w \<Rightarrow> econn \<times> 'w" where
  "econn_step h (Ev_recv u cl msg) s = econn_recv_message h u cl msg s"
| "econn_step h Ev_tmr s = econn_tmr_fire h s"
| "econn_step h (Ev_start sdp p) s = snd (econn_start h sdp p s)"
| "econn_step h (Ev_answer sdp p) s = snd (econn_answer h sdp p s)"
| "econn_step h (Ev_update_req sdp p) s = snd (econn_update_req h sdp p s)"
| "econn_step h (Ev_update_resp sdp p) s = snd (econn_update_resp h sdp p s)"
| "econn_step h Ev_end s = econn_end h s"
| "econn_step h (Ev_propsync r p) s = snd (econn_send_propsync h r p s)"
| "econn_step h Ev_datachan s = (econn_set_datachan_established (fst s), snd s)"
| "econn_step h (Ev_set_error e) s = (econn_set_error e (fst s), snd s)"
| "econn_step h (Ev_close e) s = econn_close h e s"

section \<open>What callbacks may rely on, and what they must keep\<close>

lemma econn_set_state_eq [simp]: "econn_set_state st c = c\<lparr>ec_state := st\<rparr>"
  by (cases c) (simp add: econn_set_state_def)

lemma call_h_simps [simp]: "call_h None s = s" "call_h (Some g) s = g s"
  by (simp_all add: call_h_def)

lemmas econn_recv_defs =
  econn_recv_message_def recv_setup_def recv_update_def recv_cancel_def recv_hangup_def
  handle_setup_request_def handle_setup_response_def handle_update_request_def
  handle_update_response_def

lemmas econn_local_defs =
  econn_start_def econn_answer_def econn_update_req_def econn_update_resp_def econn_end_def
  econn_send_propsync_def econn_set_datachan_established_def econn_set_error_def

lemmas econn_send_defs =
  econn_send_setup_def send_cancel_def send_hangup_def transp_send_def

lemmas econn_tmr_defs =
  econn_tmr_fire_def tmr_local_handler_def tmr_term_handler_def tmr_cancel_handler_def

text \<open>
  The identity of a connection: the fields no operation writes, the remote client id and the
  close handler. Two connections with the same identity differ in protocol state only.
\<close>

definition same_ident :: "econn \<Rightarrow> econn \<Rightarrow> bool" where
  "same_ident c c' \<longleftrightarrow>
     ec_conf c' = ec_conf c \<and> ec_userid_self c' = ec_userid_self c \<and>
     ec_clientid c' = ec_clientid c \<and> ec_sessid_local c' = ec_sessid_local c \<and>
     ec_clientid_remote c' = ec_clientid_remote c \<and> ec_closeh c' = ec_closeh c"

text \<open>
  The contract between a connection and the callbacks it is given. \<open>rel\<close> relates the states
  before and after; a callback stays within \<open>rel\<close>, and so do a change of protocol state, setting
  the remote client id for the first time, and the one call of the close handler. Then every
  event stays within \<open>rel\<close>.
\<close>

locale econn_callbacks =
  fixes h :: "'w econn_h"
    and rel :: "econn \<times> 'w \<Rightarrow> econn \<times> 'w \<Rightarrow> bool"
  assumes rel_refl: "rel s s"
    and rel_trans: "rel s t \<Longrightarrow> rel t u \<Longrightarrow> rel s u"
    and rel_send: "eh_sendh h = Some f \<Longrightarrow> rel (c, w) (c, snd (f c m w))"
    and rel_connh: "eh_connh h = Some fc \<Longrightarrow> rel s (fc mt us cl ag sdp p s)"
    and rel_answerh: "eh_answerh h = Some fa \<Longrightarrow> rel s (fa r sdp p s)"
    and rel_update_reqh: "eh_update_reqh h = Some fq \<Longrightarrow> rel s (fq us cl sdp p r s)"
    and rel_update_resph: "eh_update_resph h = Some fr \<Longrightarrow> rel s (fr sdp p s)"
    and rel_closeh: "ec_closeh c \<Longrightarrow> rel (c, w) (eh_closeh h e (c\<lparr>ec_closeh := False\<rparr>, w))"
    and rel_frame: "same_ident c c' \<Longrightarrow> rel (c, w) (c', w)"
    and rel_clientid: "ec_clientid_remote c = [] \<Longrightarrow> rel (c, w) (c\<lparr>ec_clientid_remote := x\<rparr>, w)"
begin

lemma rel_frame_trans: "same_ident c c' \<Longrightarrow> rel (c', w) t \<Longrightarrow> rel (c, w) t"
  by (blast intro: rel_frame rel_trans)

lemma rel_then_frame: "rel s (c, w) \<Longrightarrow> same_ident c c' \<Longrightarrow> rel s (c', w)"
  by (blast intro: rel_frame rel_trans)

lemma rel_transp_send: "rel (c, w) (c, snd (transp_send h m c w))"
  using rel_send [of _ c w m]
  by (auto simp: transp_send_def rel_refl split: option.splits prod.splits)

lemma rel_transp_send': "transp_send h m c w = (err, w') \<Longrightarrow> rel (c, w) (c, w')"
  using rel_transp_send [of c w m] by simp

lemma rel_close: "rel s (econn_close h e s)"
proof (cases s)
  case (Pair c w)
  define c1 where "c1 = c\<lparr>ec_tmr := tmr_cancel, ec_setup_err := e\<rparr>"
  define w1 where "w1 = (if ec_state c1 = ECONN_PENDING_OUTGOING
                         then snd (send_cancel h c1 w) else w)"
  define c2 where "c2 = c1\<lparr>ec_state := ECONN_TERMINATING\<rparr>"
  have 1: "rel (c, w) (c1, w1)"
    by (rule rel_frame_trans [of _ c1])
       (auto simp: same_ident_def c1_def w1_def send_cancel_def rel_refl intro: rel_transp_send)
  have 2: "rel (c, w) (c2, w1)"
    by (rule rel_then_frame [OF 1]) (simp add: same_ident_def c2_def)
  have 3: "rel (c2, w1) (eh_closeh h e (c2\<lparr>ec_closeh := False\<rparr>, w1))" if "ec_closeh c"
    using that by (intro rel_closeh) (simp add: c1_def c2_def)
  have "econn_close h e s =
          (if ec_closeh c then eh_closeh h e (c2\<lparr>ec_closeh := False\<rparr>, w1) else (c2, w1))"
    by (simp add: econn_close_def Pair c1_def c2_def w1_def Let_def)
  with 2 3 Pair show ?thesis by (auto intro: rel_trans)
qed

lemma rel_send_setup: "rel s (snd (econn_send_setup h r sdp p u s))"
proof (cases s)
  case (Pair c w)
  then show ?thesis
    by (auto simp: econn_send_setup_def Let_def same_ident_def split: prod.splits
        intro!: rel_then_frame [OF rel_transp_send'])
qed

lemma rel_send_setup': "econn_send_setup h r sdp p u s = (err, s') \<Longrightarrow> rel s s'"
  using rel_send_setup [of s r sdp p u] by simp

lemma rel_handle_setup_request: "rel s (handle_setup_request h us cl m s)"
proof (cases s)
  case (Pair c w)
  show ?thesis
  proof (cases "ec_state c")
    case ECONN_IDLE
    then show ?thesis unfolding Pair handle_setup_request_def
      by (cases "eh_connh h")
         (auto simp: Let_def same_ident_def intro!: rel_frame rel_frame_trans [OF _ rel_connh])
  next
    case ECONN_PENDING_OUTGOING
    then show ?thesis unfolding Pair handle_setup_request_def
      by (cases "eh_answerh h")
         (auto simp: Let_def same_ident_def intro!: rel_frame rel_frame_trans [OF _ rel_answerh])
  qed (auto simp: Pair handle_setup_request_def rel_refl)
qed

lemma rel_handle_setup_response: "rel s (handle_setup_response h us cl m s)"
  by (cases s; cases "eh_answerh h")
     (auto simp: handle_setup_response_def Let_def same_ident_def rel_refl
       intro!: rel_frame rel_frame_trans [OF _ rel_answerh])

lemma rel_recv_setup: "rel s (recv_setup h us cl m s)"
proof (cases s)
  case (Pair c w)
  let ?x = "c\<lparr>ec_clientid_remote := str_ncpy (ec_clientid_remote c) (Some cl) 32\<rparr>"
  have "rel (c, w) (?x, w)" if "ec_clientid_remote c = []"
    using that by (rule rel_clientid)
  then show ?thesis
    by (auto simp: Pair recv_setup_def Let_def rel_refl
        intro: rel_trans rel_handle_setup_request rel_handle_setup_response)
qed

lemma rel_handle_update_request: "rel s (handle_update_request h us cl m s)"
  by (cases s; cases "eh_update_reqh h")
     (auto simp: handle_update_request_def Let_def same_ident_def rel_refl split: econn_state.split
       intro!: rel_frame rel_frame_trans [OF _ rel_update_reqh])

lemma rel_handle_update_response: "rel s (handle_update_response h us cl m s)"
  by (cases s; cases "eh_update_resph h")
     (auto simp: handle_update_response_def Let_def same_ident_def rel_refl
       intro!: rel_frame rel_frame_trans [OF _ rel_update_resph])

lemma rel_recv_update: "rel s (recv_update h us cl m s)"
  by (cases s)
     (auto simp: recv_update_def rel_refl rel_handle_update_request rel_handle_update_response)

lemma rel_recv_cancel: "rel s (recv_cancel h cl m s)"
  by (cases s)
     (auto simp: recv_cancel_def rel_refl same_ident_def intro!: rel_frame_trans [OF _ rel_close])

lemma rel_recv_hangup: "rel s (recv_hangup h m s)"
proof (cases s)
  case (Pair c w)
  let ?c1 = "c\<lparr>ec_state := ECONN_HANGUP_RECV\<rparr>"
  let ?w1 = "if econn_message_isrequest (Some m) then snd (send_hangup h True ?c1 w) else w"
  have "rel (c, w) (?c1, ?w1)"
    by (rule rel_frame_trans [of _ ?c1])
       (auto simp: same_ident_def send_hangup_def rel_refl intro: rel_transp_send)
  then have "rel (c, w) (?c1\<lparr>ec_state := ECONN_TERMINATING\<rparr>, ?w1)"
    by (rule rel_then_frame) (simp add: same_ident_def)
  from rel_trans [OF this rel_close [where e = 0]] show ?thesis
    by (simp add: Pair recv_hangup_def Let_def rel_refl)
qed

lemma rel_recv_message: "rel s (econn_recv_message h us cl m s)"
  by (auto simp: econn_recv_message_def rel_refl rel_recv_setup rel_recv_update rel_recv_cancel
      rel_recv_hangup split: econn_msg.split)

lemma rel_tmr_fire: "rel s (econn_tmr_fire h s)"
  by (cases s)
     (auto simp: econn_tmr_defs rel_refl same_ident_def Let_def
       split: option.splits econn_tmr.splits intro!: rel_frame_trans [OF _ rel_close])

lemma rel_start: "rel s (snd (econn_start h sdp p s))"
proof (cases s)
  case (Pair c w)
  let ?c1 = "c\<lparr>ec_state := ECONN_PENDING_OUTGOING, ec_dir := ECONN_DIR_OUTGOING\<rparr>"
  obtain err c2 w2 where s2: "econn_send_setup h False sdp p False (?c1, w) = (err, c2, w2)"
    by (cases "econn_send_setup h False sdp p False (?c1, w)") auto
  from rel_send_setup' [OF this] have "rel (c, w) (c2, w2)"
    by (rule rel_frame_trans [rotated]) (simp add: same_ident_def)
  with s2 show ?thesis
    by (auto simp: Pair econn_start_def Let_def rel_refl same_ident_def intro: rel_then_frame)
qed

lemma rel_update_req: "rel s (snd (econn_update_req h sdp p s))"
proof (cases s)
  case (Pair c w)
  let ?c1 = "c\<lparr>ec_state := ECONN_UPDATE_SENT\<rparr>"
  obtain err c2 w2 where s2: "econn_send_setup h False sdp p True (?c1, w) = (err, c2, w2)"
    by (cases "econn_send_setup h False sdp p True (?c1, w)") auto
  from rel_send_setup' [OF this] have "rel (c, w) (c2, w2)"
    by (rule rel_frame_trans [rotated]) (simp add: same_ident_def)
  with s2 show ?thesis
    by (auto simp: Pair econn_update_req_def Let_def rel_refl same_ident_def intro: rel_then_frame)
qed

lemma rel_respond:
  assumes "econn_send_setup h r sdp p u (c\<lparr>ec_tmr := t\<rparr>, w) = (err, c2, w2)"
  shows "rel (c, w) (c2, w2)" and "rel (c, w) (c2\<lparr>ec_state := st\<rparr>, w2)"
proof -
  from rel_send_setup' [OF assms] show *: "rel (c, w) (c2, w2)"
    by (rule rel_frame_trans [rotated]) (simp add: same_ident_def)
  then show "rel (c, w) (c2\<lparr>ec_state := st\<rparr>, w2)"
    by (rule rel_then_frame) (simp add: same_ident_def)
qed

lemma rel_update_resp: "rel s (snd (econn_update_resp h sdp p s))"
  by (cases s) (auto simp: econn_update_resp_def Let_def rel_refl split: prod.splits intro: rel_respond)

lemma rel_answer: "rel s (snd (econn_answer h sdp p s))"
  by (cases s) (auto simp: econn_answer_def Let_def rel_refl split: prod.splits intro: rel_respond)

lemma rel_end: "rel s (econn_end h s)"
  by (cases s)
     (auto simp: econn_end_def rel_refl same_ident_def send_cancel_def send_hangup_def
       split: econn_state.split intro!: rel_frame rel_then_frame [OF rel_transp_send])

lemma rel_propsync: "rel s (snd (econn_send_propsync h r p s))"
  by (cases s)
     (auto simp: econn_send_propsync_def Let_def rel_refl split: prod.splits intro: rel_transp_send')

lemma rel_datachan: "rel (c, w) (econn_set_datachan_established c, w)"
  by (auto simp: econn_set_datachan_established_def same_ident_def intro: rel_frame)

lemma rel_set_error: "rel (c, w) (econn_set_error e c, w)"
  by (auto simp: econn_set_error_def same_ident_def intro: rel_frame)

lemma rel_step: "rel s (econn_step h ev s)"
  by (cases s; cases ev)
     (simp_all add: rel_recv_message rel_tmr_fire rel_start rel_answer rel_update_req
       rel_update_resp rel_end rel_propsync rel_datachan rel_set_error rel_close)

end

sublocale econn_callbacks \<subseteq> steps: monotone_step "econn_step h" rel
  by unfold_locales (auto intro: rel_refl rel_trans rel_step)

end
