(* ===== verification/Econn_Safety.thy ===== *)
theory Econn_Safety
  imports Econn
begin

text \<open>
  Properties of one connection (\<^verbatim>\<open>src/econn/econn.c\<close>) under any sequence of messages, timer
  expiries and calls of its user. The callbacks here record what they were called with and the
  transport returns, per message, whatever a policy says; \<open>Ecall\<close> supplies the real ones.

  The abstract specification \<open>econn_lts\<close> is the state diagram of \<^verbatim>\<open>src/econn/README.md\<close> completed
  with the transitions the code has.
\<close>

section \<open>Recording callbacks\<close>

datatype econn_out =
    Out_send econn_message
  | Out_conn u32 string string u32 cptr "econn_props option"
  | Out_answer bool cptr "econn_props option"
  | Out_update_req string string cptr "econn_props option" bool
  | Out_update_resp cptr "econn_props option"
  | Out_close int

definition log_h :: "(econn_message \<Rightarrow> int) \<Rightarrow> econn_out list econn_h" where
  "log_h pol =
     \<lparr>eh_sendh = Some (\<lambda>c m w. (pol m, w @ [Out_send m])),
      eh_connh = Some (\<lambda>mt us cl ag sdp p (c, w). (c, w @ [Out_conn mt us cl ag sdp p])),
      eh_answerh = Some (\<lambda>r sdp p (c, w). (c, w @ [Out_answer r sdp p])),
      eh_update_reqh = Some (\<lambda>us cl sdp p r (c, w). (c, w @ [Out_update_req us cl sdp p r])),
      eh_update_resph = Some (\<lambda>sdp p (c, w). (c, w @ [Out_update_resp sdp p])),
      eh_closeh = (\<lambda>e (c, w). (c, w @ [Out_close e]))\<rparr>"

lemma log_h_simps [simp]:
  "eh_sendh (log_h pol) = Some (\<lambda>c m w. (pol m, w @ [Out_send m]))"
  "eh_connh (log_h pol) = Some (\<lambda>mt us cl ag sdp p (c, w). (c, w @ [Out_conn mt us cl ag sdp p]))"
  "eh_answerh (log_h pol) = Some (\<lambda>r sdp p (c, w). (c, w @ [Out_answer r sdp p]))"
  "eh_update_reqh (log_h pol) =
     Some (\<lambda>us cl sdp p r (c, w). (c, w @ [Out_update_req us cl sdp p r]))"
  "eh_update_resph (log_h pol) = Some (\<lambda>sdp p (c, w). (c, w @ [Out_update_resp sdp p]))"
  "eh_closeh (log_h pol) = (\<lambda>e (c, w). (c, w @ [Out_close e]))"
  by (simp_all add: log_h_def)

lemma transp_send_log [simp]:
  "transp_send (log_h pol) m c w = (pol m, w @ [Out_send m])"
  by (simp add: transp_send_def)

lemma econn_close_log:
  "econn_close (log_h pol) e (c, w) =
     (c\<lparr>ec_tmr := None, ec_setup_err := e, ec_state := ECONN_TERMINATING, ec_closeh := False\<rparr>,
      (if ec_state c = ECONN_PENDING_OUTGOING
       then w @ [Out_send (econn_message_init ECONN_CANCEL (Some (ec_sessid_local c)))] else w)
      @ (if ec_closeh c then [Out_close e] else []))"
  by (cases c) (simp add: econn_close_def send_cancel_def)

lemma econn_tmr_fire_eq:
  "econn_tmr_fire h (c, w) =
     (case ec_tmr c of
        None \<Rightarrow> (c, w)
      | Some (d, th) \<Rightarrow>
          econn_close h (if th = Tmr_local then ETIMEDOUT else ec_err c) (c\<lparr>ec_tmr := None\<rparr>, w))"
  by (auto simp: econn_tmr_defs Let_def split: option.split econn_tmr.split)

section \<open>Identity and the close handler\<close>

text \<open>What never changes, and what changes at most once.\<close>

definition econn_keeps :: "econn \<Rightarrow> econn \<Rightarrow> bool" where
  "econn_keeps c c' \<longleftrightarrow>
     ec_conf c' = ec_conf c \<and> ec_userid_self c' = ec_userid_self c \<and>
     ec_clientid c' = ec_clientid c \<and> ec_sessid_local c' = ec_sessid_local c \<and>
     (ec_closeh c' \<longrightarrow> ec_closeh c) \<and>
     (ec_clientid_remote c \<noteq> [] \<longrightarrow> ec_clientid_remote c' = ec_clientid_remote c)"

lemma econn_keeps_refl [simp]: "econn_keeps c c"
  by (simp add: econn_keeps_def)

lemma econn_keeps_trans: "econn_keeps a b \<Longrightarrow> econn_keeps b c \<Longrightarrow> econn_keeps a c"
  by (auto simp: econn_keeps_def)

interpretation log_keeps: econn_callbacks "log_h pol" "\<lambda>s t. econn_keeps (fst s) (fst t)" for pol
  by unfold_locales (auto simp: econn_keeps_def same_ident_def split: prod.splits)

fun n_closes :: "econn_out list \<Rightarrow> nat" where
  "n_closes [] = 0"
| "n_closes (Out_close e # os) = Suc (n_closes os)"
| "n_closes (x # os) = n_closes os"

lemma n_closes_append [simp]: "n_closes (xs @ ys) = n_closes xs + n_closes ys"
  by (induction xs rule: n_closes.induct) auto

text \<open>
  The conservation law behind "the close handler is called at most once": the calls made so far
  plus the call still possible do not change.
\<close>

definition close_budget :: "econn \<times> econn_out list \<Rightarrow> nat" where
  "close_budget s = n_closes (snd s) + (if ec_closeh (fst s) then 1 else 0)"

interpretation log_close: econn_callbacks "log_h pol" "\<lambda>s t. close_budget t = close_budget s" for pol
  by unfold_locales (auto simp: close_budget_def same_ident_def split: prod.splits)

section \<open>The abstract state machine\<close>

datatype econn_kind =
    K_setup | K_setup_resp | K_update | K_update_resp | K_cancel | K_hangup | K_ignored
  | K_tmr | K_start | K_answer | K_update_req | K_update_answer | K_end | K_propsync
  | K_datachan | K_set_error | K_close

fun ev_kind :: "econn_event \<Rightarrow> econn_kind" where
  "ev_kind (Ev_recv us cl m) =
     (case msg_type m of
        ECONN_SETUP \<Rightarrow> if msg_resp m then K_setup_resp else K_setup
      | ECONN_UPDATE \<Rightarrow> if msg_resp m then K_update_resp else K_update
      | ECONN_CANCEL \<Rightarrow> K_cancel
      | ECONN_HANGUP \<Rightarrow> K_hangup
      | _ \<Rightarrow> K_ignored)"
| "ev_kind Ev_tmr = K_tmr"
| "ev_kind (Ev_start sdp p) = K_start"
| "ev_kind (Ev_answer sdp p) = K_answer"
| "ev_kind (Ev_update_req sdp p) = K_update_req"
| "ev_kind (Ev_update_resp sdp p) = K_update_answer"
| "ev_kind Ev_end = K_end"
| "ev_kind (Ev_propsync r p) = K_propsync"
| "ev_kind Ev_datachan = K_datachan"
| "ev_kind (Ev_set_error e) = K_set_error"
| "ev_kind (Ev_close e) = K_close"

inductive econn_lts :: "econn_state \<Rightarrow> econn_kind \<Rightarrow> econn_state \<Rightarrow> bool" where
  lts_start: "econn_lts ECONN_IDLE K_start ECONN_PENDING_OUTGOING"
| lts_start_fail: "st \<in> {ECONN_IDLE, ECONN_PENDING_OUTGOING} \<Longrightarrow> econn_lts st K_start ECONN_TERMINATING"
| lts_setup: "econn_lts ECONN_IDLE K_setup ECONN_PENDING_INCOMING"
| lts_conflict: "econn_lts ECONN_PENDING_OUTGOING K_setup ECONN_CONFLICT_RESOLUTION"
| lts_answered: "st \<in> {ECONN_PENDING_OUTGOING, ECONN_CONFLICT_RESOLUTION} \<Longrightarrow>
     econn_lts st K_setup_resp ECONN_ANSWERED"
| lts_answer: "st \<in> {ECONN_PENDING_INCOMING, ECONN_CONFLICT_RESOLUTION} \<Longrightarrow>
     st' \<in> {ECONN_ANSWERED, ECONN_TERMINATING} \<Longrightarrow> econn_lts st K_answer st'"
| lts_datachan: "econn_lts ECONN_ANSWERED K_datachan ECONN_DATACHAN_ESTABLISHED"
| lts_update: "st \<in> {ECONN_ANSWERED, ECONN_DATACHAN_ESTABLISHED, ECONN_UPDATE_SENT} \<Longrightarrow>
     econn_lts st K_update ECONN_UPDATE_RECV"
| lts_update_resp: "econn_lts ECONN_UPDATE_SENT K_update_resp ECONN_ANSWERED"
| lts_update_answer: "st' \<in> {ECONN_ANSWERED, ECONN_TERMINATING} \<Longrightarrow>
     econn_lts ECONN_UPDATE_RECV K_update_answer st'"
| lts_update_req: "st' \<in> {ECONN_UPDATE_SENT, ECONN_TERMINATING} \<Longrightarrow> econn_lts st K_update_req st'"
| lts_cancel: "st \<in> {ECONN_PENDING_INCOMING, ECONN_ANSWERED, ECONN_DATACHAN_ESTABLISHED} \<Longrightarrow>
     econn_lts st K_cancel ECONN_TERMINATING"
| lts_hangup: "st \<in> {ECONN_DATACHAN_ESTABLISHED, ECONN_HANGUP_SENT} \<Longrightarrow>
     econn_lts st K_hangup ECONN_TERMINATING"
| lts_end: "st \<in> {ECONN_PENDING_INCOMING, ECONN_PENDING_OUTGOING, ECONN_ANSWERED,
     ECONN_CONFLICT_RESOLUTION} \<Longrightarrow> econn_lts st K_end ECONN_TERMINATING"
| lts_hangup_sent: "econn_lts ECONN_DATACHAN_ESTABLISHED K_end ECONN_HANGUP_SENT"
| lts_close: "k \<in> {K_tmr, K_close} \<Longrightarrow> econn_lts st k ECONN_TERMINATING"

inductive_simps econn_lts_simps [simp]: "econn_lts st k st'"

definition lts_or_same :: "econn_state \<Rightarrow> econn_kind \<Rightarrow> econn_state \<Rightarrow> bool" where
  "lts_or_same st k st' \<longleftrightarrow> st' = st \<or> econn_lts st k st'"

lemma lts_recv_setup:
  "lts_or_same (ec_state c) (if msg_resp m then K_setup_resp else K_setup)
     (ec_state (fst (recv_setup (log_h pol) us cl m (c, w))))"
  by (cases "ec_state c")
     (auto simp: lts_or_same_def recv_setup_def handle_setup_request_def
       handle_setup_response_def Let_def)

lemma lts_recv_update:
  "lts_or_same (ec_state c) (if msg_resp m then K_update_resp else K_update)
     (ec_state (fst (recv_update (log_h pol) us cl m (c, w))))"
  by (cases "ec_state c")
     (auto simp: lts_or_same_def recv_update_def handle_update_request_def
       handle_update_response_def Let_def)

lemma lts_recv_cancel:
  "lts_or_same (ec_state c) K_cancel (ec_state (fst (recv_cancel (log_h pol) cl m (c, w))))"
  by (auto simp: lts_or_same_def recv_cancel_def econn_close_log)

lemma lts_recv_hangup:
  "lts_or_same (ec_state c) K_hangup (ec_state (fst (recv_hangup (log_h pol) m (c, w))))"
  by (auto simp: lts_or_same_def recv_hangup_def econn_close_log Let_def send_hangup_def)

lemma lts_step:
  "lts_or_same (ec_state c) (ev_kind ev) (ec_state (fst (econn_step (log_h pol) ev (c, w))))"
proof (cases ev)
  case (Ev_recv us cl m)
  then show ?thesis
    using lts_recv_setup [of c m pol us cl w] lts_recv_update [of c m pol us cl w]
    by (auto simp: econn_recv_message_def lts_recv_cancel lts_recv_hangup lts_or_same_def [of _ K_ignored]
        split: econn_msg.split)
next
  case Ev_tmr
  then show ?thesis
    by (auto simp: lts_or_same_def econn_tmr_fire_eq econn_close_log split: option.split)
next
  case Ev_end
  then show ?thesis
    by (cases "ec_state c") (auto simp: lts_or_same_def econn_end_def)
qed (auto simp: lts_or_same_def econn_local_defs econn_send_setup_def Let_def econn_close_log)

section \<open>The timer guards every waiting state\<close>

definition econn_waiting :: "econn_state \<Rightarrow> bool" where
  "econn_waiting st \<longleftrightarrow>
     st \<in> {ECONN_PENDING_OUTGOING, ECONN_PENDING_INCOMING, ECONN_CONFLICT_RESOLUTION,
           ECONN_UPDATE_SENT, ECONN_UPDATE_RECV, ECONN_HANGUP_SENT}"

definition econn_timed :: "econn \<Rightarrow> bool" where
  "econn_timed c \<longleftrightarrow>
     timeout_setup (ec_conf c) \<noteq> 0 \<and> (econn_waiting (ec_state c) \<longrightarrow> ec_tmr c \<noteq> None) \<and>
     ec_state c \<noteq> ECONN_HANGUP_RECV"

lemma econn_waiting_simps [simp]:
  "econn_waiting ECONN_PENDING_OUTGOING" "econn_waiting ECONN_PENDING_INCOMING"
  "econn_waiting ECONN_CONFLICT_RESOLUTION" "econn_waiting ECONN_UPDATE_SENT"
  "econn_waiting ECONN_UPDATE_RECV" "econn_waiting ECONN_HANGUP_SENT"
  "\<not> econn_waiting ECONN_IDLE" "\<not> econn_waiting ECONN_ANSWERED"
  "\<not> econn_waiting ECONN_DATACHAN_ESTABLISHED" "\<not> econn_waiting ECONN_HANGUP_RECV"
  "\<not> econn_waiting ECONN_TERMINATING"
  by (simp_all add: econn_waiting_def)

lemma timed_recv_setup:
  "econn_timed c \<Longrightarrow> econn_timed (fst (recv_setup (log_h pol) us cl m (c, w)))"
  by (cases "ec_state c")
     (auto simp: econn_timed_def recv_setup_def handle_setup_request_def
       handle_setup_response_def Let_def)

lemma timed_recv_update:
  "econn_timed c \<Longrightarrow> econn_timed (fst (recv_update (log_h pol) us cl m (c, w)))"
  by (cases "ec_state c")
     (auto simp: econn_timed_def recv_update_def handle_update_request_def
       handle_update_response_def Let_def)

lemma timed_step: "econn_timed (fst s) \<Longrightarrow> econn_timed (fst (econn_step (log_h pol) ev s))"
proof (cases s; cases ev)
  fix c w us cl m
  assume "econn_timed (fst s)" "s = (c, w)" "ev = Ev_recv us cl m"
  then show "econn_timed (fst (econn_step (log_h pol) ev s))"
    by (auto simp: econn_recv_message_def timed_recv_setup timed_recv_update
        recv_cancel_def recv_hangup_def econn_close_log econn_timed_def [of "econn.ec_state_update _ _"]
        Let_def send_hangup_def split: econn_msg.split)
       (auto simp: econn_timed_def)
next
  fix c w
  assume "econn_timed (fst s)" "s = (c, w)" "ev = Ev_end"
  then show "econn_timed (fst (econn_step (log_h pol) ev s))"
    by (cases "ec_state c") (auto simp: econn_timed_def econn_end_def)
next
  fix c w
  assume "econn_timed (fst s)" "s = (c, w)" "ev = Ev_tmr"
  then show "econn_timed (fst (econn_step (log_h pol) ev s))"
    by (auto simp: econn_timed_def econn_tmr_fire_eq econn_close_log split: option.split)
qed (auto simp: econn_timed_def econn_local_defs econn_send_setup_def Let_def econn_close_log)

interpretation log_timed: event_system "econn_step (log_h pol)" "\<lambda>s. econn_timed (fst s)" for pol
  by unfold_locales (rule timed_step)

section \<open>What a connection sends\<close>

text \<open>Every message a step sends, and the states in which it may.\<close>

definition send_ok :: "econn \<Rightarrow> econn_message \<Rightarrow> bool" where
  "send_ok c m \<longleftrightarrow>
     sessid_sender m = take 63 (ec_sessid_local c) \<and>
     (msg_type m \<in> {ECONN_HANGUP, ECONN_PROPSYNC} \<longrightarrow>
        ec_state c \<in> {ECONN_DATACHAN_ESTABLISHED, ECONN_HANGUP_SENT}) \<and>
     (msg_type m = ECONN_SETUP \<longrightarrow>
        ec_state c \<in> {ECONN_IDLE, ECONN_PENDING_OUTGOING, ECONN_PENDING_INCOMING,
                      ECONN_CONFLICT_RESOLUTION}) \<and>
     (msg_type m = ECONN_CANCEL \<longrightarrow>
        ec_state c \<in> {ECONN_PENDING_OUTGOING, ECONN_CONFLICT_RESOLUTION, ECONN_ANSWERED})"

definition outs_ok :: "econn \<Rightarrow> econn_out list \<Rightarrow> econn_out list \<Rightarrow> bool" where
  "outs_ok c w w' \<longleftrightarrow> (\<exists>os. w' = w @ os \<and> (\<forall>m. Out_send m \<in> set os \<longrightarrow> send_ok c m))"

lemma str_ncpy_64 [simp]: "str_ncpy d (Some s) 64 = take 63 s"
  by (simp add: str_ncpy_def)

lemma outs_ok_simps [simp]:
  "outs_ok c w w"
  "outs_ok c w (w @ os) \<longleftrightarrow> (\<forall>m. Out_send m \<in> set os \<longrightarrow> send_ok c m)"
  by (auto simp: outs_ok_def)

lemma outs_ok_append1 [simp]:
  "outs_ok c w (w @ x # os) \<longleftrightarrow> (\<forall>m. Out_send m \<in> set (x # os) \<longrightarrow> send_ok c m)"
  by (simp only: outs_ok_simps)

lemma outs_recv_setup: "outs_ok c w (snd (recv_setup (log_h pol) us cl m (c, w)))"
  by (cases "ec_state c")
     (auto simp: recv_setup_def handle_setup_request_def handle_setup_response_def Let_def)

lemma outs_recv_update: "outs_ok c w (snd (recv_update (log_h pol) us cl m (c, w)))"
  by (cases "ec_state c")
     (auto simp: recv_update_def handle_update_request_def handle_update_response_def Let_def)

lemma outs_close: "outs_ok c w (snd (econn_close (log_h pol) e (c, w)))"
  by (auto simp: econn_close_log send_ok_def)

lemma outs_recv_cancel: "outs_ok c w (snd (recv_cancel (log_h pol) cl m (c, w)))"
  by (auto simp: recv_cancel_def econn_close_log)

lemma outs_recv_hangup: "outs_ok c w (snd (recv_hangup (log_h pol) m (c, w)))"
  by (auto simp: recv_hangup_def Let_def send_hangup_def econn_close_log send_ok_def)

lemma outs_tmr: "outs_ok c w (snd (econn_tmr_fire (log_h pol) (c, w)))"
  by (auto simp: econn_tmr_fire_eq econn_close_log send_ok_def split: option.split)

lemma outs_end: "outs_ok c w (snd (econn_end (log_h pol) (c, w)))"
  by (cases "ec_state c") (auto simp: econn_end_def send_cancel_def send_hangup_def send_ok_def)

lemma outs_step: "outs_ok c w (snd (econn_step (log_h pol) ev (c, w)))"
proof (cases ev)
  case (Ev_recv us cl m)
  then show ?thesis
    by (auto simp: econn_recv_message_def outs_recv_setup outs_recv_update outs_recv_cancel
        outs_recv_hangup split: econn_msg.split)
qed (auto simp: outs_tmr outs_end outs_close econn_start_def econn_answer_def econn_update_req_def
      econn_update_resp_def econn_send_propsync_def econn_set_datachan_established_def
      econn_set_error_def econn_send_setup_def Let_def send_ok_def)

section \<open>Two connections and the messages between them\<close>

text \<open>
  An endpoint is a connection with its log. The network may deliver any message the peer has ever
  sent, in any order and any number of times; the sender's user and client ids it is delivered
  with are the peer's, as the end-to-end encrypted channel guarantees.
\<close>

type_synonym endpoint = "econn \<times> econn_out list"

fun local_event :: "econn_event \<Rightarrow> bool" where
  "local_event (Ev_recv us cl m) = False"
| "local_event ev = True"

inductive net_step :: "(econn_message \<Rightarrow> int) \<Rightarrow> endpoint \<times> endpoint \<Rightarrow> endpoint \<times> endpoint \<Rightarrow> bool"
  for pol where
  net_local1: "local_event ev \<Longrightarrow> net_step pol (a, b) (econn_step (log_h pol) ev a, b)"
| net_local2: "local_event ev \<Longrightarrow> net_step pol (a, b) (a, econn_step (log_h pol) ev b)"
| net_recv1: "Out_send m \<in> set (snd b) \<Longrightarrow>
    net_step pol (a, b)
      (econn_step (log_h pol) (Ev_recv (ec_userid_self (fst b)) (ec_clientid (fst b)) m) a, b)"
| net_recv2: "Out_send m \<in> set (snd a) \<Longrightarrow>
    net_step pol (a, b)
      (a, econn_step (log_h pol) (Ev_recv (ec_userid_self (fst a)) (ec_clientid (fst a)) m) b)"

inductive net_reach :: "(econn_message \<Rightarrow> int) \<Rightarrow> econn \<Rightarrow> econn \<Rightarrow> endpoint \<times> endpoint \<Rightarrow> bool"
  for pol ca cb where
  net_init: "net_reach pol ca cb ((ca, []), (cb, []))"
| net_more: "net_reach pol ca cb n \<Longrightarrow> net_step pol n n' \<Longrightarrow> net_reach pol ca cb n'"

text \<open>
  What an endpoint knows of its peer \<open>p\<close> and of itself (it started as \<open>c0\<close>): its remote session is
  unset or the peer's, its view of a conflict is the one the ids decide, and all it sent carries
  its own session id.
\<close>

definition ep_inv :: "econn \<Rightarrow> econn \<Rightarrow> endpoint \<Rightarrow> bool" where
  "ep_inv p c0 = (\<lambda>(c, w).
     econn_keeps c0 c \<and>
     ec_sessid_remote c \<in> {[], take 63 (ec_sessid_local p)} \<and>
     ec_clientid_remote c \<in> {[], take 31 (ec_clientid p)} \<and>
     (ec_conflict c = 0 \<or>
      ec_conflict c = (if econn_iswinner (ec_userid_self c0) (ec_clientid c0)
                            (ec_userid_self p) (ec_clientid p) then 1 else -1)) \<and>
     (\<forall>m. Out_send m \<in> set w \<longrightarrow> sessid_sender m = take 63 (ec_sessid_local c0)))"

lemma ep_inv_log:
  assumes "ep_inv p c0 (c, w)"
  shows "\<forall>m. Out_send m \<in> set (snd (econn_step (log_h pol) ev (c, w))) \<longrightarrow>
           sessid_sender m = take 63 (ec_sessid_local c0)"
  using assms outs_step [of c w pol ev]
  by (auto simp: ep_inv_def outs_ok_def send_ok_def econn_keeps_def)

text \<open>A local event leaves what is known of the peer alone.\<close>

lemma local_event_peer:
  assumes "local_event ev"
  shows "ec_sessid_remote (fst (econn_step (log_h pol) ev (c, w))) = ec_sessid_remote c"
    and "ec_clientid_remote (fst (econn_step (log_h pol) ev (c, w))) = ec_clientid_remote c"
    and "ec_conflict (fst (econn_step (log_h pol) ev (c, w))) = ec_conflict c"
  using assms
  by (cases ev; auto simp: econn_local_defs econn_send_setup_def Let_def econn_close_log
      econn_tmr_fire_eq split: option.split econn_state.split)+

lemma ep_inv_local: "ep_inv p c0 s \<Longrightarrow> local_event ev \<Longrightarrow> ep_inv p c0 (econn_step (log_h pol) ev s)"
proof (cases s)
  case (Pair c w)
  assume inv: "ep_inv p c0 s" and ev: "local_event ev"
  obtain c' w' where s': "econn_step (log_h pol) ev (c, w) = (c', w')"
    by (cases "econn_step (log_h pol) ev (c, w)") auto
  have "econn_keeps c c'"
    using log_keeps.rel_step [of "(c, w)" pol ev] s' by simp
  then have "econn_keeps c0 c'"
    using inv Pair by (auto simp: ep_inv_def intro: econn_keeps_trans)
  moreover have "ec_sessid_remote c' = ec_sessid_remote c"
    "ec_clientid_remote c' = ec_clientid_remote c" "ec_conflict c' = ec_conflict c"
    using local_event_peer [OF ev, of pol c w] s' by simp_all
  moreover have "\<forall>m. Out_send m \<in> set w' \<longrightarrow> sessid_sender m = take 63 (ec_sessid_local c0)"
    using ep_inv_log [of p c0 c w pol ev] inv Pair s' by simp
  ultimately show ?thesis
    using inv Pair s' by (simp add: ep_inv_def)
qed

text \<open>What one received message can change of that knowledge.\<close>

definition peer_change :: "econn \<Rightarrow> string \<Rightarrow> string \<Rightarrow> string \<Rightarrow> econn \<Rightarrow> bool" where
  "peer_change c us cl sid c' \<longleftrightarrow>
     ec_sessid_remote c' \<in> {ec_sessid_remote c, sid} \<and>
     ec_clientid_remote c' \<in> {ec_clientid_remote c, take 31 cl} \<and>
     ec_conflict c' \<in> {ec_conflict c,
       if econn_iswinner (ec_userid_self c) (ec_clientid c) us cl then 1 else -1}"

lemma peer_recv_setup:
  "peer_change c us cl (take 63 (sessid_sender m)) (fst (recv_setup (log_h pol) us cl m (c, w)))"
  by (cases "ec_state c")
     (auto simp: peer_change_def recv_setup_def handle_setup_request_def handle_setup_response_def
       Let_def str_ncpy_def)

lemma peer_recv_update:
  "peer_change c us cl sid (fst (recv_update (log_h pol) us cl m (c, w)))"
  by (cases "ec_state c")
     (simp_all add: peer_change_def recv_update_def handle_update_request_def
       handle_update_response_def Let_def)

lemma peer_recv_cancel: "peer_change c us cl sid (fst (recv_cancel (log_h pol) cl' m (c, w)))"
  by (simp add: peer_change_def recv_cancel_def econn_close_log)

lemma peer_recv_hangup: "peer_change c us cl sid (fst (recv_hangup (log_h pol) m (c, w)))"
  by (simp add: peer_change_def recv_hangup_def econn_close_log Let_def)

lemma peer_recv_message:
  "peer_change c us cl (take 63 (sessid_sender m))
     (fst (econn_recv_message (log_h pol) us cl m (c, w)))"
  by (simp add: econn_recv_message_def peer_recv_setup peer_recv_update peer_recv_cancel
      peer_recv_hangup split: econn_msg.split)
     (simp add: peer_change_def)

lemma ep_inv_sent:
  "ep_inv p c0 s \<Longrightarrow> Out_send m \<in> set (snd s) \<Longrightarrow> sessid_sender m = take 63 (ec_sessid_local c0)"
  by (cases s) (simp add: ep_inv_def)

lemma ep_inv_ident:
  "ep_inv p c0 s \<Longrightarrow>
     ec_userid_self (fst s) = ec_userid_self c0 \<and> ec_clientid (fst s) = ec_clientid c0"
  by (cases s) (simp add: ep_inv_def econn_keeps_def)

lemma ep_inv_peer:
  assumes "ep_inv p c0 (c, w)" and "econn_keeps c0 c'"
    and "ec_userid_self c = ec_userid_self c0" "ec_clientid c = ec_clientid c0"
    and ch: "peer_change c (ec_userid_self p) (ec_clientid p) (take 63 (ec_sessid_local p)) c'"
    and sent: "\<forall>m. Out_send m \<in> set w' \<longrightarrow> sessid_sender m = take 63 (ec_sessid_local c0)"
  shows "ep_inv p c0 (c', w')"
proof -
  have "ec_sessid_remote c' \<in> {[], take 63 (ec_sessid_local p)}"
    using assms(1) ch by (cases "ec_sessid_remote c' = ec_sessid_remote c")
      (simp_all add: ep_inv_def peer_change_def)
  moreover have "ec_clientid_remote c' \<in> {[], take 31 (ec_clientid p)}"
    using assms(1) ch by (cases "ec_clientid_remote c' = ec_clientid_remote c")
      (simp_all add: ep_inv_def peer_change_def)
  moreover have "ec_conflict c' = 0 \<or> ec_conflict c' =
      (if econn_iswinner (ec_userid_self c0) (ec_clientid c0) (ec_userid_self p) (ec_clientid p)
       then 1 else -1)"
    using assms(1,3,4) ch by (cases "ec_conflict c' = ec_conflict c")
      (simp_all add: ep_inv_def peer_change_def)
  ultimately show ?thesis using assms(2) sent by (simp add: ep_inv_def)
qed

lemma ep_inv_recv:
  assumes "ep_inv p c0 s" and "sessid_sender m = take 63 (ec_sessid_local p)"
  shows "ep_inv p c0 (econn_step (log_h pol) (Ev_recv (ec_userid_self p) (ec_clientid p) m) s)"
proof (cases s)
  case (Pair c w)
  let ?ev = "Ev_recv (ec_userid_self p) (ec_clientid p) m"
  obtain c' w' where s': "econn_step (log_h pol) ?ev (c, w) = (c', w')"
    by (cases "econn_step (log_h pol) ?ev (c, w)") auto
  have "econn_keeps c c'"
    using log_keeps.rel_step [of "(c, w)" pol ?ev] s' by simp
  then have "econn_keeps c0 c'"
    using assms(1) Pair by (auto simp: ep_inv_def intro: econn_keeps_trans)
  moreover have "ec_userid_self c = ec_userid_self c0" "ec_clientid c = ec_clientid c0"
    using ep_inv_ident [OF assms(1)] Pair by simp_all
  moreover have "peer_change c (ec_userid_self p) (ec_clientid p) (take 63 (ec_sessid_local p)) c'"
    using peer_recv_message [of c "ec_userid_self p" "ec_clientid p" m pol w] s' assms(2)
    by simp
  moreover have "\<forall>m. Out_send m \<in> set w' \<longrightarrow> sessid_sender m = take 63 (ec_sessid_local c0)"
    using ep_inv_log [of p c0 c w pol ?ev] assms(1) Pair s' by simp
  ultimately have "ep_inv p c0 (c', w')"
    using ep_inv_peer assms(1) Pair by simp
  then show ?thesis using Pair s' by simp
qed

definition fresh_econn :: "econn \<Rightarrow> bool" where
  "fresh_econn c \<longleftrightarrow>
     ec_state c = ECONN_IDLE \<and> ec_tmr c = None \<and> ec_sessid_remote c = [] \<and>
     ec_clientid_remote c = [] \<and> ec_conflict c = 0"

lemma econn_alloc_fresh: "econn_alloc cfg u cl hc sid = Inr c \<Longrightarrow> fresh_econn c"
  by (auto simp: econn_alloc_def fresh_econn_def split: if_splits)

lemma net_inv:
  assumes "net_reach pol ca cb n" and "fresh_econn ca" and "fresh_econn cb"
  shows "ep_inv cb ca (fst n) \<and> ep_inv ca cb (snd n)"
  using assms(1)
proof (induction rule: net_reach.induct)
  case net_init
  show ?case using assms(2,3) by (simp add: ep_inv_def fresh_econn_def)
next
  case (net_more n n')
  from net_more.hyps(2) show ?case
  proof cases
    case (net_local1 ev a b)
    then show ?thesis using net_more.IH by (simp add: ep_inv_local)
  next
    case (net_local2 ev b a)
    then show ?thesis using net_more.IH by (simp add: ep_inv_local)
  next
    case (net_recv1 m b a)
    then have ends: "ep_inv ca cb b" "ep_inv cb ca a" using net_more.IH by simp_all
    have "ep_inv cb ca (econn_step (log_h pol)
        (Ev_recv (ec_userid_self (fst b)) (ec_clientid (fst b)) m) a)"
      using ep_inv_recv [OF ends(2) ep_inv_sent [OF ends(1) net_recv1(3)], of pol]
        ep_inv_ident [OF ends(1)] by (simp del: econn_step.simps)
    then show ?thesis using net_recv1 ends by (simp del: econn_step.simps)
  next
    case (net_recv2 m a b)
    then have ends: "ep_inv cb ca a" "ep_inv ca cb b" using net_more.IH by simp_all
    have "ep_inv ca cb (econn_step (log_h pol)
        (Ev_recv (ec_userid_self (fst a)) (ec_clientid (fst a)) m) b)"
      using ep_inv_recv [OF ends(2) ep_inv_sent [OF ends(1) net_recv2(3)], of pol]
        ep_inv_ident [OF ends(1)] by (simp del: econn_step.simps)
    then show ?thesis using net_recv2 ends by (simp del: econn_step.simps)
  qed
qed

end
