(* ===== verification/Econn_Correct.thy ===== *)
theory Econn_Correct
  imports Econn_Safety
begin

text \<open>
  What \<^verbatim>\<open>src/econn/econn.c\<close> promises of one connection and of two connections that talk to each
  other: call set-up, two calls that cross (glare), hang-up and time-outs. A scenario is a
  composition of the operations of \<open>Econn\<close> where the messages delivered are the ones the peer's
  transport recorded.
\<close>

section \<open>Scenarios\<close>

definition sent :: "econn_out list \<Rightarrow> econn_message list" where
  "sent w = List.map_filter (\<lambda>x. case x of Out_send m \<Rightarrow> Some m | _ \<Rightarrow> None) w"

lemma sent_simps [simp]:
  "sent [] = []" "sent (w @ w') = sent w @ sent w'" "sent (Out_send m # w) = m # sent w"
  "sent (Out_conn t us cl g s p # w) = sent w" "sent (Out_answer r s p # w) = sent w"
  "sent (Out_update_req us cl s p r # w) = sent w" "sent (Out_update_resp s p # w) = sent w"
  "sent (Out_close e # w) = sent w"
  by (simp_all add: sent_def map_filter_def)

text \<open>The last message one endpoint sent reaches the other.\<close>

definition deliver :: "endpoint \<Rightarrow> endpoint \<Rightarrow> endpoint" where
  "deliver x y =
     econn_step (log_h (\<lambda>_. 0))
       (Ev_recv (ec_userid_self (fst x)) (ec_clientid (fst x)) (last (sent (snd x)))) y"

definition act :: "econn_event \<Rightarrow> endpoint \<Rightarrow> endpoint" where
  "act ev x = econn_step (log_h (\<lambda>_. 0)) ev x"

text \<open>A calls B, and B accepts.\<close>

definition call_scenario ::
  "cptr \<Rightarrow> cptr \<Rightarrow> econn_props option \<Rightarrow> econn_props option \<Rightarrow> econn \<Rightarrow> econn \<Rightarrow> endpoint \<times> endpoint" where
  "call_scenario sdpa sdpb pa pb ca cb =
     (let a = act (Ev_start sdpa pa) (ca, []);
          b = act (Ev_answer sdpb pb) (deliver a (cb, []))
      in (deliver b a, b))"

text \<open>Both data channels open, A ends the call and B acknowledges.\<close>

definition hangup_scenario :: "endpoint \<times> endpoint \<Rightarrow> endpoint \<times> endpoint" where
  "hangup_scenario n =
     (let a = act Ev_end (act Ev_datachan (fst n));
          b = deliver a (act Ev_datachan (snd n))
      in (deliver b a, b))"

text \<open>
  Both call at the same time: each request arrives while the other side already waits for an
  answer. B answers the request it received; A's answer to nothing is never sent.
\<close>

definition glare_scenario ::
  "cptr \<Rightarrow> cptr \<Rightarrow> cptr \<Rightarrow> econn_props option \<Rightarrow> econn_props option \<Rightarrow> econn_props option \<Rightarrow>
     econn \<Rightarrow> econn \<Rightarrow> endpoint \<times> endpoint" where
  "glare_scenario sdpa sdpb sdpr pa pb pr ca cb =
     (let a = act (Ev_start sdpa pa) (ca, []);
          b = act (Ev_start sdpb pb) (cb, []);
          a' = deliver b a;
          b' = act (Ev_answer sdpr pr) (deliver a b)
      in (deliver b' a', b'))"

text \<open>A connection as \<^verbatim>\<open>econn_alloc\<close> makes it, with ids that fit the fixed-size buffers.\<close>

definition ready_econn :: "econn \<Rightarrow> bool" where
  "ready_econn c \<longleftrightarrow>
     fresh_econn c \<and> ec_closeh c \<and> timeout_setup (ec_conf c) \<noteq> 0 \<and>
     ec_clientid c \<noteq> [] \<and> length (ec_clientid c) < 32 \<and> length (ec_sessid_local c) < 64"

lemma ready_econnD:
  assumes "ready_econn c"
  shows "ec_state c = ECONN_IDLE" "ec_tmr c = None" "ec_sessid_remote c = []"
    "ec_clientid_remote c = []" "ec_conflict c = 0" "ec_closeh c" "timeout_setup (ec_conf c) \<noteq> 0"
    "ec_clientid c \<noteq> []" "take 31 (ec_clientid c) = ec_clientid c"
    "take 63 (ec_sessid_local c) = ec_sessid_local c"
  using assms by (auto simp: ready_econn_def fresh_econn_def)

lemma str_ncpy_32 [simp]: "str_ncpy d (Some s) 32 = take 31 s"
  by (simp add: str_ncpy_def)

lemmas scenario_defs =
  call_scenario_def hangup_scenario_def glare_scenario_def deliver_def act_def Let_def

definition econn0 :: "string \<Rightarrow> string \<Rightarrow> string \<Rightarrow> econn" where
  "econn0 u cl sid =
     \<lparr>ec_conf = default_conf, ec_tmr = None, ec_state = ECONN_IDLE, ec_dir = ECONN_DIR_UNKNOWN,
      ec_userid_self = u, ec_clientid = cl, ec_sessid_local = sid, ec_sessid_remote = [],
      ec_clientid_remote = [], ec_setup_err = 0, ec_conflict = 0, ec_closeh = True, ec_err = 0\<rparr>"

lemma econn0_alloc:
  "u \<noteq> [] \<Longrightarrow> cl \<noteq> [] \<Longrightarrow> econn_alloc None (Some u) (Some cl) True sid = Inr (econn0 u cl sid)"
  by (simp add: econn_alloc_def econn0_def)

section \<open>One connection\<close>

text \<open>
  C9. However a connection that was given a close handler is used, the handler has been called at
  most once, and exactly when its pointer has been cleared.
\<close>

theorem econn_close_once:
  assumes "econn_alloc cfg us cl True sid = Inr c"
    and "run (econn_step (log_h pol)) evs (c, []) = (c', w)"
  shows "n_closes w \<le> 1 \<and> (n_closes w = 1 \<longleftrightarrow> \<not> ec_closeh c')"
proof -
  have "ec_closeh c" using assms(1) by (auto simp: econn_alloc_def split: if_splits)
  then have "close_budget (c', w) = 1"
    using log_close.steps.rel_run [of pol evs "(c, [])"] assms(2) by (simp add: close_budget_def)
  then show ?thesis by (auto simp: close_budget_def split: if_splits)
qed

theorem econn_close_once_witness:
  "\<exists>c'. run (econn_step (log_h (\<lambda>_. 0))) [Ev_start None None, Ev_tmr, Ev_end, Ev_close 5]
        (econn0 ''u'' ''c'' ''s'', []) =
      (c', [Out_send (econn_message_init ECONN_SETUP (Some ''s'')),
            Out_send (econn_message_init ECONN_CANCEL (Some ''s'')), Out_close ETIMEDOUT])
    \<and> \<not> ec_closeh c'"
proof -
  let ?evs = "[Ev_start None None, Ev_tmr, Ev_end, Ev_close 5]"
  let ?w = "[Out_send (econn_message_init ECONN_SETUP (Some ''s'')),
            Out_send (econn_message_init ECONN_CANCEL (Some ''s'')), Out_close ETIMEDOUT]"
  obtain c' where "run (econn_step (log_h (\<lambda>_. 0))) ?evs (econn0 ''u'' ''c'' ''s'', []) = (c', ?w)"
    by (simp add: econn0_def econn_local_defs econn_send_setup_def econn_tmr_fire_eq econn_close_log
        default_conf_def econn_message_init_def econn_message_zero_def)
  with econn_close_once [OF econn0_alloc this] show ?thesis by auto
qed

text \<open>
  No use of a connection changes its configuration, user id, client id or session id, none
  restores the close handler, and once the remote client is known it stays the same.
\<close>

theorem econn_identity_kept:
  "econn_keeps c (fst (run (econn_step (log_h pol)) evs (c, w)))"
  using log_keeps.steps.rel_run [of "(c, w)" pol evs] by simp

text \<open>
  C10. The connection refines the abstract state machine: every event either leaves the protocol
  state or makes a transition the machine has for that kind of event.
\<close>

theorem econn_refines_lts:
  "lts_or_same (ec_state c) (ev_kind ev) (ec_state (fst (econn_step (log_h pol) ev (c, w))))"
  by (rule lts_step)

text \<open>
  C22. With a non-zero set-up time-out, a connection that waits for its peer or for its user never
  waits forever: its timer is running, and when it fires the connection terminates and the close
  handler has been called.
\<close>

theorem econn_never_stuck:
  assumes "econn_alloc cfg us cl hc sid = Inr c" and "timeout_setup (ec_conf c) \<noteq> 0"
    and "run (econn_step (log_h pol)) evs (c, []) = (c', w)" and "econn_waiting (ec_state c')"
  shows "tmr_isrunning (ec_tmr c') \<and>
    (\<exists>c'' w''. econn_step (log_h pol) Ev_tmr (c', w) = (c'', w'') \<and>
       ec_state c'' = ECONN_TERMINATING \<and> \<not> ec_closeh c'' \<and>
       n_closes w'' = n_closes w + (if ec_closeh c' then 1 else 0))"
proof -
  have "econn_timed c"
    using assms(1,2) by (auto simp: econn_alloc_def econn_timed_def split: if_splits)
  then have "econn_timed c'"
    using log_timed.inv_run [of "(c, [])" pol evs] assms(3) by simp
  then show ?thesis
    using assms(4) by (auto simp: econn_timed_def econn_tmr_fire_eq econn_close_log)
qed

theorem econn_never_stuck_witness:
  "\<exists>c'' w''. econn_step (log_h (\<lambda>_. 0)) Ev_tmr
      (run (econn_step (log_h (\<lambda>_. 0))) [Ev_start None None] (econn0 ''u'' ''c'' ''s'', [])) = (c'', w'')
    \<and> ec_state c'' = ECONN_TERMINATING \<and> n_closes w'' = 1"
proof -
  let ?r = "run (econn_step (log_h (\<lambda>_. 0))) [Ev_start None None] (econn0 ''u'' ''c'' ''s'', [])"
  have "ec_state (fst ?r) = ECONN_PENDING_OUTGOING" "ec_closeh (fst ?r)" "n_closes (snd ?r) = 0"
    by (simp_all add: econn0_def econn_local_defs econn_send_setup_def default_conf_def)
  with econn_never_stuck [OF econn0_alloc _ surjective_pairing, of "''u''" "''c''" "''s''" "\<lambda>_. 0"
      "[Ev_start None None]"] show ?thesis
    by (auto simp: econn0_def default_conf_def)
qed

text \<open>
  A terminating connection ignores every message, whatever its callbacks are: neither its
  state, its timer nor the outside world changes; only a first SETUP still binds the remote
  client id.
\<close>

theorem econn_terminating_ignores:
  assumes "ec_state c = ECONN_TERMINATING"
  shows "econn_recv_message h us cl m (c, w) =
    (if msg_type m = ECONN_SETUP \<and> ec_clientid_remote c = []
     then c\<lparr>ec_clientid_remote := take 31 cl\<rparr> else c, w)"
  using assms
  by (cases "msg_type m")
     (simp_all add: econn_recv_message_def recv_setup_def recv_update_def recv_cancel_def
       recv_hangup_def handle_setup_request_def handle_setup_response_def
       handle_update_request_def handle_update_response_def Let_def)

theorem econn_terminating_ignores_witness:
  "econn_recv_message (log_h (\<lambda>_. 0)) ''u'' ''x'' (econn_message_init ECONN_HANGUP (Some ''r''))
     ((econn0 ''a'' ''b'' ''s'')\<lparr>ec_state := ECONN_TERMINATING\<rparr>, []) =
     ((econn0 ''a'' ''b'' ''s'')\<lparr>ec_state := ECONN_TERMINATING\<rparr>, [])"
  using econn_terminating_ignores [of "(econn0 ''a'' ''b'' ''s'')\<lparr>ec_state := ECONN_TERMINATING\<rparr>"
      "log_h (\<lambda>_. 0)" "''u''" "''x''" "econn_message_init ECONN_HANGUP (Some ''r'')" "[]"]
  by (simp add: econn_message_init_def)

text \<open>
  C23. Messages of third parties have no effect, whatever the callbacks are: a SETUP or UPDATE from
  another client than the bound one, an UPDATE, CANCEL or HANGUP of another session, and a CANCEL
  from another client leave connection and world as they are.
\<close>

definition foreign_msg :: "econn \<Rightarrow> string \<Rightarrow> econn_message \<Rightarrow> bool" where
  "foreign_msg c cl m \<longleftrightarrow>
     (case msg_type m of
        ECONN_SETUP \<Rightarrow>
          ec_clientid_remote c \<noteq> [] \<and> map tolower cl \<noteq> map tolower (ec_clientid_remote c)
      | ECONN_UPDATE \<Rightarrow>
          map tolower cl \<noteq> map tolower (ec_clientid_remote c) \<or>
          map tolower (sessid_sender m) \<noteq> map tolower (ec_sessid_remote c)
      | ECONN_CANCEL \<Rightarrow>
          map tolower cl \<noteq> map tolower (ec_clientid_remote c) \<or>
          map tolower (sessid_sender m) \<noteq> map tolower (ec_sessid_remote c)
      | ECONN_HANGUP \<Rightarrow> map tolower (sessid_sender m) \<noteq> map tolower (ec_sessid_remote c)
      | _ \<Rightarrow> True)"



text \<open>
  C24. What a connection sends: each message of a step carries the connection's own session id, a
  HANGUP or PROPSYNC only leaves an established connection, a SETUP only one that is not yet
  answered, and a CANCEL only one that is not yet established.
\<close>

theorem econn_sends_ok:
  "outs_ok c w (snd (econn_step (log_h pol) ev (c, w)))"
  by (rule outs_step)

section \<open>Two connections\<close>

text \<open>
  C1. In every state two connections of different clients can reach, over a network that loses,
  repeats and reorders messages, both ends never claim to have won the conflict and never claim to
  have lost it, and a bound remote session is the peer's session.
\<close>

theorem econn_agreement:
  assumes "net_reach pol ca cb (a, b)" and "fresh_econn ca" and "fresh_econn cb"
    and "(ec_userid_self ca, ec_clientid ca) \<noteq> (ec_userid_self cb, ec_clientid cb)"
  shows "\<not> (ec_conflict (fst a) = 1 \<and> ec_conflict (fst b) = 1) \<and>
    \<not> (ec_conflict (fst a) = -1 \<and> ec_conflict (fst b) = -1) \<and>
    ec_sessid_remote (fst a) \<in> {[], take 63 (ec_sessid_local cb)} \<and>
    ec_sessid_remote (fst b) \<in> {[], take 63 (ec_sessid_local ca)}"
proof -
  have "ep_inv cb ca a" "ep_inv ca cb b"
    using net_inv [OF assms(1-3)] by simp_all
  then show ?thesis
    using econn_iswinner_swap [OF assms(4)]
    by (cases a; cases b) (auto simp: ep_inv_def split: if_splits)
qed

theorem econn_agreement_witness:
  "let a = econn_step (log_h (\<lambda>_. 0)) (Ev_start None None) (econn0 ''u'' ''c'' ''s'', [])
   in \<not> (ec_conflict (fst a) = 1 \<and> ec_conflict (econn0 ''v'' ''d'' ''t'') = 1) \<and>
      ec_sessid_remote (fst a) \<in> {[], ''t''}"
proof -
  let ?a = "econn_step (log_h (\<lambda>_. 0)) (Ev_start None None) (econn0 ''u'' ''c'' ''s'', [])"
  have "net_reach (\<lambda>_. 0) (econn0 ''u'' ''c'' ''s'') (econn0 ''v'' ''d'' ''t'')
      (?a, (econn0 ''v'' ''d'' ''t'', []))"
    by (rule net_more [OF net_init net_local1]) simp
  from econn_agreement [OF this] show ?thesis
    by (simp add: econn0_def fresh_econn_def Let_def)
qed

text \<open>
  Of two different clients exactly one wins a conflict: the decision the one computes from the
  two identities is the opposite of what the other computes.
\<close>

theorem econn_winner_unique:
  assumes "(us, cl) \<noteq> (us', cl')"
  shows "econn_iswinner us cl us' cl' \<longleftrightarrow> \<not> econn_iswinner us' cl' us cl"
  using assms by (rule econn_iswinner_swap)

theorem econn_winner_unique_witness:
  "econn_iswinner ''bob'' ''1'' ''alice'' ''2'' \<longleftrightarrow> \<not> econn_iswinner ''alice'' ''2'' ''bob'' ''1''"
  by (rule econn_winner_unique) simp

text \<open>
  C13. A call that is accepted connects both ends: both are in the answered state with no timer
  left, each is bound to the other's session and client, the callee's application has been told of
  the call and the caller's of the answer with the very SDP and properties the peer sent.
\<close>

theorem econn_call_connects:
  assumes "ready_econn ca" and "ready_econn cb"
  shows "\<exists>a b. call_scenario sdpa sdpb pa pb ca cb = (a, b) \<and>
    ec_state (fst a) = ECONN_ANSWERED \<and> ec_state (fst b) = ECONN_ANSWERED \<and>
    ec_tmr (fst a) = None \<and> ec_tmr (fst b) = None \<and>
    ec_sessid_remote (fst a) = ec_sessid_local cb \<and>
    ec_sessid_remote (fst b) = ec_sessid_local ca \<and>
    ec_clientid_remote (fst a) = ec_clientid cb \<and>
    ec_clientid_remote (fst b) = ec_clientid ca \<and>
    Out_conn 0 (ec_userid_self ca) (ec_clientid ca) 0 sdpa pa \<in> set (snd b) \<and>
    Out_answer False sdpb pb \<in> set (snd a)"
  using ready_econnD [OF assms(1)] ready_econnD [OF assms(2)]
  by (simp add: scenario_defs econn_start_def econn_answer_def econn_send_setup_def
      econn_recv_message_def recv_setup_def handle_setup_request_def handle_setup_response_def
      econn_message_init_def econn_message_zero_def econn_message_isrequest_def)

theorem econn_call_connects_witness:
  "ec_state (fst (fst (call_scenario (Some ''o'') (Some ''r'') None None
      (econn0 ''u'' ''c'' ''s'') (econn0 ''v'' ''d'' ''t'')))) = ECONN_ANSWERED"
  using econn_call_connects [of "econn0 ''u'' ''c'' ''s''" "econn0 ''v'' ''d'' ''t''"
      "Some ''o''" "Some ''r''" None None]
  by (auto simp: ready_econn_def fresh_econn_def econn0_def default_conf_def)

text \<open>
  C20. Two calls that cross become one call: when both start and both requests arrive, the winner
  keeps waiting, the loser answers the winner's request, and both end up answered, bound to each
  other's session, with opposite views of the conflict and no timer left.
\<close>

theorem econn_glare_converges:
  assumes "ready_econn ca" and "ready_econn cb"
    and "econn_iswinner (ec_userid_self ca) (ec_clientid ca) (ec_userid_self cb) (ec_clientid cb)"
  shows "\<exists>a b. glare_scenario sdpa sdpb sdpr pa pb pr ca cb = (a, b) \<and>
    ec_state (fst a) = ECONN_ANSWERED \<and> ec_state (fst b) = ECONN_ANSWERED \<and>
    ec_conflict (fst a) = 1 \<and> ec_conflict (fst b) = -1 \<and>
    ec_tmr (fst a) = None \<and> ec_tmr (fst b) = None \<and>
    ec_sessid_remote (fst a) = ec_sessid_local cb \<and>
    ec_sessid_remote (fst b) = ec_sessid_local ca \<and>
    Out_answer True sdpa pa \<in> set (snd b) \<and> Out_answer False sdpr pr \<in> set (snd a)"
proof -
  have "\<not> econn_iswinner (ec_userid_self cb) (ec_clientid cb) (ec_userid_self ca) (ec_clientid ca)"
    using assms(3) econn_iswinner_swap [of "ec_userid_self ca" "ec_clientid ca" "ec_userid_self cb"
        "ec_clientid cb"] by (metis econn_iswinner_irrefl prod.inject)
  then show ?thesis
    using ready_econnD [OF assms(1)] ready_econnD [OF assms(2)] assms(3)
    by (simp add: scenario_defs econn_start_def econn_answer_def econn_send_setup_def
        econn_recv_message_def recv_setup_def handle_setup_request_def handle_setup_response_def
        econn_message_init_def econn_message_zero_def econn_message_isrequest_def)
qed

theorem econn_glare_converges_witness:
  "ec_state (fst (snd (glare_scenario (Some ''o'') (Some ''p'') (Some ''r'') None None None
      (econn0 ''v'' ''c'' ''s'') (econn0 ''u'' ''d'' ''t'')))) = ECONN_ANSWERED"
proof -
  have "econn_iswinner ''v'' ''c'' ''u'' ''d''" by (simp add: econn_iswinner_def)
  then show ?thesis
    using econn_glare_converges [of "econn0 ''v'' ''c'' ''s''" "econn0 ''u'' ''d'' ''t''"
        "Some ''o''" "Some ''p''" "Some ''r''" None None None]
    by (auto simp: ready_econn_def fresh_econn_def econn0_def default_conf_def)
qed

text \<open>
  C21. Hanging up ends both sides: from two answered connections bound to each other, once both
  data channels are open and the one side ends the call, both are terminating, with no timer left
  and their close handlers called with no error, once each.
\<close>

theorem econn_hangup_ends_both:
  assumes "ec_state (fst a) = ECONN_ANSWERED" and "ec_state (fst b) = ECONN_ANSWERED"
    and "ec_closeh (fst a)" and "ec_closeh (fst b)"
    and "length (ec_sessid_local (fst a)) < 64" and "length (ec_sessid_local (fst b)) < 64"
    and "ec_sessid_remote (fst a) = ec_sessid_local (fst b)"
    and "ec_sessid_remote (fst b) = ec_sessid_local (fst a)"
  shows "\<exists>a' b'. hangup_scenario (a, b) = (a', b') \<and>
    ec_state (fst a') = ECONN_TERMINATING \<and> ec_state (fst b') = ECONN_TERMINATING \<and>
    ec_tmr (fst a') = None \<and> ec_tmr (fst b') = None \<and>
    n_closes (snd a') = Suc (n_closes (snd a)) \<and> n_closes (snd b') = Suc (n_closes (snd b)) \<and>
    last (snd a') = Out_close 0 \<and> last (snd b') = Out_close 0"
  using assms
  by (cases a; cases b)
     (simp add: scenario_defs econn_end_def econn_set_datachan_established_def
       econn_recv_message_def recv_hangup_def send_hangup_def econn_close_log
       econn_message_init_def econn_message_zero_def econn_message_isrequest_def)

theorem econn_hangup_ends_both_witness:
  "ec_state (fst (fst (hangup_scenario
     (((econn0 ''u'' ''c'' ''s'')\<lparr>ec_state := ECONN_ANSWERED, ec_sessid_remote := ''t''\<rparr>, []),
      ((econn0 ''v'' ''d'' ''t'')\<lparr>ec_state := ECONN_ANSWERED, ec_sessid_remote := ''s''\<rparr>, [])))))
   = ECONN_TERMINATING"
  using econn_hangup_ends_both [of
      "((econn0 ''u'' ''c'' ''s'')\<lparr>ec_state := ECONN_ANSWERED, ec_sessid_remote := ''t''\<rparr>, [])"
      "((econn0 ''v'' ''d'' ''t'')\<lparr>ec_state := ECONN_ANSWERED, ec_sessid_remote := ''s''\<rparr>, [])"]
  by (auto simp: econn0_def)

section \<open>Defects\<close>

text \<open>
  C38. A session update has no state check: a request made after the connection has sent its
  HANGUP leads to UPDATE SENT, where neither the peer's HANGUP or CANCEL nor another end request
  has any effect; only the set-up timer ends the call.
\<close>

theorem econn_update_req_revives:
  assumes "ec_state c = ECONN_HANGUP_SENT" and "timeout_setup (ec_conf c) \<noteq> 0"
    and "econn_step (log_h (\<lambda>_. 0)) (Ev_update_req sdp p) (c, w) = s"
  shows "ec_state (fst s) = ECONN_UPDATE_SENT \<and>
    econn_step (log_h pol) Ev_end s = s \<and>
    (msg_type m \<in> {ECONN_HANGUP, ECONN_CANCEL} \<longrightarrow>
       econn_step (log_h pol) (Ev_recv us cl m) s = s)"
  using assms
  by (auto simp: econn_update_req_def econn_send_setup_def econn_end_def econn_recv_message_def
      recv_hangup_def recv_cancel_def)

theorem econn_update_req_revives_witness:
  "ec_state (fst (econn_step (log_h (\<lambda>_. 0)) (Ev_update_req None None)
     ((econn0 ''u'' ''c'' ''s'')\<lparr>ec_state := ECONN_HANGUP_SENT\<rparr>, []))) = ECONN_UPDATE_SENT"
  using econn_update_req_revives [of "(econn0 ''u'' ''c'' ''s'')\<lparr>ec_state := ECONN_HANGUP_SENT\<rparr>"
      None None "[]"]
  by (simp add: econn0_def default_conf_def del: econn_step.simps)

text \<open>
  C39. The buffer for the remote client id holds 31 characters: after a call from a client with a
  longer id, every later SETUP and CANCEL of that very client is taken for a third party's and
  ignored, so the caller cannot cancel the call.
\<close>

theorem econn_long_clientid_ignored:
  assumes "ec_state c = ECONN_IDLE" and "ec_clientid_remote c = []" and "32 \<le> length cl"
    and "msg_type m1 = ECONN_SETUP" and "\<not> msg_resp m1"
    and "econn_step (log_h pol) (Ev_recv us cl m1) (c, w) = s"
    and "msg_type m2 \<in> {ECONN_SETUP, ECONN_CANCEL}"
  shows "ec_state (fst s) = ECONN_PENDING_INCOMING \<and>
    econn_step (log_h pol) (Ev_recv us cl m2) s = s"
proof -
  obtain c' w' where s: "s = (c', w')" by (cases s)
  have c': "ec_state c' = ECONN_PENDING_INCOMING" "ec_clientid_remote c' = take 31 cl"
    using assms(1,2,4,5,6) s
    by (auto simp: econn_recv_message_def recv_setup_def handle_setup_request_def
        econn_message_isrequest_def Let_def)
  have "length (map tolower cl) \<noteq> length (map tolower (take 31 cl))" "cl \<noteq> []"
    using assms(3) by auto
  then have "map tolower cl \<noteq> map tolower (take 31 cl)" "cl \<noteq> []" by metis+
  then have "foreign_msg c' cl m2"
    using c' assms(7) by (auto simp: foreign_msg_def)
  then show ?thesis
    using c' assms(7) s
    by (auto simp: foreign_msg_def econn_recv_message_def recv_setup_def recv_cancel_def
        str_casecmp_0_iff)
qed

theorem econn_long_clientid_ignored_witness:
  "ec_state (fst (econn_step (log_h (\<lambda>_. 0))
     (Ev_recv ''v'' (replicate 40 CHR ''a'') (econn_message_init ECONN_SETUP (Some ''t'')))
     (econn0 ''u'' ''c'' ''s'', []))) = ECONN_PENDING_INCOMING"
  using econn_long_clientid_ignored [OF _ _ _ _ _ refl, of "econn0 ''u'' ''c'' ''s''"
      "replicate 40 CHR ''a''" "econn_message_init ECONN_SETUP (Some ''t'')"
      "econn_message_init ECONN_CANCEL (Some ''t'')"
      "\<lambda>_. 0" "''v''" "[]"]
  by (simp add: econn0_def econn_message_init_def econn_message_zero_def del: econn_step.simps)

end
