(* ===== verification/Conf_Pos.thy ===== *)
theory Conf_Pos
  imports Hash
begin

text \<open>
  Positions of conference participants, \<^verbatim>\<open>src/conf_pos/conf_pos.c\<close>, with the list sort of
  \<^verbatim>\<open>contrib/re/src/list/list.c\<close> it uses.

  \<^verbatim>\<open>list_sort\<close> makes passes over the list, each moving an element to the right past every successor
  the handler puts before it, until a pass moves nothing. Nothing bounds the number of passes for
  an arbitrary handler, so the model is a partial function; for a total preorder it returns.
\<close>

section \<open>Sorting a list\<close>

fun list_sort_pass :: "('a \<Rightarrow> 'a \<Rightarrow> bool) \<Rightarrow> 'a list \<Rightarrow> bool \<times> 'a list" where
  "list_sort_pass sh (x # y # ys) =
     (if sh x y
      then (let (sort, zs) = list_sort_pass sh (y # ys) in (sort, x # zs))
      else (let (sort, zs) = list_sort_pass sh (x # ys) in (True, y # zs)))"
| "list_sort_pass sh xs = (False, xs)"

partial_function (option) list_sort :: "('a \<Rightarrow> 'a \<Rightarrow> bool) \<Rightarrow> 'a list \<Rightarrow> 'a list option" where
  "list_sort sh xs =
     (let (sort, ys) = list_sort_pass sh xs in if sort then list_sort sh ys else Some ys)"

section \<open>Participants\<close>

record 'a conf_part =
  cp_uid :: string
  cp_data :: 'a
  cp_pos :: u32

definition conf_pos_calc :: "string \<Rightarrow> u32" where
  "conf_pos_calc uid = hash_joaat_str_ci uid"

definition conf_part_add :: "'a conf_part list \<Rightarrow> cptr \<Rightarrow> 'a \<Rightarrow> int \<times> 'a conf_part list" where
  "conf_part_add partl userid data =
     (case userid of
        None \<Rightarrow> (EINVAL, partl)
      | Some uid \<Rightarrow>
          (0, partl @ [\<lparr>cp_uid = uid, cp_data = data, cp_pos = conf_pos_calc uid\<rparr>]))"

definition conf_part_find :: "'a conf_part list \<Rightarrow> cptr \<Rightarrow> 'a conf_part option" where
  "conf_part_find partl userid =
     (case userid of
        None \<Rightarrow> None
      | Some _ \<Rightarrow> list_apply (\<lambda>part. str_casecmp (Some (cp_uid part)) userid = 0) partl)"

definition sort_handler :: "'a conf_part \<Rightarrow> 'a conf_part \<Rightarrow> bool" where
  "sort_handler cp1 cp2 \<longleftrightarrow> cp_pos cp1 \<ge> cp_pos cp2"

definition conf_pos_sort :: "'a conf_part list \<Rightarrow> 'a conf_part list option" where
  "conf_pos_sort partl =
     (let n = length partl
      in if n = 0 then Some partl
         else if n = 1 then Some (map (\<lambda>cp. cp\<lparr>cp_pos := 0\<rparr>) partl)
         else list_sort sort_handler (map (\<lambda>cp. cp\<lparr>cp_pos := conf_pos_calc (cp_uid cp)\<rparr>) partl))"

section \<open>The sort returns, and what it returns\<close>

text \<open>The pairs of elements in the wrong order: each move removes one.\<close>

fun inversions :: "('a \<Rightarrow> 'a \<Rightarrow> bool) \<Rightarrow> 'a list \<Rightarrow> nat" where
  "inversions sh [] = 0"
| "inversions sh (x # xs) = length (filter (\<lambda>y. \<not> sh x y) xs) + inversions sh xs"

lemma list_sort_pass_mset [simp]: "mset (snd (list_sort_pass sh xs)) = mset xs"
  by (induction sh xs rule: list_sort_pass.induct) (auto split: prod.split)

lemma length_filter_mset: "mset xs = mset ys \<Longrightarrow> length (filter P xs) = length (filter P ys)"
  by (metis mset_filter size_mset)

lemma length_filter_pass:
  "length (filter P (snd (list_sort_pass sh xs))) = length (filter P xs)"
  by (rule length_filter_mset) simp

lemma pass_induct [case_names step single empty]:
  assumes "\<And>x y ys. P (y # ys) \<Longrightarrow> P (x # ys) \<Longrightarrow> P (x # y # ys)" and "\<And>x. P [x]" and "P []"
  shows "P xs"
proof (induction xs rule: length_induct)
  case (1 xs)
  then show ?case using assms by (cases xs; cases "tl xs") auto
qed

text \<open>What a sort handler must be for the sort to return: a total preorder.\<close>

locale sort_order =
  fixes sh :: "'a \<Rightarrow> 'a \<Rightarrow> bool"
  assumes total: "sh x y \<or> sh y x"
    and trans: "sh x y \<Longrightarrow> sh y z \<Longrightarrow> sh x z"
begin

lemma pass_inversions:
  "inversions sh (snd (list_sort_pass sh xs)) + (if fst (list_sort_pass sh xs) then 1 else 0)
     \<le> inversions sh xs"
proof (induction xs rule: pass_induct)
  case (step x y ys)
  show ?case
  proof (cases "sh x y")
    case True
    then show ?thesis
      using step(1) length_filter_pass [of "\<lambda>z. \<not> sh x z" sh "y # ys"]
      by (auto split: prod.splits if_splits)
  next
    case False
    then have "sh y x" using total by blast
    with False show ?thesis
      using step(2) length_filter_pass [of "\<lambda>z. \<not> sh y z" sh "x # ys"]
      by (auto split: prod.splits if_splits)
  qed
qed auto

lemma pass_sorted: "\<not> fst (list_sort_pass sh xs) \<Longrightarrow> sorted_wrt sh (snd (list_sort_pass sh xs))"
proof (induction xs rule: pass_induct)
  case (step x y ys)
  then have xy: "sh x y" by (auto split: if_splits prod.splits)
  then have "sorted_wrt sh (snd (list_sort_pass sh (y # ys)))"
    and "\<not> fst (list_sort_pass sh (y # ys))"
    using step by (auto split: if_splits prod.splits)
  moreover from this(2) have "hd (snd (list_sort_pass sh (y # ys))) = y"
    by (cases ys) (auto split: if_splits prod.splits)
  moreover have "mset (snd (list_sort_pass sh (y # ys))) = mset (y # ys)" by simp
  ultimately show ?case
    using xy trans by (cases "snd (list_sort_pass sh (y # ys))") (auto split: prod.splits)
qed auto

lemma pass_stable:
  "filter (\<lambda>z. sh k z \<and> sh z k) (snd (list_sort_pass sh xs)) = filter (\<lambda>z. sh k z \<and> sh z k) xs"
proof (induction xs rule: pass_induct)
  case (step x y ys)
  show ?case
  proof (cases "sh x y")
    case True
    then show ?thesis using step(1) by (auto split: prod.splits)
  next
    case False
    then have "\<not> (sh x k \<and> sh k y)" using trans by blast
    with False show ?thesis using step(2) by (auto split: prod.splits)
  qed
qed auto

lemma list_sort_ok:
  "\<exists>ys. list_sort sh xs = Some ys \<and> mset ys = mset xs \<and> sorted_wrt sh ys \<and>
     (\<forall>k. filter (\<lambda>z. sh k z \<and> sh z k) ys = filter (\<lambda>z. sh k z \<and> sh z k) xs)"
proof (induction "inversions sh xs" arbitrary: xs rule: less_induct)
  case less
  obtain b zs where p: "list_sort_pass sh xs = (b, zs)" by (cases "list_sort_pass sh xs")
  have zs: "mset zs = mset xs"
    "\<forall>k. filter (\<lambda>z. sh k z \<and> sh z k) zs = filter (\<lambda>z. sh k z \<and> sh z k) xs"
    using list_sort_pass_mset [of sh xs] pass_stable [of _ xs] p by simp_all
  show ?case
  proof (cases b)
    case True
    then have "inversions sh zs < inversions sh xs" using pass_inversions [of xs] p by simp
    from less [OF this] zs show ?thesis using p True by (subst list_sort.simps) simp
  next
    case False
    then show ?thesis using p zs pass_sorted [of xs] by (subst list_sort.simps) simp
  qed
qed

end

interpretation cp_sort: sort_order sort_handler
  by unfold_locales (auto simp: sort_handler_def)

definition placed :: "'a conf_part list \<Rightarrow> 'a conf_part list" where
  "placed partl = map (\<lambda>cp. cp\<lparr>cp_pos := conf_pos_calc (cp_uid cp)\<rparr>) partl"

lemma conf_pos_sort_key:
  assumes "2 \<le> length partl"
  shows "conf_pos_sort partl = Some (sort_key (\<lambda>cp. - uint (cp_pos cp)) (placed partl))"
proof -
  obtain ys where ys: "list_sort sort_handler (placed partl) = Some ys"
    "mset ys = mset (placed partl)" "sorted_wrt sort_handler ys"
    "\<forall>k. filter (\<lambda>z. sort_handler k z \<and> sort_handler z k) ys =
         filter (\<lambda>z. sort_handler k z \<and> sort_handler z k) (placed partl)"
    using cp_sort.list_sort_ok by blast
  have eq: "sort_handler k z \<and> sort_handler z k \<longleftrightarrow> - uint (cp_pos k) = - uint (cp_pos z)"
    for k z :: "'a conf_part" by (auto simp: sort_handler_def word_le_def)
  have "sorted (map (\<lambda>cp. - uint (cp_pos cp)) ys)"
    using ys(3) unfolding sorted_map
    by (rule sorted_wrt_mono_rel [rotated]) (simp add: sort_handler_def word_le_def)
  then have "sort_key (\<lambda>cp. - uint (cp_pos cp)) (placed partl) = ys"
    using ys(2,4) unfolding eq by (intro properties_for_sort_key) auto
  then show ?thesis
    using ys(1) assms by (auto simp: conf_pos_sort_def placed_def Let_def)
qed

definition uids_sorted :: "'a conf_part list \<Rightarrow> string list" where
  "uids_sorted p = map cp_uid (sort_key (\<lambda>cp. - uint (cp_pos cp)) (placed p))"

lemma mset_uids_sorted: "mset (uids_sorted p) = mset (map cp_uid p)"
  by (simp add: uids_sorted_def placed_def image_mset.compositionality comp_def)

lemma sorted_uids_sorted: "sorted (map (\<lambda>u. - uint (conf_pos_calc u)) (uids_sorted p))"
proof -
  let ?s = "sort_key (\<lambda>cp. - uint (cp_pos cp)) (placed p)"
  have "map (\<lambda>u. - uint (conf_pos_calc u)) (uids_sorted p) = map (\<lambda>cp. - uint (cp_pos cp)) ?s"
    unfolding uids_sorted_def by (auto simp: placed_def)
  then show ?thesis by (simp add: sorted_sort_key)
qed

lemma uids_sorted_unique:
  assumes "mset (map cp_uid p) = mset (map cp_uid q)"
    and "distinct (map (\<lambda>u. - uint (conf_pos_calc u)) (map cp_uid p))"
    and "distinct (map (\<lambda>u. - uint (conf_pos_calc u)) (map cp_uid q))"
  shows "uids_sorted p = uids_sorted q"
proof (rule map_sorted_distinct_set_unique [where f = "\<lambda>u. - uint (conf_pos_calc u)"])
  let ?f = "\<lambda>u. - uint (conf_pos_calc u)"
  show "distinct (map ?f (uids_sorted p))"
    using assms(2) by (metis mset_eq_imp_distinct_iff mset_map mset_uids_sorted)
  then show "inj_on ?f (set (uids_sorted p) \<union> set (uids_sorted q))"
    by (metis assms(1) distinct_map mset_uids_sorted set_mset_mset sup.idem)
  show "distinct (map ?f (uids_sorted q))"
    using assms(3) by (metis mset_eq_imp_distinct_iff mset_map mset_uids_sorted)
  show "set (uids_sorted p) = set (uids_sorted q)"
    by (metis assms(1) mset_uids_sorted set_mset_mset)
qed (rule sorted_uids_sorted)+

section \<open>Properties\<close>

text \<open>
  C28. Sorting the participants of a conference returns, and the result is the stable sort by
  decreasing position: participants keep their data, and two of them on the same position keep
  their order.
\<close>

theorem conf_pos_sort_stable:
  assumes "2 \<le> length partl"
  shows "conf_pos_sort partl =
    Some (sort_key (\<lambda>cp. - uint (cp_pos cp))
      (map (\<lambda>cp. cp\<lparr>cp_pos := conf_pos_calc (cp_uid cp)\<rparr>) partl))"
  using conf_pos_sort_key [OF assms] by (simp add: placed_def)

theorem conf_pos_sort_stable_witness:
  "\<exists>ys. conf_pos_sort [\<lparr>cp_uid = ''a'', cp_data = (0::nat), cp_pos = 0\<rparr>,
                      \<lparr>cp_uid = ''b'', cp_data = 1, cp_pos = 0\<rparr>] = Some ys \<and> length ys = 2"
  by (subst conf_pos_sort_stable) simp_all

text \<open>
  Positions do not depend on the order of joining: two lists with the same participants,
  whose user ids hash to different positions, are sorted into the same sequence of users.
\<close>

theorem conf_pos_sort_deterministic:
  assumes "2 \<le> length p" and "mset (map cp_uid p) = mset (map cp_uid q)"
    and "distinct (map (\<lambda>cp. conf_pos_calc (cp_uid cp)) p)"
  shows "\<exists>p' q'. conf_pos_sort p = Some p' \<and> conf_pos_sort q = Some q' \<and>
    map cp_uid p' = map cp_uid q'"
proof -
  have len: "2 \<le> length q" using assms(1) arg_cong [OF assms(2), of size] by simp
  have p: "distinct (map (\<lambda>u. - uint (conf_pos_calc u)) (map cp_uid p))"
    using assms(3) by (simp add: distinct_map inj_on_def flip: word_uint_eq_iff)
  then have q: "distinct (map (\<lambda>u. - uint (conf_pos_calc u)) (map cp_uid q))"
    by (metis assms(2) mset_eq_imp_distinct_iff mset_map)
  have "uids_sorted p = uids_sorted q"
    using uids_sorted_unique [of p q] p q assms(2) by simp
  then show ?thesis
    using conf_pos_sort_key [OF assms(1)] conf_pos_sort_key [OF len] by (simp add: uids_sorted_def)
qed

theorem conf_pos_sort_deterministic_witness:
  "\<exists>p' q'. conf_pos_sort [\<lparr>cp_uid = ''a'', cp_data = (0::nat), cp_pos = 0\<rparr>,
                         \<lparr>cp_uid = ''b'', cp_data = 1, cp_pos = 0\<rparr>] = Some p' \<and>
    conf_pos_sort [\<lparr>cp_uid = ''b'', cp_data = (1::nat), cp_pos = 0\<rparr>,
                   \<lparr>cp_uid = ''a'', cp_data = 0, cp_pos = 0\<rparr>] = Some q' \<and>
    map cp_uid p' = map cp_uid q'"
proof (rule conf_pos_sort_deterministic)
  have "conf_pos_calc ''a'' \<noteq> conf_pos_calc ''b''" by code_simp
  then show "distinct (map (\<lambda>cp. conf_pos_calc (cp_uid cp))
      [\<lparr>cp_uid = ''a'', cp_data = (0::nat), cp_pos = 0\<rparr>, \<lparr>cp_uid = ''b'', cp_data = 1, cp_pos = 0\<rparr>])"
    by simp
qed simp_all

end
