(* ===== verification/Json.thy ===== *)
theory Json
  imports Odict
begin

text \<open>
  The JSON text codec of \<^verbatim>\<open>contrib/re/src/json\<close> with the string escapes of
  \<^verbatim>\<open>contrib/re/src/fmt/unicode.c\<close>.

  \<^verbatim>\<open>_json_decode\<close> is a loop over the characters with local flags that calls itself at an opening
  bracket. The model makes its call stack explicit, a list of frames, so that each character is
  one step. A \<^verbatim>\<open>char *\<close> into the buffer is the suffix of the buffer it points at. The handlers are
  the ones of \<^verbatim>\<open>json_decode_odict\<close>, the only user: the dictionary under construction is part of
  the frame, and a nested one is added to its parent when it is complete instead of when it is
  begun, which no one can see. Arithmetic on \<^verbatim>\<open>long double\<close> and the printing of a \<^verbatim>\<open>double\<close> are
  the hardware's, a record of functions.
\<close>

section \<open>Strings\<close>

text \<open>A buffer read as a C string ends at the first zero byte.\<close>

definition cstr :: "string \<Rightarrow> string" where
  "cstr s = takeWhile (\<lambda>c. c \<noteq> CHR 0x00) s"

definition hex_char :: "nat \<Rightarrow> char" where
  "hex_char n = (if n < 10 then char_of (48 + n) else char_of (55 + n))"

definition utf8_encode_char :: "char \<Rightarrow> string" where
  "utf8_encode_char c =
     (if c = CHR 0x22 \<or> c = CHR 0x5C \<or> c = CHR 0x2F then [CHR 0x5C, c]
      else if c = CHR 0x08 then [CHR 0x5C, CHR ''b'']
      else if c = CHR 0x0C then [CHR 0x5C, CHR ''f'']
      else if c = CHR 0x0A then [CHR 0x5C, CHR ''n'']
      else if c = CHR 0x0D then [CHR 0x5C, CHR ''r'']
      else if c = CHR 0x09 then [CHR 0x5C, CHR ''t'']
      else if (of_char c :: nat) < 32
      then [CHR 0x5C, CHR ''u'', CHR ''0'', CHR ''0'',
            hex_char (of_char c div 16), hex_char (of_char c mod 16)]
      else [c])"

definition utf8_encode :: "string \<Rightarrow> string" where
  "utf8_encode str = concat (map utf8_encode_char str)"

definition isxdigit :: "char \<Rightarrow> bool" where
  "isxdigit c \<longleftrightarrow>
     (let n = (of_char c :: nat)
      in 48 \<le> n \<and> n \<le> 57 \<or> 65 \<le> n \<and> n \<le> 70 \<or> 97 \<le> n \<and> n \<le> 102)"

definition ch_hex :: "char \<Rightarrow> nat" where
  "ch_hex c =
     (let n = of_char c
      in if 48 \<le> n \<and> n \<le> 57 then n - 48
         else if 65 \<le> n \<and> n \<le> 70 then n - 65 + 10
         else if 97 \<le> n \<and> n \<le> 102 then n - 97 + 10
         else 0)"

definition emit :: "string \<Rightarrow> int + string \<Rightarrow> int + string" where
  "emit out r = (case r of Inl err \<Rightarrow> Inl err | Inr s \<Rightarrow> Inr (out @ s))"

fun utf8_decode :: "string \<Rightarrow> int + string" where
  "utf8_decode [] = Inr []"
| "utf8_decode (c # cs) =
     (if c \<noteq> CHR 0x5C then emit [c] (utf8_decode cs)
      else case cs of
             [] \<Rightarrow> Inl EBADMSG
           | ch # cs' \<Rightarrow>
               if ch = CHR ''b'' then emit [CHR 0x08] (utf8_decode cs')
               else if ch = CHR ''f'' then emit [CHR 0x0C] (utf8_decode cs')
               else if ch = CHR ''n'' then emit [CHR 0x0A] (utf8_decode cs')
               else if ch = CHR ''r'' then emit [CHR 0x0D] (utf8_decode cs')
               else if ch = CHR ''t'' then emit [CHR 0x09] (utf8_decode cs')
               else if ch = CHR ''u'' then
                 (case cs' of
                    x1 # x2 # x3 # x4 # rest \<Rightarrow>
                      if isxdigit x1 \<and> isxdigit x2 \<and> isxdigit x3 \<and> isxdigit x4
                      then (let u = 4096 * ch_hex x1 + 256 * ch_hex x2 + 16 * ch_hex x3 + ch_hex x4
                            in emit ((if u > 255 then [char_of (u div 256)] else [])
                                     @ [char_of (u mod 256)]) (utf8_decode rest))
                      else Inl EBADMSG
                  | _ \<Rightarrow> Inl EBADMSG)
               else emit [ch] (utf8_decode cs'))"

text \<open>\<^verbatim>\<open>local_itoa\<close> in base 10, and \<^verbatim>\<open>%lld\<close>.\<close>

fun local_itoa :: "nat \<Rightarrow> string" where
  "local_itoa n = (if n < 10 then [char_of (48 + n)] else local_itoa (n div 10) @ [char_of (48 + n mod 10)])"

declare local_itoa.simps [simp del]

definition print_lld :: "u64 \<Rightarrow> string" where
  "print_lld x = (if sint x < 0 then CHR ''-'' # local_itoa (unat (- x)) else local_itoa (unat x))"

section \<open>Encoding\<close>

record 'f ld_ops =
  ld_of_int :: "int \<Rightarrow> 'f"
  ld_add :: "'f \<Rightarrow> 'f \<Rightarrow> 'f"
  ld_mul :: "'f \<Rightarrow> 'f \<Rightarrow> 'f"
  ld_div :: "'f \<Rightarrow> 'f \<Rightarrow> 'f"
  ld_neg :: "'f \<Rightarrow> 'f"
  ld_to_i64 :: "'f \<Rightarrow> u64"
  ld_to_double :: "'f \<Rightarrow> u64"
  print_f :: "u64 \<Rightarrow> string"

fun commas :: "string list \<Rightarrow> string" where
  "commas [] = []"
| "commas [x] = x"
| "commas (x # xs) = x @ '','' @ commas xs"

definition encode_key :: "string \<Rightarrow> string" where
  "encode_key k = CHR 0x22 # utf8_encode k @ [CHR 0x22, CHR '':'']"

fun encode_entry :: "'f ld_ops \<Rightarrow> odict_val \<Rightarrow> string" where
  "encode_entry ld (ODICT_OBJECT od) =
     ''{'' @ commas (map (\<lambda>(k, v). encode_key k @ encode_entry ld v) od) @ ''}''"
| "encode_entry ld (ODICT_ARRAY od) = ''['' @ commas (map (\<lambda>(k, v). encode_entry ld v) od) @ '']''"
| "encode_entry ld (ODICT_INT i) = print_lld i"
| "encode_entry ld (ODICT_DOUBLE d) = print_f ld d"
| "encode_entry ld (ODICT_STRING s) = CHR 0x22 # utf8_encode s @ [CHR 0x22]"
| "encode_entry ld (ODICT_BOOL b) = (if b then ''true'' else ''false'')"
| "encode_entry ld ODICT_NULL = ''null''"

definition json_encode_odict :: "'f ld_ops \<Rightarrow> odict \<Rightarrow> string" where
  "json_encode_odict ld od =
     ''{'' @ commas (map (\<lambda>(k, v). encode_key k @ encode_entry ld v) od) @ ''}''"

section \<open>Decoding values\<close>

definition is_string :: "string \<Rightarrow> string option" where
  "is_string pl =
     (if length pl < 2 then None
      else if hd pl \<noteq> CHR 0x22 \<or> last pl \<noteq> CHR 0x22 then None
      else Some (butlast (tl pl)))"

record 'f num_st =
  num_neg :: bool
  num_pos :: bool
  num_frac :: bool
  num_exp :: bool
  num_v :: 'f
  num_mul :: 'f
  num_e :: u64

text \<open>One character of \<^verbatim>\<open>is_number\<close>, which reads from the end.\<close>

definition is_number_char :: "'f ld_ops \<Rightarrow> char \<Rightarrow> 'f num_st \<Rightarrow> 'f num_st option" where
  "is_number_char ld ch s =
     (if ch = CHR ''e'' \<or> ch = CHR ''E'' then
        (if num_exp s \<or> num_frac s then None
         else Some (s\<lparr>num_exp := True,
                      num_e := ld_to_i64 ld (if num_neg s then ld_neg ld (num_v s) else num_v s),
                      num_v := ld_of_int ld 0, num_mul := ld_of_int ld 1,
                      num_neg := False, num_pos := False\<rparr>))
      else if num_pos s \<or> num_neg s then None
      else if ch = CHR ''.'' then
        (if num_frac s then None
         else Some (s\<lparr>num_frac := True, num_v := ld_div ld (num_v s) (num_mul s),
                      num_mul := ld_of_int ld 1\<rparr>))
      else if 48 \<le> (of_char ch :: nat) \<and> (of_char ch :: nat) \<le> 57 then
        Some (s\<lparr>num_v := ld_add ld (num_v s) (ld_mul ld (num_mul s) (ld_of_int ld (of_char ch - 48))),
                num_mul := ld_mul ld (num_mul s) (ld_of_int ld 10)\<rparr>)
      else if ch = CHR ''-'' then Some (s\<lparr>num_neg := True\<rparr>)
      else if ch = CHR ''+'' then Some (s\<lparr>num_pos := True\<rparr>)
      else None)"

fun is_number_loop :: "'f ld_ops \<Rightarrow> string \<Rightarrow> 'f num_st \<Rightarrow> 'f num_st option" where
  "is_number_loop ld [] s = Some s"
| "is_number_loop ld (ch # rs) s =
     (case is_number_char ld ch s of None \<Rightarrow> None | Some s' \<Rightarrow> is_number_loop ld rs s')"

definition mypower10 :: "u64 \<Rightarrow> u64" where
  "mypower10 e = 10 ^ unat e"

text \<open>The value and whether it is a fraction.\<close>

definition is_number :: "'f ld_ops \<Rightarrow> string \<Rightarrow> ('f \<times> bool) option" where
  "is_number ld pl =
     (if pl = [] then None
      else case is_number_loop ld (rev pl)
                  \<lparr>num_neg = False, num_pos = False, num_frac = False, num_exp = False,
                   num_v = ld_of_int ld 0, num_mul = ld_of_int ld 1, num_e = 0\<rparr> of
             None \<Rightarrow> None
           | Some s \<Rightarrow>
               (let v = (if num_exp s
                         then (if sint (num_e s) < 0
                               then ld_div ld (num_v s) (ld_of_int ld (uint (mypower10 (- num_e s))))
                               else ld_mul ld (num_v s) (ld_of_int ld (uint (mypower10 (num_e s)))))
                         else num_v s);
                    v = (if num_neg s then ld_neg ld v else v)
                in Some (v, num_frac s \<or> num_exp s \<and> sint (num_e s) < 0)))"

datatype json_value =
    JSON_STRING string
  | JSON_INT u64
  | JSON_DOUBLE u64
  | JSON_BOOL bool
  | JSON_NULL

definition decode_name :: "string option \<Rightarrow> int + string" where
  "decode_name pl =
     (case pl of
        None \<Rightarrow> Inl EBADMSG
      | Some t \<Rightarrow>
          (case is_string t of
             None \<Rightarrow> Inl EBADMSG
           | Some s \<Rightarrow> map_sum id cstr (utf8_decode s)))"

definition decode_value :: "'f ld_ops \<Rightarrow> string \<Rightarrow> int + json_value" where
  "decode_value ld t =
     (case is_string t of
        Some s \<Rightarrow> map_sum id (JSON_STRING \<circ> cstr) (utf8_decode s)
      | None \<Rightarrow>
          (case is_number ld t of
             Some (v, isfloat) \<Rightarrow>
               Inr (if isfloat then JSON_DOUBLE (ld_to_double ld v) else JSON_INT (ld_to_i64 ld v))
           | None \<Rightarrow>
               if map tolower t = ''false'' then Inr (JSON_BOOL False)
               else if map tolower t = ''true'' then Inr (JSON_BOOL True)
               else if map tolower t = ''null'' then Inr JSON_NULL
               else Inl EBADMSG))"

definition json_entry_add :: "odict \<Rightarrow> string \<Rightarrow> json_value \<Rightarrow> odict" where
  "json_entry_add od name val =
     odict_entry_add od name
       (case val of
          JSON_STRING s \<Rightarrow> ODICT_STRING s
        | JSON_INT i \<Rightarrow> ODICT_INT i
        | JSON_DOUBLE d \<Rightarrow> ODICT_DOUBLE d
        | JSON_BOOL b \<Rightarrow> ODICT_BOOL b
        | JSON_NULL \<Rightarrow> ODICT_NULL)"

section \<open>Decoding documents\<close>

text \<open>
  A frame is one activation of \<^verbatim>\<open>_json_decode\<close>: its local variables, the dictionary its handlers
  write to, and the name and type under which its parent holds that dictionary. \<open>jf_name\<close> is the
  text of the name; \<open>jf_val\<close> is the pointer \<^verbatim>\<open>val.p\<close>.
\<close>

record jframe =
  jf_esc :: bool
  jf_inquot :: bool
  jf_inobj :: bool
  jf_inarray :: bool
  jf_name :: "string option"
  jf_val :: "string option"
  jf_ws :: nat
  jf_idx :: u32
  jf_od :: odict
  jf_key :: string
  jf_isobj :: bool

definition jframe_new :: "string \<Rightarrow> bool \<Rightarrow> jframe" where
  "jframe_new key isobj =
     \<lparr>jf_esc = False, jf_inquot = False, jf_inobj = isobj, jf_inarray = \<not> isobj,
      jf_name = None, jf_val = None, jf_ws = 0, jf_idx = 0, jf_od = [],
      jf_key = key, jf_isobj = isobj\<rparr>"

datatype json_out = J_err int | J_more "jframe list" | J_done odict

text \<open>\<^verbatim>\<open>chkval\<close>: the text from the start of the value up to here without the white space seen since.\<close>

definition chkval :: "string option \<Rightarrow> string \<Rightarrow> nat \<Rightarrow> string option" where
  "chkval val str ws =
     (case val of
        None \<Rightarrow> None
      | Some p \<Rightarrow>
          if length p < length str + ws then None
          else Some (take (length p - length str - ws) p))"

definition object_entry :: "'f ld_ops \<Rightarrow> string option \<Rightarrow> string \<Rightarrow> odict \<Rightarrow> int + odict" where
  "object_entry ld pl_name pl_val od =
     (case decode_name pl_name of
        Inl err \<Rightarrow> Inl err
      | Inr name \<Rightarrow>
          (case decode_value ld pl_val of
             Inl err \<Rightarrow> Inl err
           | Inr val \<Rightarrow> Inr (json_entry_add od name val)))"

definition array_entry :: "'f ld_ops \<Rightarrow> u32 \<Rightarrow> string \<Rightarrow> odict \<Rightarrow> int + odict" where
  "array_entry ld idx pl_val od =
     (case decode_value ld pl_val of
        Inl err \<Rightarrow> Inl err
      | Inr val \<Rightarrow> Inr (json_entry_add od (local_itoa (unat idx)) val))"

text \<open>\<^verbatim>\<open>object_start\<close> and \<^verbatim>\<open>array_start\<close> with \<^verbatim>\<open>container_add\<close>: the key of the nested dictionary.\<close>

definition container_key :: "string option \<Rightarrow> u32 \<Rightarrow> int + string" where
  "container_key pl_name idx =
     (case pl_name of None \<Rightarrow> Inr (local_itoa (unat idx)) | Some t \<Rightarrow> decode_name (Some t))"

text \<open>An activation returns 0; its caller goes on with the next character.\<close>

fun json_return :: "jframe list \<Rightarrow> json_out" where
  "json_return [] = J_err EBADMSG"
| "json_return [f] = J_done (jf_od f)"
| "json_return (f # g # fs) =
     J_more (g\<lparr>jf_od := odict_entry_add (jf_od g) (jf_key f)
                         (if jf_isobj f then ODICT_OBJECT (jf_od f) else ODICT_ARRAY (jf_od f)),
               jf_idx := (if jf_inarray g then jf_idx g + 1 else jf_idx g)\<rparr> # fs)"

definition json_open :: "nat \<Rightarrow> bool \<Rightarrow> jframe \<Rightarrow> jframe list \<Rightarrow> json_out" where
  "json_open maxdepth isobj f fs =
     (if jf_inobj f \<or> jf_inarray f then
        (if length fs \<ge> maxdepth then J_err EOVERFLOW
         else if jf_inobj f \<and> jf_name f = None then J_err EBADMSG
         else case container_key (jf_name f) (jf_idx f) of
                Inl err \<Rightarrow> J_err err
              | Inr key \<Rightarrow> J_more (jframe_new key isobj # f\<lparr>jf_name := None\<rparr> # fs))
      else if isobj then J_more (f\<lparr>jf_inobj := True\<rparr> # fs)
      else J_more (f\<lparr>jf_inarray := True, jf_idx := 0\<rparr> # fs))"

definition json_comma :: "'f ld_ops \<Rightarrow> string \<Rightarrow> jframe \<Rightarrow> jframe list \<Rightarrow> json_out" where
  "json_comma ld str f fs =
     (case chkval (jf_val f) str (jf_ws f) of
        None \<Rightarrow> J_more (f # fs)
      | Some val \<Rightarrow>
          let next = (\<lambda>f r. case r of
                 Inl err \<Rightarrow> J_err err
               | Inr od \<Rightarrow> J_more (f\<lparr>jf_od := od, jf_name := None, jf_val := None\<rparr> # fs))
          in if jf_inobj f then
               (if jf_name f = None then J_err EBADMSG
                else next f (object_entry ld (jf_name f) val (jf_od f)))
             else if jf_inarray f then
               next (f\<lparr>jf_idx := jf_idx f + 1\<rparr>) (array_entry ld (jf_idx f) val (jf_od f))
             else J_err EBADMSG)"

definition json_close_obj :: "'f ld_ops \<Rightarrow> string \<Rightarrow> jframe \<Rightarrow> jframe list \<Rightarrow> json_out" where
  "json_close_obj ld str f fs =
     (if \<not> jf_inobj f then J_err EBADMSG
      else case chkval (jf_val f) str (jf_ws f) of
             None \<Rightarrow> json_return (f # fs)
           | Some val \<Rightarrow>
               if jf_name f = None then J_err EBADMSG
               else case object_entry ld (jf_name f) val (jf_od f) of
                      Inl err \<Rightarrow> J_err err
                    | Inr od \<Rightarrow> json_return (f\<lparr>jf_od := od\<rparr> # fs))"

definition json_close_arr :: "'f ld_ops \<Rightarrow> string \<Rightarrow> jframe \<Rightarrow> jframe list \<Rightarrow> json_out" where
  "json_close_arr ld str f fs =
     (if \<not> jf_inarray f then J_err EBADMSG
      else case chkval (jf_val f) str (jf_ws f) of
             None \<Rightarrow> json_return (f # fs)
           | Some val \<Rightarrow>
               case array_entry ld (jf_idx f) val (jf_od f) of
                 Inl err \<Rightarrow> J_err err
               | Inr od \<Rightarrow> json_return (f\<lparr>jf_od := od\<rparr> # fs))"

text \<open>One iteration of the loop: \<open>str\<close> is \<^verbatim>\<open>*str\<close>, \<open>c\<close> its first character.\<close>

definition json_char :: "'f ld_ops \<Rightarrow> nat \<Rightarrow> char \<Rightarrow> string \<Rightarrow> jframe \<Rightarrow> jframe list \<Rightarrow> json_out" where
  "json_char ld maxdepth c str f fs =
     (if jf_inquot f then
        (if jf_esc f then J_more (f\<lparr>jf_esc := False\<rparr> # fs)
         else if c = CHR 0x22 then J_more (f\<lparr>jf_inquot := False\<rparr> # fs)
         else if c = CHR 0x5C then J_more (f\<lparr>jf_esc := True\<rparr> # fs)
         else J_more (f # fs))
      else if c = CHR '':'' then
        (if \<not> jf_inobj f \<or> jf_name f \<noteq> None then J_err EBADMSG
         else case chkval (jf_val f) str (jf_ws f) of
                None \<Rightarrow> J_err EBADMSG
              | Some val \<Rightarrow> J_more (f\<lparr>jf_name := Some val, jf_val := None\<rparr> # fs))
      else if c = CHR '','' then json_comma ld str f fs
      else if c = CHR 0x7B then json_open maxdepth True f fs
      else if c = CHR 0x5B then json_open maxdepth False f fs
      else if c = CHR 0x7D then json_close_obj ld str f fs
      else if c = CHR 0x5D then json_close_arr ld str f fs
      else if c = CHR '' '' \<or> c = CHR 0x09 \<or> c = CHR 0x0D \<or> c = CHR 0x0A then
        J_more (f\<lparr>jf_ws := jf_ws f + 1\<rparr> # fs)
      else if jf_val f \<noteq> None then J_more (f # fs)
      else J_more (f\<lparr>jf_inquot := (c = CHR 0x22), jf_val := Some str, jf_ws := 0\<rparr> # fs))"

fun json_loop :: "'f ld_ops \<Rightarrow> nat \<Rightarrow> string \<Rightarrow> jframe list \<Rightarrow> json_out" where
  "json_loop ld maxdepth str [] = J_err EBADMSG"
| "json_loop ld maxdepth [] (f # fs) =
     (if jf_inobj f \<or> jf_inarray f then J_err EBADMSG else J_done (jf_od f))"
| "json_loop ld maxdepth (c # cs) (f # fs) =
     (case json_char ld maxdepth c (c # cs) f fs of
        J_more fs' \<Rightarrow> json_loop ld maxdepth cs fs'
      | r \<Rightarrow> r)"

definition json_decode_odict :: "'f ld_ops \<Rightarrow> string \<Rightarrow> nat \<Rightarrow> int + odict" where
  "json_decode_odict ld str maxdepth =
     (case json_loop ld maxdepth str [(jframe_new [] True)\<lparr>jf_inobj := False\<rparr>] of
        J_done od \<Rightarrow> Inr od
      | J_err err \<Rightarrow> Inl err
      | J_more _ \<Rightarrow> Inl EBADMSG)"

end
