(* ===== verification/Jzon.thy ===== *)
theory Jzon
  imports Json
begin

text \<open>
  The JSON object layer, \<^verbatim>\<open>src/jzon/jzon.c\<close> and \<^verbatim>\<open>src/jzon/jsonc.c\<close>. A \<^verbatim>\<open>struct json_object\<close> is an
  entry of an ordered dictionary without its key; a pointer to one is an option. An operation
  that writes its result through a pointer returns the error code or the result.
\<close>

type_synonym jptr = "odict_val option"

section \<open>Objects\<close>

definition jzon_is_container :: "jptr \<Rightarrow> bool" where
  "jzon_is_container obj = (case obj of None \<Rightarrow> False | Some v \<Rightarrow> odict_type_iscontainer v)"

definition jzon_odict :: "jptr \<Rightarrow> odict option" where
  "jzon_odict jobj =
     (case jobj of Some (ODICT_OBJECT od) \<Rightarrow> Some od | Some (ODICT_ARRAY od) \<Rightarrow> Some od | _ \<Rightarrow> None)"

definition json_object_new_string :: "cptr \<Rightarrow> jptr" where
  "json_object_new_string str = map_option ODICT_STRING str"

definition json_object_new_int :: "i32 \<Rightarrow> jptr" where
  "json_object_new_int i = Some (ODICT_INT (scast i))"

definition json_object_new_double :: "u64 \<Rightarrow> jptr" where
  "json_object_new_double d = Some (ODICT_DOUBLE d)"

definition json_object_new_boolean :: "bool \<Rightarrow> jptr" where
  "json_object_new_boolean b = Some (ODICT_BOOL b)"

definition jzon_add_entry :: "odict_val \<Rightarrow> string \<Rightarrow> odict_val \<Rightarrow> odict_val" where
  "jzon_add_entry jobj key val =
     (case jobj of
        ODICT_OBJECT od \<Rightarrow> ODICT_OBJECT (odict_entry_add od key val)
      | ODICT_ARRAY od \<Rightarrow> ODICT_ARRAY (odict_entry_add od key val)
      | _ \<Rightarrow> jobj)"

definition json_object_object_add :: "odict_val \<Rightarrow> cptr \<Rightarrow> jptr \<Rightarrow> odict_val" where
  "json_object_object_add jobj key val =
     (case key of
        None \<Rightarrow> jobj
      | Some key \<Rightarrow>
          if \<not> jzon_is_container (Some jobj) then jobj
          else case val of
                 Some v \<Rightarrow> jzon_add_entry jobj key v
               | None \<Rightarrow> jzon_add_entry jobj key ODICT_NULL)"

definition json_object_array_add :: "odict_val \<Rightarrow> jptr \<Rightarrow> int \<times> odict_val" where
  "json_object_array_add jobj val =
     (case jobj of
        ODICT_ARRAY od \<Rightarrow>
          (let key = local_itoa (odict_count od False)
           in (0, ODICT_ARRAY (odict_entry_add od key (case val of Some v \<Rightarrow> v | None \<Rightarrow> ODICT_NULL))))
      | _ \<Rightarrow> (-1, jobj))"

definition json_object_array_length :: "jptr \<Rightarrow> nat" where
  "json_object_array_length jobj =
     (case jobj of Some (ODICT_ARRAY od) \<Rightarrow> odict_count od False | _ \<Rightarrow> 0)"

definition json_object_array_get_idx :: "jptr \<Rightarrow> int \<Rightarrow> jptr" where
  "json_object_array_get_idx obj idx =
     (if idx < 0 then None
      else case obj of Some (ODICT_ARRAY od) \<Rightarrow> odict_lookup od (local_itoa (nat idx)) | _ \<Rightarrow> None)"

definition json_object_object_get_ex :: "jptr \<Rightarrow> cptr \<Rightarrow> jptr" where
  "json_object_object_get_ex obj key =
     (case (obj, key) of (Some (ODICT_OBJECT od), Some k) \<Rightarrow> odict_lookup od k | _ \<Rightarrow> None)"

definition json_object_get_string :: "jptr \<Rightarrow> cptr" where
  "json_object_get_string jobj = (case jobj of Some (ODICT_STRING s) \<Rightarrow> Some s | _ \<Rightarrow> None)"

definition json_object_get_int :: "jptr \<Rightarrow> i32" where
  "json_object_get_int obj = (case obj of Some (ODICT_INT i) \<Rightarrow> ucast i | _ \<Rightarrow> 0)"

definition json_object_get_double :: "jptr \<Rightarrow> u64" where
  "json_object_get_double obj = (case obj of Some (ODICT_DOUBLE d) \<Rightarrow> d | _ \<Rightarrow> 0)"

definition json_object_get_boolean :: "jptr \<Rightarrow> bool" where
  "json_object_get_boolean obj = (case obj of Some (ODICT_BOOL b) \<Rightarrow> b | _ \<Rightarrow> False)"

section \<open>Reading fields\<close>

definition jzon_str :: "jptr \<Rightarrow> cptr \<Rightarrow> cptr" where
  "jzon_str obj key =
     (case json_object_object_get_ex obj key of
        None \<Rightarrow> None
      | Some value \<Rightarrow> json_object_get_string (Some value))"

definition jzon_strdup :: "jptr \<Rightarrow> cptr \<Rightarrow> int + cptr" where
  "jzon_strdup obj key =
     (if obj = None \<or> key = None then Inl EINVAL
      else case json_object_object_get_ex obj key of
             None \<Rightarrow> Inl ENOENT
           | Some (ODICT_STRING s) \<Rightarrow> Inr (Some s)
           | Some ODICT_NULL \<Rightarrow> Inr None
           | Some _ \<Rightarrow> Inl EPROTO)"

definition jzon_strdup_opt :: "jptr \<Rightarrow> cptr \<Rightarrow> cptr \<Rightarrow> int + cptr" where
  "jzon_strdup_opt obj key dflt =
     (case jzon_strdup obj key of
        Inl err \<Rightarrow> if err = ENOENT then Inr dflt else Inl err
      | Inr s \<Rightarrow> Inr s)"

definition jzon_int :: "jptr \<Rightarrow> cptr \<Rightarrow> int + i32" where
  "jzon_int obj key =
     (if obj = None \<or> key = None then Inl EINVAL
      else case json_object_object_get_ex obj key of
             None \<Rightarrow> Inl ENOENT
           | Some (ODICT_INT i) \<Rightarrow> Inr (json_object_get_int (Some (ODICT_INT i)))
           | Some _ \<Rightarrow> Inl EPROTO)"

definition jzon_u32 :: "jptr \<Rightarrow> cptr \<Rightarrow> int + u32" where
  "jzon_u32 obj key =
     (if obj = None \<or> key = None then Inl EINVAL
      else case json_object_object_get_ex obj key of
             None \<Rightarrow> Inl ENOENT
           | Some (ODICT_INT i) \<Rightarrow> Inr (ucast (json_object_get_int (Some (ODICT_INT i))))
           | Some _ \<Rightarrow> Inl EPROTO)"

definition jzon_int_opt :: "jptr \<Rightarrow> cptr \<Rightarrow> i32 \<Rightarrow> int + i32" where
  "jzon_int_opt obj key dflt =
     (case jzon_int obj key of
        Inl err \<Rightarrow> if err = ENOENT then Inr dflt else Inl err
      | Inr i \<Rightarrow> Inr i)"

definition jzon_double :: "jptr \<Rightarrow> cptr \<Rightarrow> int + u64" where
  "jzon_double obj key =
     (if obj = None \<or> key = None then Inl EINVAL
      else case json_object_object_get_ex obj key of
             None \<Rightarrow> Inl ENOENT
           | Some (ODICT_DOUBLE d) \<Rightarrow> Inr (json_object_get_double (Some (ODICT_DOUBLE d)))
           | Some (ODICT_INT i) \<Rightarrow> Inr (json_object_get_double (Some (ODICT_INT i)))
           | Some _ \<Rightarrow> Inl EPROTO)"

definition jzon_bool :: "jptr \<Rightarrow> cptr \<Rightarrow> int + bool" where
  "jzon_bool obj key =
     (if obj = None \<or> key = None then Inl EINVAL
      else case json_object_object_get_ex obj key of
             None \<Rightarrow> Inl ENOENT
           | Some (ODICT_BOOL b) \<Rightarrow> Inr (json_object_get_boolean (Some (ODICT_BOOL b)))
           | Some _ \<Rightarrow> Inl EPROTO)"

definition jzon_bool_opt :: "jptr \<Rightarrow> cptr \<Rightarrow> bool \<Rightarrow> bool" where
  "jzon_bool_opt obj key dflt = (case jzon_bool obj key of Inl _ \<Rightarrow> dflt | Inr res \<Rightarrow> res)"

definition generic_object :: "jptr \<Rightarrow> cptr \<Rightarrow> (odict_val \<Rightarrow> bool) \<Rightarrow> int + odict_val" where
  "generic_object jobj key is_type =
     (if jobj = None \<or> key = None then Inl EINVAL
      else case json_object_object_get_ex jobj key of
             None \<Rightarrow> Inl ENOENT
           | Some dst \<Rightarrow> if is_type dst then Inr dst else Inl EPROTO)"

definition jzon_is_object :: "jptr \<Rightarrow> bool" where
  "jzon_is_object jobj = (case jobj of Some (ODICT_OBJECT _) \<Rightarrow> True | _ \<Rightarrow> False)"

definition jzon_is_array :: "jptr \<Rightarrow> bool" where
  "jzon_is_array jobj = (case jobj of Some (ODICT_ARRAY _) \<Rightarrow> True | _ \<Rightarrow> False)"

definition jzon_object :: "jptr \<Rightarrow> cptr \<Rightarrow> int + odict_val" where
  "jzon_object jobj key = generic_object jobj key (\<lambda>v. jzon_is_object (Some v))"

definition jzon_array :: "jptr \<Rightarrow> cptr \<Rightarrow> int + odict_val" where
  "jzon_array jobj key = generic_object jobj key (\<lambda>v. jzon_is_array (Some v))"

definition jzon_is_null :: "jptr \<Rightarrow> cptr \<Rightarrow> int" where
  "jzon_is_null jobj key =
     (case generic_object jobj key (\<lambda>v. v = ODICT_NULL) of Inl err \<Rightarrow> err | Inr _ \<Rightarrow> 0)"

section \<open>Building objects\<close>

text \<open>The variable arguments of \<^verbatim>\<open>jzon_creatf\<close>, with the format character that reads them.\<close>

datatype jzon_arg = Arg_s cptr | Arg_n | Arg_i i32 | Arg_f u64 | Arg_b bool | Arg_other

fun jzon_vcreatf :: "(cptr \<times> jzon_arg) list \<Rightarrow> odict_val \<Rightarrow> int + odict_val" where
  "jzon_vcreatf [] jobj = Inr jobj"
| "jzon_vcreatf ((None, a) # as) jobj = Inl EINVAL"
| "jzon_vcreatf ((Some key, Arg_s value) # as) jobj =
     jzon_vcreatf as (json_object_object_add jobj (Some key) (json_object_new_string value))"
| "jzon_vcreatf ((Some key, Arg_n) # as) jobj =
     jzon_vcreatf as (json_object_object_add jobj (Some key) None)"
| "jzon_vcreatf ((Some key, Arg_i i) # as) jobj =
     jzon_vcreatf as (json_object_object_add jobj (Some key) (json_object_new_int i))"
| "jzon_vcreatf ((Some key, Arg_f d) # as) jobj =
     jzon_vcreatf as (json_object_object_add jobj (Some key) (json_object_new_double d))"
| "jzon_vcreatf ((Some key, Arg_b b) # as) jobj =
     jzon_vcreatf as (json_object_object_add jobj (Some key) (json_object_new_boolean b))"
| "jzon_vcreatf ((Some key, Arg_other) # as) jobj = Inl EINVAL"

definition jzon_creatf :: "(cptr \<times> jzon_arg) list \<Rightarrow> int + odict_val" where
  "jzon_creatf args = jzon_vcreatf args (ODICT_OBJECT [])"

definition jzon_add_str :: "odict_val \<Rightarrow> string \<Rightarrow> cptr \<Rightarrow> odict_val" where
  "jzon_add_str jobj key val = json_object_object_add jobj (Some key) (json_object_new_string val)"

definition jzon_add_int :: "odict_val \<Rightarrow> string \<Rightarrow> i32 \<Rightarrow> odict_val" where
  "jzon_add_int jobj key val = json_object_object_add jobj (Some key) (json_object_new_int val)"

definition jzon_add_bool :: "odict_val \<Rightarrow> string \<Rightarrow> bool \<Rightarrow> odict_val" where
  "jzon_add_bool jobj key val = json_object_object_add jobj (Some key) (json_object_new_boolean val)"

section \<open>Text\<close>

definition jzon_print :: "'f ld_ops \<Rightarrow> jptr \<Rightarrow> int + string" where
  "jzon_print ld jobj =
     (case jobj of
        None \<Rightarrow> Inr []
      | Some v \<Rightarrow>
          (case jzon_odict (Some v) of
             None \<Rightarrow> Inl EINVAL
           | Some od \<Rightarrow> Inr (json_encode_odict ld od)))"

definition jzon_encode :: "'f ld_ops \<Rightarrow> jptr \<Rightarrow> int + string" where
  "jzon_encode ld jobj = (if jobj = None then Inl EINVAL else jzon_print ld jobj)"

text \<open>The first character that is not white space decides the type of the document.\<close>

definition jzon_decode :: "'f ld_ops \<Rightarrow> string \<Rightarrow> int + odict_val" where
  "jzon_decode ld buf =
     (if buf = [] then Inl EINVAL
      else case dropWhile (\<lambda>c. c \<in> {CHR '' '', CHR 0x09, CHR 0x0D, CHR 0x0A}) buf of
             [] \<Rightarrow> Inl EBADMSG
           | c # _ \<Rightarrow>
               if c = CHR 0x7B then map_sum id ODICT_OBJECT (json_decode_odict ld buf 8)
               else if c = CHR 0x5B then map_sum id ODICT_ARRAY (json_decode_odict ld buf 8)
               else Inl EBADMSG)"

fun jzon_apply :: "(string \<Rightarrow> odict_val \<Rightarrow> bool) \<Rightarrow> odict \<Rightarrow> (string \<times> odict_val) option" where
  "jzon_apply ah [] = None"
| "jzon_apply ah ((k, robj) # es) = (if ah k robj then Some (k, robj) else jzon_apply ah es)"

lemmas jzon_get_defs =
  jzon_str_def jzon_bool_def jzon_object_def generic_object_def jzon_is_object_def
  json_object_object_get_ex_def json_object_get_string_def json_object_get_boolean_def

lemmas jzon_add_defs =
  jzon_creatf_def jzon_add_str_def jzon_add_bool_def json_object_object_add_def jzon_add_entry_def
  jzon_is_container_def odict_type_iscontainer_def json_object_new_string_def
  json_object_new_boolean_def odict_entry_add_def

end
