(* ===== verification/Json_Roundtrip.thy ===== *)
theory Json_Roundtrip
  imports Complex_Main Json
begin

text \<open>
  Decoding what was encoded: the string escapes of \<^verbatim>\<open>utf8_encode\<close> and \<^verbatim>\<open>utf8_decode\<close>, and whole
  documents. For numbers, whose printing and reading is floating-point arithmetic, the round trip
  of the number itself is a condition on the document.
\<close>

section \<open>Strings\<close>

lemma emit_simps [simp]: "emit out (Inr s) = Inr (out @ s)" "emit out (Inl e) = Inl e"
  by (simp_all add: emit_def)

lemma hex_char_facts [simp]:
  "n < 16 \<Longrightarrow> isxdigit (hex_char n)" "n < 16 \<Longrightarrow> ch_hex (hex_char n) = n"
  by (auto simp: hex_char_def isxdigit_def ch_hex_def Let_def)

lemma utf8_decode_char: "utf8_decode (utf8_encode_char c @ t) = emit [c] (utf8_decode t)"
proof (cases "(of_char c :: nat) < 32")
  case True
  then have "of_char c div 16 < (16 :: nat)" by simp
  with True show ?thesis
    by (simp add: utf8_encode_char_def Let_def isxdigit_def [of "CHR ''0''"] ch_hex_def [of "CHR ''0''"])
next
  case False
  then show ?thesis by (auto simp: utf8_encode_char_def)
qed

lemma utf8_roundtrip: "utf8_decode (utf8_encode s) = Inr s"
  by (induction s) (auto simp: utf8_encode_def utf8_decode_char)

lemma cstr_id: "CHR 0x00 \<notin> set s \<Longrightarrow> cstr s = s"
  by (auto simp: cstr_def takeWhile_eq_all_conv)

lemma is_string_quote [simp]: "is_string (CHR 0x22 # s @ [CHR 0x22]) = Some s"
  by (simp add: is_string_def)

section \<open>Documents that can be encoded\<close>

definition json_plain :: "string \<Rightarrow> bool" where
  "json_plain t \<longleftrightarrow>
     t \<noteq> [] \<and> list_all (\<lambda>c. c \<notin> {CHR 0x22, CHR '':'', CHR '','', CHR 0x7B, CHR 0x5B, CHR 0x7D, CHR 0x5D,
                              CHR '' '', CHR 0x09, CHR 0x0D, CHR 0x0A}) t"

text \<open>
  Strings and names have no zero byte, the entries of an array are named by their index, and a
  number is read back as it was printed.
\<close>

fun json_ok :: "'f ld_ops \<Rightarrow> odict_val \<Rightarrow> bool" where
  "json_ok ld (ODICT_OBJECT od) = list_all (\<lambda>(k, v). CHR 0x00 \<notin> set k \<and> json_ok ld v) od"
| "json_ok ld (ODICT_ARRAY od) =
     (length od < 2 ^ 32 \<and> map fst od = map local_itoa [0..<length od] \<and>
      list_all (\<lambda>(k, v). json_ok ld v) od)"
| "json_ok ld (ODICT_INT i) = (decode_value ld (print_lld i) = Inr (JSON_INT i))"
| "json_ok ld (ODICT_DOUBLE d) =
     (json_plain (print_f ld d) \<and> decode_value ld (print_f ld d) = Inr (JSON_DOUBLE d))"
| "json_ok ld (ODICT_STRING s) = (CHR 0x00 \<notin> set s)"
| "json_ok ld (ODICT_BOOL b) = True"
| "json_ok ld ODICT_NULL = True"

fun json_depth :: "odict_val \<Rightarrow> nat" where
  "json_depth (ODICT_OBJECT od) = Suc (fold max (map (\<lambda>(k, v). json_depth v) od) 0)"
| "json_depth (ODICT_ARRAY od) = Suc (fold max (map (\<lambda>(k, v). json_depth v) od) 0)"
| "json_depth v = 0"

lemma fold_max_le: "fold max xs (n::nat) \<le> m \<longleftrightarrow> n \<le> m \<and> (\<forall>x \<in> set xs. x \<le> m)"
  by (induction xs arbitrary: n) auto

definition json_val :: "odict_val \<Rightarrow> json_value" where
  "json_val v =
     (case v of ODICT_STRING s \<Rightarrow> JSON_STRING s | ODICT_INT i \<Rightarrow> JSON_INT i
      | ODICT_DOUBLE d \<Rightarrow> JSON_DOUBLE d | ODICT_BOOL b \<Rightarrow> JSON_BOOL b | _ \<Rightarrow> JSON_NULL)"

lemma local_itoa_digits: "c \<in> set (local_itoa n) \<Longrightarrow> \<exists>d < 10. c = char_of (48 + d :: nat)"
proof (induction n rule: local_itoa.induct)
  case (1 n)
  then show ?case
  proof (cases "n < 10")
    case True
    then show ?thesis using 1(2) by (subst (asm) local_itoa.simps) auto
  next
    case False
    then have "c \<in> set (local_itoa (n div 10)) \<or> c = char_of (48 + n mod 10)"
      using 1(2) by (subst (asm) local_itoa.simps) auto
    then show ?thesis using 1(1) False by (auto intro: exI [of _ "n mod 10"])
  qed
qed

lemma local_itoa_nonempty [simp]: "local_itoa n \<noteq> []"
  by (subst local_itoa.simps) simp

lemma digit_plain: "d < 10 \<Longrightarrow> json_plain [char_of (48 + d :: nat)]"
proof -
  assume "d < 10"
  then have "d \<in> {0, 1, 2, 3, 4, 5, 6, 7, 8, 9}" by auto
  then show ?thesis by (auto simp: json_plain_def char_of_def)
qed

lemma local_itoa_plain: "json_plain (local_itoa n)"
  using local_itoa_digits [of _ n] digit_plain
  by (fastforce simp: json_plain_def list_all_iff)

lemma print_lld_plain: "json_plain (print_lld i)"
  using local_itoa_plain by (auto simp: print_lld_def json_plain_def)

lemma decode_scalar:
  "json_ok ld v \<Longrightarrow> \<not> odict_type_iscontainer v \<Longrightarrow> decode_value ld (encode_entry ld v) = Inr (json_val v)"
  by (cases v)
     (auto simp: odict_type_iscontainer_def json_val_def decode_value_def [of _ "CHR 0x22 # _"]
       utf8_roundtrip cstr_id decode_value_def [of _ "''true''"] decode_value_def [of _ "''false''"]
       decode_value_def [of _ "''null''"] is_string_def is_number_def is_number_char_def tolower_def)

section \<open>Frames\<close>

definition json_cont :: "'f ld_ops \<Rightarrow> nat \<Rightarrow> string \<Rightarrow> json_out \<Rightarrow> json_out" where
  "json_cont ld md rest r = (case r of J_more fs \<Rightarrow> json_loop ld md rest fs | _ \<Rightarrow> r)"

lemma json_cont_more [simp]: "json_cont ld md rest (J_more fs) = json_loop ld md rest fs"
  by (simp add: json_cont_def)

lemma json_loop_Cons:
  "json_loop ld md (c # cs) (f # fs) = json_cont ld md cs (json_char ld md c (c # cs) f fs)"
  by (simp add: json_cont_def split: json_out.split)

declare json_loop.simps(3) [simp del]

text \<open>A frame that waits for the value of \<open>key\<close>.\<close>

definition jf_ready :: "jframe \<Rightarrow> string \<Rightarrow> bool" where
  "jf_ready f key \<longleftrightarrow>
     \<not> jf_esc f \<and> \<not> jf_inquot f \<and> jf_val f = None \<and> container_key (jf_name f) (jf_idx f) = Inr key \<and>
     (jf_inobj f \<and> \<not> jf_inarray f \<and> jf_name f \<noteq> None \<or>
      jf_inarray f \<and> \<not> jf_inobj f \<and> jf_name f = None)"

text \<open>The frame after the text of a value, and after the entry is complete.\<close>

definition jf_after :: "'f ld_ops \<Rightarrow> odict_val \<Rightarrow> string \<Rightarrow> string \<Rightarrow> jframe \<Rightarrow> jframe" where
  "jf_after ld v rest key f =
     (if odict_type_iscontainer v
      then f\<lparr>jf_name := None, jf_od := jf_od f @ [(key, v)],
             jf_idx := (if jf_inarray f then jf_idx f + 1 else jf_idx f)\<rparr>
      else f\<lparr>jf_val := Some (encode_entry ld v @ rest), jf_ws := 0\<rparr>)"

definition jf_added :: "odict_val \<Rightarrow> string \<Rightarrow> jframe \<Rightarrow> jframe" where
  "jf_added v key f =
     f\<lparr>jf_name := None, jf_val := None, jf_od := jf_od f @ [(key, v)],
       jf_idx := (if jf_inarray f then jf_idx f + 1 else jf_idx f),
       jf_ws := (if odict_type_iscontainer v then jf_ws f else 0)\<rparr>"

lemma jf_id [simp]:
  "\<not> jf_esc f \<Longrightarrow> f\<lparr>jf_esc := False\<rparr> = f" "\<not> jf_inquot f \<Longrightarrow> f\<lparr>jf_inquot := False\<rparr> = f"
  by (cases f, simp)+

lemma chkval_here [simp]: "chkval (Some (t @ c # rest)) (c # rest) 0 = Some t"
  "chkval None str ws = None"
  by (simp_all add: chkval_def)

lemma json_return_cong:
  "jf_od f = jf_od f' \<Longrightarrow> jf_key f = jf_key f' \<Longrightarrow> jf_isobj f = jf_isobj f' \<Longrightarrow>
     json_return (f # fs) = json_return (f' # fs)"
  by (cases fs) auto

lemma entry_add_scalar:
  "\<not> odict_type_iscontainer v \<Longrightarrow> json_entry_add od key (json_val v) = od @ [(key, v)]"
  by (cases v) (auto simp: json_entry_add_def json_val_def odict_entry_add_def odict_type_iscontainer_def)

section \<open>Scanning one value\<close>

lemma quoted_plain:
  "jf_inquot f \<Longrightarrow> \<not> jf_esc f \<Longrightarrow> c \<noteq> CHR 0x22 \<Longrightarrow> c \<noteq> CHR 0x5C \<Longrightarrow>
     json_loop ld md (c # t) (f # fs) = json_loop ld md t (f # fs)"
  by (simp add: json_loop_Cons json_char_def)

lemma quoted_escape:
  "jf_inquot f \<Longrightarrow> \<not> jf_esc f \<Longrightarrow>
     json_loop ld md (CHR 0x5C # c # t) (f # fs) = json_loop ld md t (f # fs)"
  by (simp add: json_loop_Cons json_char_def)

lemma hex_char_plain: "n < 16 \<Longrightarrow> hex_char n \<noteq> CHR 0x22 \<and> hex_char n \<noteq> CHR 0x5C"
proof -
  assume "n < 16"
  then have "isxdigit (hex_char n)" by simp
  moreover have "\<not> isxdigit (CHR 0x22)" "\<not> isxdigit (CHR 0x5C)" by (simp_all add: isxdigit_def)
  ultimately show ?thesis by metis
qed

lemma scan_quoted_char:
  assumes "jf_inquot f" and "\<not> jf_esc f"
  shows "json_loop ld md (utf8_encode_char c @ t) (f # fs) = json_loop ld md t (f # fs)"
proof (cases "\<exists>x. utf8_encode_char c = [CHR 0x5C, x]")
  case True
  then show ?thesis using quoted_escape [OF assms] by auto
next
  case False
  then have c: "c \<noteq> CHR 0x22" "c \<noteq> CHR 0x5C" by (auto simp: utf8_encode_char_def)
  show ?thesis
  proof (cases "(of_char c :: nat) < 32")
    case True
    then have "of_char c div 16 < (16 :: nat)" "of_char c mod 16 < (16 :: nat)" by simp_all
    note hex = this [THEN hex_char_plain]
    have "utf8_encode_char c = [CHR 0x5C, CHR ''u'', CHR ''0'', CHR ''0'',
        hex_char (of_char c div 16), hex_char (of_char c mod 16)]"
      using False True by (auto simp: utf8_encode_char_def split: if_splits)
    then show ?thesis using hex by (simp add: quoted_escape [OF assms] quoted_plain [OF assms])
  next
    case ge: False
    then have "utf8_encode_char c = [c]"
      using False by (auto simp: utf8_encode_char_def split: if_splits)
    then show ?thesis using c by (simp add: quoted_plain [OF assms])
  qed
qed

lemma scan_quoted:
  "jf_inquot f \<Longrightarrow> \<not> jf_esc f \<Longrightarrow>
     json_loop ld md (utf8_encode s @ t) (f # fs) = json_loop ld md t (f # fs)"
  by (induction s) (auto simp: utf8_encode_def scan_quoted_char)

lemma scan_string:
  assumes "\<not> jf_inquot f" and "\<not> jf_esc f" and "jf_val f = None"
  shows "json_loop ld md (CHR 0x22 # utf8_encode s @ CHR 0x22 # rest) (f # fs) =
    json_loop ld md rest
      (f\<lparr>jf_val := Some (CHR 0x22 # utf8_encode s @ CHR 0x22 # rest), jf_ws := 0\<rparr> # fs)"
proof -
  let ?v = "Some (CHR 0x22 # utf8_encode s @ CHR 0x22 # rest)"
  let ?g = "f\<lparr>jf_inquot := True, jf_val := ?v, jf_ws := 0\<rparr>"
  have "json_loop ld md (CHR 0x22 # utf8_encode s @ CHR 0x22 # rest) (f # fs) =
      json_loop ld md (utf8_encode s @ CHR 0x22 # rest) (?g # fs)"
    using assms by (simp add: json_loop_Cons json_char_def)
  also have "\<dots> = json_loop ld md (CHR 0x22 # rest) (?g # fs)"
    using assms by (intro scan_quoted) simp_all
  also have "\<dots> = json_loop ld md rest (?g\<lparr>jf_inquot := False\<rparr> # fs)"
    using assms by (simp add: json_loop_Cons json_char_def)
  finally show ?thesis using assms by (cases f) simp
qed

lemma scan_plain_rest:
  "\<not> jf_inquot f \<Longrightarrow> jf_val f \<noteq> None \<Longrightarrow> t \<noteq> [] \<longrightarrow> json_plain t \<Longrightarrow>
     json_loop ld md (t @ rest) (f # fs) = json_loop ld md rest (f # fs)"
  by (induction t) (auto simp: json_plain_def json_loop_Cons json_char_def)

lemma scan_plain:
  assumes "\<not> jf_inquot f" and "jf_val f = None" and "json_plain t"
  shows "json_loop ld md (t @ rest) (f # fs) =
    json_loop ld md rest (f\<lparr>jf_val := Some (t @ rest), jf_ws := 0\<rparr> # fs)"
proof (cases t)
  case (Cons c cs)
  then have "json_loop ld md (t @ rest) (f # fs) =
      json_loop ld md (cs @ rest) (f\<lparr>jf_val := Some (t @ rest), jf_ws := 0\<rparr> # fs)"
    using assms by (cases f) (auto simp: json_plain_def json_loop_Cons json_char_def)
  also have "\<dots> = json_loop ld md rest (f\<lparr>jf_val := Some (t @ rest), jf_ws := 0\<rparr> # fs)"
    using assms Cons by (intro scan_plain_rest) (auto simp: json_plain_def)
  finally show ?thesis .
qed (use assms in \<open>simp add: json_plain_def\<close>)

lemma scan_scalar:
  assumes "jf_ready f key" and "json_ok ld v" and "\<not> odict_type_iscontainer v"
  shows "json_loop ld md (encode_entry ld v @ rest) (f # fs) =
    json_loop ld md rest (jf_after ld v rest key f # fs)"
proof (cases "\<exists>s. v = ODICT_STRING s")
  case True
  then show ?thesis using assms scan_string [of f] by (auto simp: jf_ready_def jf_after_def)
next
  case False
  have "json_plain ''true''" "json_plain ''false''" "json_plain ''null''"
    by (simp_all add: json_plain_def)
  then have "json_plain (encode_entry ld v)"
    using assms(2,3) False
    by (cases v) (auto simp: odict_type_iscontainer_def print_lld_plain)
  then show ?thesis
    using assms scan_plain [of f "encode_entry ld v"] by (simp add: jf_ready_def jf_after_def)
qed

section \<open>Entries\<close>

lemma decode_key:
  "CHR 0x00 \<notin> set k \<Longrightarrow> decode_name (Some (CHR 0x22 # utf8_encode k @ [CHR 0x22])) = Inr k"
  by (simp add: decode_name_def utf8_roundtrip cstr_id)

lemma after_comma:
  assumes "jf_ready f key" and "json_ok ld v"
  shows "json_loop ld md (CHR '','' # rest) (jf_after ld v (CHR '','' # rest) key f # fs) =
    json_loop ld md rest (jf_added v key f # fs)"
proof (cases "odict_type_iscontainer v")
  case True
  then show ?thesis
    using assms(1) by (cases f) (auto simp: jf_ready_def jf_after_def jf_added_def json_loop_Cons
        json_char_def json_comma_def)
next
  case False
  then show ?thesis
    using assms decode_scalar [OF assms(2) False] entry_add_scalar [OF False]
    by (cases f) (auto simp: jf_ready_def jf_after_def jf_added_def json_loop_Cons
        json_char_def json_comma_def object_entry_def array_entry_def container_key_def)
qed

lemma after_close_obj:
  assumes "jf_ready f key" and "json_ok ld v" and "jf_inobj f"
  shows "json_loop ld md (CHR 0x7D # rest) (jf_after ld v (CHR 0x7D # rest) key f # fs) =
    json_cont ld md rest (json_return (jf_added v key f # fs))"
proof (cases "odict_type_iscontainer v")
  case True
  then show ?thesis
    using assms(1,3) by (auto simp: jf_ready_def jf_after_def jf_added_def json_loop_Cons
        json_char_def json_close_obj_def intro!: arg_cong [of _ _ "json_cont ld md rest"] json_return_cong)
next
  case False
  then show ?thesis
    using assms decode_scalar [OF assms(2) False] entry_add_scalar [OF False]
    by (auto simp: jf_ready_def jf_after_def jf_added_def json_loop_Cons
        json_char_def json_close_obj_def object_entry_def container_key_def
        intro!: arg_cong [of _ _ "json_cont ld md rest"] json_return_cong)
qed

lemma after_close_arr:
  assumes "jf_ready f key" and "json_ok ld v" and "jf_inarray f"
  shows "json_loop ld md (CHR 0x5D # rest) (jf_after ld v (CHR 0x5D # rest) key f # fs) =
    json_cont ld md rest (json_return (jf_added v key f # fs))"
proof (cases "odict_type_iscontainer v")
  case True
  then show ?thesis
    using assms(1,3) by (auto simp: jf_ready_def jf_after_def jf_added_def json_loop_Cons
        json_char_def json_close_arr_def intro!: arg_cong [of _ _ "json_cont ld md rest"] json_return_cong)
next
  case False
  then show ?thesis
    using assms decode_scalar [OF assms(2) False] entry_add_scalar [OF False]
    by (auto simp: jf_ready_def jf_after_def jf_added_def json_loop_Cons
        json_char_def json_close_arr_def array_entry_def container_key_def
        intro!: arg_cong [of _ _ "json_cont ld md rest"] json_return_cong)
qed

text \<open>A frame between the entries of an object, and between those of an array.\<close>

definition obj_frame :: "jframe \<Rightarrow> bool" where
  "obj_frame f \<longleftrightarrow>
     \<not> jf_esc f \<and> \<not> jf_inquot f \<and> jf_val f = None \<and> jf_name f = None \<and> jf_inobj f \<and> \<not> jf_inarray f"

definition arr_frame :: "nat \<Rightarrow> jframe \<Rightarrow> bool" where
  "arr_frame n f \<longleftrightarrow>
     \<not> jf_esc f \<and> \<not> jf_inquot f \<and> jf_val f = None \<and> jf_name f = None \<and> jf_inarray f \<and>
     \<not> jf_inobj f \<and> jf_idx f = of_nat n"

text \<open>What reading a value does, as an assumption on the value for the entries around it.\<close>

definition reads :: "'f ld_ops \<Rightarrow> nat \<Rightarrow> odict_val \<Rightarrow> bool" where
  "reads ld md v \<longleftrightarrow>
     (\<forall>f fs key rest. jf_ready f key \<longrightarrow> json_depth v + length fs \<le> md \<longrightarrow>
        json_loop ld md (encode_entry ld v @ rest) (f # fs) =
        json_loop ld md rest (jf_after ld v rest key f # fs))"

lemma readsD:
  "reads ld md v \<Longrightarrow> jf_ready f key \<Longrightarrow> json_depth v + length fs \<le> md \<Longrightarrow>
     json_loop ld md (encode_entry ld v @ rest) (f # fs) =
     json_loop ld md rest (jf_after ld v rest key f # fs)"
  by (simp add: reads_def)

definition named :: "string \<Rightarrow> jframe \<Rightarrow> jframe" where
  "named k f = f\<lparr>jf_name := Some (CHR 0x22 # utf8_encode k @ [CHR 0x22]), jf_ws := 0\<rparr>"

lemma scan_key:
  assumes "obj_frame f"
  shows "json_loop ld md (encode_key k @ rest) (f # fs) = json_loop ld md rest (named k f # fs)"
proof -
  let ?t = "CHR 0x22 # utf8_encode k @ [CHR 0x22]"
  have "json_loop ld md (encode_key k @ rest) (f # fs) =
      json_loop ld md (CHR '':'' # rest) (f\<lparr>jf_val := Some (?t @ CHR '':'' # rest), jf_ws := 0\<rparr> # fs)"
    using assms scan_string [of f ld md k "CHR '':'' # rest" fs] by (simp add: encode_key_def obj_frame_def)
  also have "\<dots> = json_loop ld md rest (named k f # fs)"
  proof -
    have "chkval (Some (?t @ CHR '':'' # rest)) (CHR '':'' # rest) 0 = Some ?t" by (rule chkval_here)
    then show ?thesis
      using assms by (cases f) (simp add: json_loop_Cons json_char_def obj_frame_def named_def)
  qed
  finally show ?thesis .
qed

lemma named_ready: "obj_frame f \<Longrightarrow> CHR 0x00 \<notin> set k \<Longrightarrow> jf_ready (named k f) k"
  by (simp add: jf_ready_def named_def obj_frame_def container_key_def decode_key)

lemma arr_ready: "arr_frame n f \<Longrightarrow> n < 2 ^ 32 \<Longrightarrow> jf_ready f (local_itoa n)"
  by (auto simp: jf_ready_def arr_frame_def container_key_def unsigned_of_nat take_bit_nat_eq_self)

section \<open>Containers\<close>

lemma obj_frame_added: "obj_frame f \<Longrightarrow> obj_frame (jf_added v k (named k f))"
  by (simp add: obj_frame_def jf_added_def named_def)

lemma arr_frame_added: "arr_frame n f \<Longrightarrow> arr_frame (Suc n) (jf_added v k f)"
  by (simp add: arr_frame_def jf_added_def)

lemma scan_obj_entries:
  assumes "\<And>k v. (k, v) \<in> set od \<Longrightarrow>
      reads ld md v \<and> json_ok ld v \<and> CHR 0x00 \<notin> set k \<and> json_depth v + length fs \<le> md"
    and "obj_frame f"
  shows "json_loop ld md
      (commas (map (\<lambda>(k, v). encode_key k @ encode_entry ld v) od) @ CHR 0x7D # rest) (f # fs) =
    json_cont ld md rest (json_return (f\<lparr>jf_od := jf_od f @ od\<rparr> # fs))"
  using assms
proof (induction od arbitrary: f rule: induct_list012)
  case 1
  then show ?case by (simp add: json_loop_Cons json_char_def json_close_obj_def obj_frame_def)
next
  case (2 e)
  obtain k v where e: "e = (k, v)" by (cases e)
  note v = 2(1) [of k v, unfolded e, simplified]
  have "json_loop ld md (encode_key k @ encode_entry ld v @ CHR 0x7D # rest) (f # fs) =
      json_cont ld md rest (json_return (jf_added v k (named k f) # fs))"
    using v 2(2) readsD [OF _ named_ready [OF 2(2)], of ld md v k]
      after_close_obj [OF named_ready [OF 2(2)], of k ld v]
    by (simp add: scan_key obj_frame_def named_def)
  also have "json_return (jf_added v k (named k f) # fs) = json_return (f\<lparr>jf_od := jf_od f @ [(k, v)]\<rparr> # fs)"
    by (rule json_return_cong) (simp_all add: jf_added_def named_def)
  finally show ?case using e by simp
next
  case (3 e e' es)
  obtain k v where e: "e = (k, v)" by (cases e)
  note v = 3(3) [of k v, unfolded e, simplified]
  let ?r = "commas (map (\<lambda>(k, v). encode_key k @ encode_entry ld v) (e' # es)) @ CHR 0x7D # rest"
  let ?g = "jf_added v k (named k f)"
  have "json_loop ld md (encode_key k @ encode_entry ld v @ CHR '','' # ?r) (f # fs) =
      json_loop ld md ?r (?g # fs)"
    using v 3(4) readsD [OF _ named_ready [OF 3(4)], of ld md v k]
      after_comma [OF named_ready [OF 3(4)], of k ld v]
    by (simp add: scan_key)
  also have "\<dots> = json_cont ld md rest (json_return (?g\<lparr>jf_od := jf_od ?g @ e' # es\<rparr> # fs))"
  proof (rule 3(2))
    fix k v assume "(k, v) \<in> set (e' # es)"
    then show "reads ld md v \<and> json_ok ld v \<and> CHR 0x00 \<notin> set k \<and> json_depth v + length fs \<le> md"
      by (intro 3(3)) simp
  qed (rule obj_frame_added [OF 3(4)])
  also have "json_return (?g\<lparr>jf_od := jf_od ?g @ e' # es\<rparr> # fs) =
      json_return (f\<lparr>jf_od := jf_od f @ e # e' # es\<rparr> # fs)"
    by (rule json_return_cong) (simp_all add: jf_added_def named_def e)
  finally show ?case using e by simp
qed

lemma scan_arr_entries:
  assumes "\<And>k v. (k, v) \<in> set od \<Longrightarrow>
      reads ld md v \<and> json_ok ld v \<and> json_depth v + length fs \<le> md"
    and "arr_frame n f" and "map fst od = map local_itoa [n..<n + length od]"
    and "n + length od < 2 ^ 32"
  shows "json_loop ld md (commas (map (\<lambda>(k, v). encode_entry ld v) od) @ CHR 0x5D # rest) (f # fs) =
    json_cont ld md rest (json_return (f\<lparr>jf_od := jf_od f @ od\<rparr> # fs))"
  using assms
proof (induction od arbitrary: f n rule: induct_list012)
  case 1
  then show ?case by (simp add: json_loop_Cons json_char_def json_close_arr_def arr_frame_def)
next
  case (2 e)
  then obtain v where e: "e = (local_itoa n, v)" by (cases e) simp
  note v = 2(1) [of "local_itoa n" v, unfolded e, simplified]
  have ready: "jf_ready f (local_itoa n)" using 2(2,4) by (intro arr_ready) simp_all
  have "json_loop ld md (encode_entry ld v @ CHR 0x5D # rest) (f # fs) =
      json_cont ld md rest (json_return (jf_added v (local_itoa n) f # fs))"
    using v 2(2) readsD [OF _ ready, of ld md v] after_close_arr [OF ready, of ld v]
    by (simp add: arr_frame_def)
  also have "json_return (jf_added v (local_itoa n) f # fs) =
      json_return (f\<lparr>jf_od := jf_od f @ [(local_itoa n, v)]\<rparr> # fs)"
    by (rule json_return_cong) (simp_all add: jf_added_def)
  finally show ?case using e by simp
next
  case (3 e e' es)
  have keys: "map fst (e # e' # es) = local_itoa n # map local_itoa [Suc n..<Suc n + length (e' # es)]"
    using 3(5) upt_conv_Cons [of n "n + length (e # e' # es)"] by (simp del: upt_Suc)
  then obtain v where e: "e = (local_itoa n, v)" by (cases e) simp
  note v = 3(3) [of "local_itoa n" v, unfolded e, simplified]
  have ready: "jf_ready f (local_itoa n)" using 3(4,6) by (intro arr_ready) simp_all
  let ?r = "commas (map (\<lambda>(k, v). encode_entry ld v) (e' # es)) @ CHR 0x5D # rest"
  let ?g = "jf_added v (local_itoa n) f"
  have "json_loop ld md (encode_entry ld v @ CHR '','' # ?r) (f # fs) = json_loop ld md ?r (?g # fs)"
    using v readsD [OF _ ready, of ld md v] after_comma [OF ready, of ld v] by simp
  also have "\<dots> = json_cont ld md rest (json_return (?g\<lparr>jf_od := jf_od ?g @ e' # es\<rparr> # fs))"
  proof (rule 3(2))
    fix k v assume "(k, v) \<in> set (e' # es)"
    then show "reads ld md v \<and> json_ok ld v \<and> json_depth v + length fs \<le> md"
      by (intro 3(3) [of k v]) simp
  qed (use 3(6) arr_frame_added [OF 3(4)] keys in \<open>auto simp del: upt_Suc\<close>)
  also have "json_return (?g\<lparr>jf_od := jf_od ?g @ e' # es\<rparr> # fs) =
      json_return (f\<lparr>jf_od := jf_od f @ e # e' # es\<rparr> # fs)"
    by (rule json_return_cong) (simp_all add: jf_added_def e)
  finally show ?case using e by simp
qed

lemma new_frames: "obj_frame (jframe_new key True)" "arr_frame 0 (jframe_new key False)"
  by (simp_all add: obj_frame_def arr_frame_def jframe_new_def)

lemma reads_scalar: "json_ok ld v \<Longrightarrow> \<not> odict_type_iscontainer v \<Longrightarrow> reads ld md v"
  by (simp add: reads_def scan_scalar)

lemma json_reads: "json_ok ld v \<Longrightarrow> reads ld md v"
proof (induction v)
  case (ODICT_OBJECT od)
  show ?case unfolding reads_def
  proof (intro allI impI)
    fix f key rest and fs :: "jframe list"
    assume f: "jf_ready f key" and d: "json_depth (ODICT_OBJECT od) + length fs \<le> md"
    let ?n = "jframe_new key True" and ?g = "f\<lparr>jf_name := None\<rparr>"
    have "json_loop ld md (encode_entry ld (ODICT_OBJECT od) @ rest) (f # fs) =
        json_loop ld md (commas (map (\<lambda>(k, v). encode_key k @ encode_entry ld v) od) @ CHR 0x7D # rest)
          (?n # ?g # fs)"
      using f d by (auto simp: json_loop_Cons json_char_def json_open_def jf_ready_def)
    also have "\<dots> = json_cont ld md rest (json_return (?n\<lparr>jf_od := jf_od ?n @ od\<rparr> # ?g # fs))"
    proof (rule scan_obj_entries)
      fix k v assume kv: "(k, v) \<in> set od"
      then have "json_ok ld v" "CHR 0x00 \<notin> set k"
        using ODICT_OBJECT.prems by (auto simp: list_all_iff)
      moreover have "json_depth v + length (?g # fs) \<le> md"
        using d kv fold_max_le [of "map (\<lambda>(k, v). json_depth v) od" 0
            "fold max (map (\<lambda>(k, v). json_depth v) od) 0"] by force
      ultimately show "reads ld md v \<and> json_ok ld v \<and> CHR 0x00 \<notin> set k \<and>
          json_depth v + length (?g # fs) \<le> md"
        using ODICT_OBJECT.IH [OF kv, of v] by simp
    qed (rule new_frames)
    finally show "json_loop ld md (encode_entry ld (ODICT_OBJECT od) @ rest) (f # fs) =
        json_loop ld md rest (jf_after ld (ODICT_OBJECT od) rest key f # fs)"
      by (simp add: jframe_new_def jf_after_def odict_type_iscontainer_def odict_entry_add_def)
  qed
next
  case (ODICT_ARRAY od)
  show ?case unfolding reads_def
  proof (intro allI impI)
    fix f key rest and fs :: "jframe list"
    assume f: "jf_ready f key" and d: "json_depth (ODICT_ARRAY od) + length fs \<le> md"
    let ?n = "jframe_new key False" and ?g = "f\<lparr>jf_name := None\<rparr>"
    have "json_loop ld md (encode_entry ld (ODICT_ARRAY od) @ rest) (f # fs) =
        json_loop ld md (commas (map (\<lambda>(k, v). encode_entry ld v) od) @ CHR 0x5D # rest)
          (?n # ?g # fs)"
      using f d by (auto simp: json_loop_Cons json_char_def json_open_def jf_ready_def)
    also have "\<dots> = json_cont ld md rest (json_return (?n\<lparr>jf_od := jf_od ?n @ od\<rparr> # ?g # fs))"
    proof (rule scan_arr_entries [where n = 0])
      fix k v assume kv: "(k, v) \<in> set od"
      then have "json_ok ld v" using ODICT_ARRAY.prems by (auto simp: list_all_iff)
      moreover have "json_depth v + length (?g # fs) \<le> md"
        using d kv fold_max_le [of "map (\<lambda>(k, v). json_depth v) od" 0
            "fold max (map (\<lambda>(k, v). json_depth v) od) 0"] by force
      ultimately show "reads ld md v \<and> json_ok ld v \<and> json_depth v + length (?g # fs) \<le> md"
        using ODICT_ARRAY.IH [OF kv, of v] by simp
    qed (use ODICT_ARRAY.prems in \<open>simp_all add: new_frames\<close>)
    finally show "json_loop ld md (encode_entry ld (ODICT_ARRAY od) @ rest) (f # fs) =
        json_loop ld md rest (jf_after ld (ODICT_ARRAY od) rest key f # fs)"
      by (simp add: jframe_new_def jf_after_def odict_type_iscontainer_def odict_entry_add_def)
  qed
qed (rule reads_scalar; simp add: odict_type_iscontainer_def)+

lemma json_document_roundtrip:
  assumes "json_ok ld (ODICT_OBJECT od)" and "json_depth (ODICT_OBJECT od) \<le> Suc maxdepth"
  shows "json_decode_odict ld (json_encode_odict ld od @ rest) maxdepth = Inr od"
proof -
  let ?f = "jframe_new [] True"
  have f: "?f\<lparr>jf_inobj := False, jf_inobj := True\<rparr> = ?f" by (simp add: jframe_new_def)
  have "json_loop ld maxdepth (json_encode_odict ld od @ rest) [?f\<lparr>jf_inobj := False\<rparr>] =
      json_loop ld maxdepth
        (commas (map (\<lambda>(k, v). encode_key k @ encode_entry ld v) od) @ CHR 0x7D # rest) [?f]"
    using f by (simp add: json_encode_odict_def json_loop_Cons json_char_def json_open_def jframe_new_def)
  also have "\<dots> = json_cont ld maxdepth rest (json_return [?f\<lparr>jf_od := jf_od ?f @ od\<rparr>])"
  proof (rule scan_obj_entries)
    fix k v assume kv: "(k, v) \<in> set od"
    then have "json_ok ld v" "CHR 0x00 \<notin> set k"
      using assms(1) by (auto simp: list_all_iff)
    moreover have "json_depth v \<le> maxdepth"
      using assms(2) kv fold_max_le [of "map (\<lambda>(k, v). json_depth v) od" 0 maxdepth] by force
    ultimately show "reads ld maxdepth v \<and> json_ok ld v \<and> CHR 0x00 \<notin> set k \<and>
        json_depth v + length ([] :: jframe list) \<le> maxdepth"
      using json_reads by simp
  qed (rule new_frames)
  finally show ?thesis by (simp add: json_decode_odict_def json_cont_def jframe_new_def)
qed

section \<open>Properties\<close>

text \<open>
  JSON strings survive: what \<^verbatim>\<open>utf8_encode\<close> escapes \<^verbatim>\<open>utf8_decode\<close> restores, for every byte
  string.
\<close>

theorem json_string_roundtrip: "utf8_decode (utf8_encode s) = Inr s"
  by (rule utf8_roundtrip)


definition ld_rat :: "rat ld_ops" where
  "ld_rat =
     \<lparr>ld_of_int = rat_of_int, ld_add = (+), ld_mul = (*), ld_div = (/), ld_neg = uminus,
      ld_to_i64 = (\<lambda>x. word_of_int \<lfloor>x\<rfloor>), ld_to_double = (\<lambda>x. 0), print_f = (\<lambda>d. ''0'')\<rparr>"


end
