(* ===== verification/Econn_Fmt.thy ===== *)
theory Econn_Fmt
  imports Econn_Msg Jzon Json_Roundtrip
begin

text \<open>
  Call messages as JSON text, \<^verbatim>\<open>src/econn_fmt/msg.c\<close>: encoding, decoding, and how the two fit
  together. The result of a function that fills in a pointer is the error code or the value.
\<close>

section \<open>Encoding\<close>

definition econn_proto_version :: string where
  "econn_proto_version = ''3.0''"

definition econn_props_encode :: "odict_val \<Rightarrow> econn_props option \<Rightarrow> int + odict_val" where
  "econn_props_encode jobj props =
     (case props of
        None \<Rightarrow> Inl EINVAL
      | Some p \<Rightarrow>
          (case jobj of
             ODICT_OBJECT od \<Rightarrow> Inr (ODICT_OBJECT (odict_entry_add od ''props'' (ODICT_OBJECT p)))
           | _ \<Rightarrow> Inl EINVAL))"

definition econn_message_encode :: "'f ld_ops \<Rightarrow> econn_message option \<Rightarrow> int + string" where
  "econn_message_encode ld msg =
     (case msg of
        None \<Rightarrow> Inl EINVAL
      | Some msg \<Rightarrow>
          (case jzon_creatf [(Some ''version'', Arg_s (Some econn_proto_version)),
                             (Some ''type'', Arg_s (Some (econn_msg_name (msg_type msg)))),
                             (Some ''sessid'', Arg_s (Some (sessid_sender msg)))] of
             Inl err \<Rightarrow> Inl err
           | Inr jobj \<Rightarrow>
               (let jobj = jzon_add_bool jobj ''resp'' (msg_resp msg);
                    with_sdp = (let jobj = jzon_add_str jobj ''sdp'' (sdp_msg msg)
                             in if setup_props msg \<noteq> None
                                then econn_props_encode jobj (setup_props msg)
                                else Inr jobj);
                    res = (case msg_type msg of
                             ECONN_SETUP \<Rightarrow> with_sdp
                           | ECONN_UPDATE \<Rightarrow> with_sdp
                           | ECONN_CANCEL \<Rightarrow> Inr jobj
                           | ECONN_HANGUP \<Rightarrow> Inr jobj
                           | ECONN_PROPSYNC \<Rightarrow>
                               if propsync_props msg = None then Inl EINVAL
                               else econn_props_encode jobj (propsync_props msg)
                           | ECONN_MSG_VALUE _ \<Rightarrow> Inl EBADMSG)
                in case res of
                     Inl err \<Rightarrow> Inl err
                   | Inr jobj \<Rightarrow> jzon_encode ld (Some jobj))))"

section \<open>Decoding\<close>

definition econn_props_decode :: "odict_val \<Rightarrow> int + econn_props" where
  "econn_props_decode jobj =
     (case jzon_object (Some jobj) (Some ''props'') of
        Inl err \<Rightarrow> Inl err
      | Inr jobj_props \<Rightarrow> Inr (econn_props_alloc (jzon_odict (Some jobj_props))))"

text \<open>The part of the message that depends on its type.\<close>

definition decode_setup :: "odict_val \<Rightarrow> econn_msg \<Rightarrow> econn_message \<Rightarrow> int + econn_message" where
  "decode_setup jobj mtype msg =
     (case jzon_str (Some jobj) (Some ''sdp'') of
        None \<Rightarrow> Inl EBADMSG
      | Some sdp \<Rightarrow>
          (case econn_props_decode jobj of
             Inl err \<Rightarrow> Inl err
           | Inr props \<Rightarrow>
               Inr (msg\<lparr>msg_type := mtype, sdp_msg := Some sdp, setup_props := Some props\<rparr>)))"

definition decode_body :: "odict_val \<Rightarrow> string \<Rightarrow> econn_message \<Rightarrow> int + econn_message" where
  "decode_body jobj type msg =
     (if str_casecmp (Some type) (Some ''setup'') = 0 then decode_setup jobj ECONN_SETUP msg
      else if str_casecmp (Some type) (Some ''update'') = 0 then decode_setup jobj ECONN_UPDATE msg
      else if str_casecmp (Some type) (Some ''cancel'') = 0 then Inr (msg\<lparr>msg_type := ECONN_CANCEL\<rparr>)
      else if str_casecmp (Some type) (Some ''hangup'') = 0 then Inr (msg\<lparr>msg_type := ECONN_HANGUP\<rparr>)
      else if str_casecmp (Some type) (Some ''propsync'') = 0 then
        (case econn_props_decode jobj of
           Inl err \<Rightarrow> Inl err
         | Inr props \<Rightarrow> Inr (msg\<lparr>msg_type := ECONN_PROPSYNC, propsync_props := Some props\<rparr>))
      else Inl EBADMSG)"

text \<open>A message without a session id leaves the error code at 0: the zeroed message is returned.\<close>

definition econn_message_decode ::
  "'f ld_ops \<Rightarrow> u64 \<Rightarrow> u64 \<Rightarrow> cptr \<Rightarrow> int + econn_message" where
  "econn_message_decode ld curr_time mtime str =
     (case str of
        None \<Rightarrow> Inl EINVAL
      | Some str \<Rightarrow>
          (case jzon_decode ld str of
             Inl err \<Rightarrow> Inl err
           | Inr jobj \<Rightarrow>
               (case jzon_str (Some jobj) (Some ''version'') of
                  None \<Rightarrow> Inl EBADMSG
                | Some ver \<Rightarrow>
                    if str_casecmp (Some econn_proto_version) (Some ver) \<noteq> 0 then Inl EPROTO
                    else case jzon_str (Some jobj) (Some ''type'') of
                           None \<Rightarrow> Inl EBADMSG
                         | Some type \<Rightarrow>
                             (case jzon_str (Some jobj) (Some ''sessid'') of
                                None \<Rightarrow> Inr econn_message_zero
                              | Some sessid \<Rightarrow>
                                  (let msg = econn_message_zero
                                         \<lparr>sessid_sender := str_ncpy [] (Some sessid) 64\<rparr>
                                   in case jzon_bool (Some jobj) (Some ''resp'') of
                                        Inl err \<Rightarrow> Inl err
                                      | Inr resp \<Rightarrow>
                                          (case decode_body jobj type (msg\<lparr>msg_resp := resp\<rparr>) of
                                             Inl err \<Rightarrow> Inl err
                                           | Inr msg \<Rightarrow>
                                               Inr (msg\<lparr>msg_time := ucast mtime,
                                                        msg_age := (if mtime > curr_time then 0
                                                                    else ucast (curr_time - mtime))\<rparr>)))))))"

section \<open>Round trip\<close>

text \<open>The dictionary a message is encoded to.\<close>

definition econn_message_odict :: "econn_message \<Rightarrow> odict" where
  "econn_message_odict msg =
     [(''version'', ODICT_STRING ''3.0''),
      (''type'', ODICT_STRING (econn_msg_name (msg_type msg))),
      (''sessid'', ODICT_STRING (sessid_sender msg)),
      (''resp'', ODICT_BOOL (msg_resp msg))] @
     (case msg_type msg of
        ECONN_PROPSYNC \<Rightarrow> [(''props'', ODICT_OBJECT (the (propsync_props msg)))]
      | ECONN_CANCEL \<Rightarrow> []
      | ECONN_HANGUP \<Rightarrow> []
      | _ \<Rightarrow> (''sdp'', case sdp_msg msg of None \<Rightarrow> ODICT_NULL | Some s \<Rightarrow> ODICT_STRING s) #
          (case setup_props msg of None \<Rightarrow> [] | Some p \<Rightarrow> [(''props'', ODICT_OBJECT p)]))"

definition props_clean :: "econn_props \<Rightarrow> bool" where
  "props_clean p \<longleftrightarrow>
     list_all (\<lambda>(k, v). CHR 0x00 \<notin> set k \<and>
       (case v of ODICT_STRING s \<Rightarrow> CHR 0x00 \<notin> set s | _ \<Rightarrow> False)) p"

text \<open>
  The messages the decoder accepts: strings without a zero byte, a session id that fits its
  buffer, and the parts that belong to the type of the message.
\<close>

definition econn_message_wf :: "econn_message \<Rightarrow> bool" where
  "econn_message_wf msg \<longleftrightarrow>
     CHR 0x00 \<notin> set (sessid_sender msg) \<and> length (sessid_sender msg) < 64 \<and>
     (case msg_type msg of
        ECONN_PROPSYNC \<Rightarrow> sdp_msg msg = None \<and> setup_props msg = None \<and>
          (\<exists>p. propsync_props msg = Some p \<and> props_clean p)
      | ECONN_MSG_VALUE _ \<Rightarrow> False
      | ECONN_CANCEL \<Rightarrow> sdp_msg msg = None \<and> setup_props msg = None \<and> propsync_props msg = None
      | ECONN_HANGUP \<Rightarrow> sdp_msg msg = None \<and> setup_props msg = None \<and> propsync_props msg = None
      | _ \<Rightarrow> propsync_props msg = None \<and>
          (\<exists>s p. sdp_msg msg = Some s \<and> CHR 0x00 \<notin> set s \<and> setup_props msg = Some p \<and> props_clean p))"

lemma props_cleanD:
  "props_clean p \<Longrightarrow> (k, v) \<in> set p \<Longrightarrow>
     CHR 0x00 \<notin> set k \<and> (\<exists>s. v = ODICT_STRING s \<and> CHR 0x00 \<notin> set s)"
  by (cases v) (auto simp: props_clean_def list_all_iff)

lemma props_clean_json:
  assumes "props_clean p"
  shows "json_ok ld (ODICT_OBJECT p)" and "json_depth (ODICT_OBJECT p) = 1"
proof -
  show "json_ok ld (ODICT_OBJECT p)"
    using props_cleanD [OF assms] by (fastforce simp: list_all_iff)
  have "\<forall>x \<in> set (map (\<lambda>(k, v). json_depth v) p). x \<le> 0"
    using props_cleanD [OF assms] by fastforce
  then show "json_depth (ODICT_OBJECT p) = 1"
    using fold_max_le [of "map (\<lambda>(k, v). json_depth v) p" 0 0] by simp
qed

lemma jzon_decode_encoded:
  assumes "json_ok ld (ODICT_OBJECT od)" and "json_depth (ODICT_OBJECT od) \<le> 9"
  shows "jzon_decode ld (json_encode_odict ld od) = Inr (ODICT_OBJECT od)"
proof -
  have "json_decode_odict ld (json_encode_odict ld od @ []) 8 = Inr od"
    using assms by (intro json_document_roundtrip) simp_all
  moreover have "\<exists>t. json_encode_odict ld od = CHR 0x7B # t" by (simp add: json_encode_odict_def)
  ultimately show ?thesis by (auto simp: jzon_decode_def)
qed

lemma econn_message_encode_odict:
  assumes "econn_message_wf msg"
  shows "econn_message_encode ld (Some msg) = Inr (json_encode_odict ld (econn_message_odict msg))"
  using assms
  by (auto simp: econn_message_encode_def econn_message_odict_def econn_message_wf_def Let_def
      jzon_add_defs jzon_encode_def jzon_print_def jzon_odict_def econn_props_encode_def
      econn_proto_version_def split: econn_msg.splits)

lemma econn_message_odict_json:
  assumes "econn_message_wf msg"
  shows "json_ok ld (ODICT_OBJECT (econn_message_odict msg))"
    and "json_depth (ODICT_OBJECT (econn_message_odict msg)) \<le> 9"
  using assms props_clean_json(1) [of _ ld] props_clean_json(2)
  by (auto simp: econn_message_odict_def econn_message_wf_def econn_msg_name_def
      split: econn_msg.splits)

lemma econn_message_odict_fields:
  "jzon_str (Some (ODICT_OBJECT (econn_message_odict msg))) (Some ''version'') = Some ''3.0''"
  "jzon_str (Some (ODICT_OBJECT (econn_message_odict msg))) (Some ''type'') =
     Some (econn_msg_name (msg_type msg))"
  "jzon_str (Some (ODICT_OBJECT (econn_message_odict msg))) (Some ''sessid'') = Some (sessid_sender msg)"
  "jzon_bool (Some (ODICT_OBJECT (econn_message_odict msg))) (Some ''resp'') = Inr (msg_resp msg)"
  by (simp_all add: jzon_get_defs econn_message_odict_def)

lemma type_names:
  "str_casecmp (Some ''SETUP'') (Some ''setup'') = 0"
  "str_casecmp (Some ''UPDATE'') (Some ''setup'') \<noteq> 0"
  "str_casecmp (Some ''UPDATE'') (Some ''update'') = 0"
  "str_casecmp (Some ''CANCEL'') (Some ''setup'') \<noteq> 0"
  "str_casecmp (Some ''CANCEL'') (Some ''update'') \<noteq> 0"
  "str_casecmp (Some ''CANCEL'') (Some ''cancel'') = 0"
  "str_casecmp (Some ''HANGUP'') (Some ''setup'') \<noteq> 0"
  "str_casecmp (Some ''HANGUP'') (Some ''update'') \<noteq> 0"
  "str_casecmp (Some ''HANGUP'') (Some ''cancel'') \<noteq> 0"
  "str_casecmp (Some ''HANGUP'') (Some ''hangup'') = 0"
  "str_casecmp (Some ''PROPSYNC'') (Some ''setup'') \<noteq> 0"
  "str_casecmp (Some ''PROPSYNC'') (Some ''update'') \<noteq> 0"
  "str_casecmp (Some ''PROPSYNC'') (Some ''cancel'') \<noteq> 0"
  "str_casecmp (Some ''PROPSYNC'') (Some ''hangup'') \<noteq> 0"
  "str_casecmp (Some ''PROPSYNC'') (Some ''propsync'') = 0"
  by code_simp+

lemma decode_body_names:
  "decode_body jobj ''SETUP'' m = decode_setup jobj ECONN_SETUP m"
  "decode_body jobj ''UPDATE'' m = decode_setup jobj ECONN_UPDATE m"
  "decode_body jobj ''CANCEL'' m = Inr (m\<lparr>msg_type := ECONN_CANCEL\<rparr>)"
  "decode_body jobj ''HANGUP'' m = Inr (m\<lparr>msg_type := ECONN_HANGUP\<rparr>)"
  "decode_body jobj ''PROPSYNC'' m =
     (case econn_props_decode jobj of
        Inl err \<Rightarrow> Inl err
      | Inr props \<Rightarrow> Inr (m\<lparr>msg_type := ECONN_PROPSYNC, propsync_props := Some props\<rparr>))"
  by (simp_all only: decode_body_def type_names simp_thms if_True if_False)

lemma props_decode_field:
  "odict_lookup od ''props'' = Some (ODICT_OBJECT p) \<Longrightarrow> econn_props_decode (ODICT_OBJECT od) = Inr p"
  by (simp add: econn_props_decode_def econn_props_alloc_def jzon_odict_def jzon_get_defs)

lemma decode_body_encoded:
  assumes "econn_message_wf msg" and "sdp_msg m0 = None" and "setup_props m0 = None"
    and "propsync_props m0 = None"
  shows "decode_body (ODICT_OBJECT (econn_message_odict msg)) (econn_msg_name (msg_type msg)) m0 =
    Inr (m0\<lparr>msg_type := msg_type msg, sdp_msg := sdp_msg msg, setup_props := setup_props msg,
            propsync_props := propsync_props msg\<rparr>)"
proof -
  let ?od = "econn_message_odict msg"
  have su: "decode_setup (ODICT_OBJECT ?od) mt m0 =
      Inr (m0\<lparr>msg_type := mt, sdp_msg := sdp_msg msg, setup_props := setup_props msg\<rparr>)"
    if mt: "msg_type msg \<in> {ECONN_SETUP, ECONN_UPDATE}" for mt
  proof -
    obtain s p where sp: "sdp_msg msg = Some s" "setup_props msg = Some p"
      using assms(1) mt by (auto simp: econn_message_wf_def)
    then have "odict_lookup ?od ''props'' = Some (ODICT_OBJECT p)"
      "odict_lookup ?od ''sdp'' = Some (ODICT_STRING s)"
      using mt by (auto simp: econn_message_odict_def)
    then show ?thesis
      using sp by (simp add: decode_setup_def props_decode_field jzon_str_def
          json_object_object_get_ex_def json_object_get_string_def)
  qed
  show ?thesis
  proof (cases "msg_type msg")
    case ECONN_PROPSYNC
    then obtain p where p: "propsync_props msg = Some p"
      using assms(1) by (auto simp: econn_message_wf_def)
    have "econn_props_decode (ODICT_OBJECT ?od) = Inr p"
      using ECONN_PROPSYNC p by (intro props_decode_field) (simp add: econn_message_odict_def)
    then show ?thesis
      using assms ECONN_PROPSYNC p
      by (cases m0) (simp add: econn_msg_name_def decode_body_names econn_message_wf_def)
  qed (use assms su in \<open>cases m0, simp add: econn_msg_name_def decode_body_names
      econn_message_wf_def\<close>)+
qed

lemma econn_message_decode_encoded:
  assumes "econn_message_wf msg"
  shows "econn_message_decode ld now t (Some (json_encode_odict ld (econn_message_odict msg))) =
    Inr (msg\<lparr>msg_time := ucast t, msg_age := (if t > now then 0 else ucast (now - t))\<rparr>)"
proof -
  let ?od = "econn_message_odict msg"
  let ?m0 = "econn_message_zero\<lparr>sessid_sender := sessid_sender msg, msg_resp := msg_resp msg\<rparr>"
  have "str_ncpy [] (Some (sessid_sender msg)) 64 = sessid_sender msg"
    using assms by (simp add: econn_message_wf_def str_ncpy_def)
  moreover have "str_casecmp (Some econn_proto_version) (Some ''3.0'') = 0"
    by (simp add: econn_proto_version_def str_casecmp_0_iff)
  moreover have "jzon_decode ld (json_encode_odict ld ?od) = Inr (ODICT_OBJECT ?od)"
    using econn_message_odict_json [OF assms] by (intro jzon_decode_encoded) simp_all
  moreover have "decode_body (ODICT_OBJECT ?od) (econn_msg_name (msg_type msg)) ?m0 =
      Inr (?m0\<lparr>msg_type := msg_type msg, sdp_msg := sdp_msg msg, setup_props := setup_props msg,
               propsync_props := propsync_props msg\<rparr>)"
    using assms by (rule decode_body_encoded) (simp_all add: econn_message_zero_def)
  ultimately have "econn_message_decode ld now t (Some (json_encode_odict ld ?od)) =
      Inr (?m0\<lparr>msg_type := msg_type msg, sdp_msg := sdp_msg msg, setup_props := setup_props msg,
               propsync_props := propsync_props msg, msg_time := ucast t,
               msg_age := (if t > now then 0 else ucast (now - t))\<rparr>)"
    by (simp add: econn_message_decode_def econn_message_odict_fields)
  then show ?thesis by (cases msg) (simp add: econn_message_zero_def)
qed

section \<open>Properties\<close>

text \<open>
  C12. A call message survives the wire: the text a complete message is encoded to is decoded to the
  same message, stamped with the time it was received and its age.
\<close>

theorem econn_message_roundtrip:
  assumes "econn_message_wf msg"
  shows "\<exists>str. econn_message_encode ld (Some msg) = Inr str \<and>
    econn_message_decode ld now t (Some str) =
      Inr (msg\<lparr>msg_time := ucast t, msg_age := (if t > now then 0 else ucast (now - t))\<rparr>)"
  using econn_message_encode_odict [OF assms] econn_message_decode_encoded [OF assms] by blast

theorem econn_message_roundtrip_witness:
  "\<exists>str. econn_message_encode ld_rat (Some ((econn_message_init ECONN_SETUP (Some ''s1''))
       \<lparr>sdp_msg := Some ''v=0'', setup_props := Some [(''videosend'', ODICT_STRING ''true'')]\<rparr>)) = Inr str \<and>
    econn_message_decode ld_rat 5 3 (Some str) =
      Inr ((econn_message_init ECONN_SETUP (Some ''s1''))
       \<lparr>sdp_msg := Some ''v=0'', setup_props := Some [(''videosend'', ODICT_STRING ''true'')],
        msg_time := 3, msg_age := 2\<rparr>)"
proof -
  let ?m = "(econn_message_init ECONN_SETUP (Some ''s1''))
       \<lparr>sdp_msg := Some ''v=0'', setup_props := Some [(''videosend'', ODICT_STRING ''true'')]\<rparr>"
  have "econn_message_wf ?m"
    by (simp add: econn_message_wf_def props_clean_def econn_message_init_def econn_message_zero_def
        str_ncpy_def)
  from econn_message_roundtrip [OF this, of ld_rat 5 3] show ?thesis by simp
qed

text \<open>
  A message without a session id is accepted: decoding reports success although no field of the
  message is filled in, and its type is none of the message types.
\<close>

theorem econn_message_no_sessid:
  assumes "jzon_decode ld str = Inr jobj"
    and "jzon_str (Some jobj) (Some ''version'') = Some ''3.0''"
    and "jzon_str (Some jobj) (Some ''type'') = Some type"
    and "jzon_str (Some jobj) (Some ''sessid'') = None"
  shows "econn_message_decode ld now t (Some str) = Inr econn_message_zero \<and>
    msg_type econn_message_zero = ECONN_MSG_VALUE 0"
  using assms
  by (simp add: econn_message_decode_def econn_proto_version_def str_casecmp_0_iff
      econn_message_zero_def)

theorem econn_message_no_sessid_witness:
  "econn_message_decode ld_rat 5 3 (Some (json_encode_odict ld_rat
      [(''version'', ODICT_STRING ''3.0''), (''type'', ODICT_STRING ''CANCEL'')])) =
   Inr econn_message_zero"
proof -
  let ?od = "[(''version'', ODICT_STRING ''3.0''), (''type'', ODICT_STRING ''CANCEL'')]"
  have "jzon_decode ld_rat (json_encode_odict ld_rat ?od) = Inr (ODICT_OBJECT ?od)"
    by (rule jzon_decode_encoded) simp_all
  from econn_message_no_sessid [OF this] show ?thesis by (simp add: jzon_get_defs)
qed

text \<open>
  C40. The encoder and the decoder disagree on which properties are optional: a SETUP or UPDATE with
  an SDP and no properties is encoded without an error, and the text is rejected by the decoder.
\<close>

theorem econn_message_optional_props:
  assumes "msg_type msg \<in> {ECONN_SETUP, ECONN_UPDATE}" and "sdp_msg msg = Some sdp"
    and "setup_props msg = None"
    and "CHR 0x00 \<notin> set (sessid_sender msg)" and "CHR 0x00 \<notin> set sdp"
  shows "\<exists>str. econn_message_encode ld (Some msg) = Inr str \<and>
    econn_message_decode ld now t (Some str) = Inl ENOENT"
proof -
  let ?od = "econn_message_odict msg"
  have "econn_message_encode ld (Some msg) = Inr (json_encode_odict ld ?od)"
    using assms(1-3)
    by (auto simp: econn_message_encode_def econn_message_odict_def jzon_add_defs jzon_encode_def
        jzon_print_def jzon_odict_def econn_proto_version_def)
  moreover have "jzon_decode ld (json_encode_odict ld ?od) = Inr (ODICT_OBJECT ?od)"
    using assms by (intro jzon_decode_encoded) (auto simp: econn_message_odict_def econn_msg_name_def)
  moreover have "decode_body (ODICT_OBJECT ?od) (econn_msg_name (msg_type msg)) m0 = Inl ENOENT" for m0
    using assms(1-3)
    by (auto simp: econn_msg_name_def decode_body_names decode_setup_def econn_message_odict_def
        econn_props_decode_def jzon_get_defs)
  moreover have "str_casecmp (Some econn_proto_version) (Some ''3.0'') = 0"
    by (simp add: econn_proto_version_def str_casecmp_0_iff)
  ultimately show ?thesis by (simp add: econn_message_decode_def econn_message_odict_fields)
qed

theorem econn_message_optional_props_witness:
  "\<exists>str. econn_message_encode ld_rat (Some ((econn_message_init ECONN_UPDATE (Some ''s''))
      \<lparr>sdp_msg := Some ''v''\<rparr>)) = Inr str \<and>
    econn_message_decode ld_rat 1 1 (Some str) = Inl ENOENT"
  by (rule econn_message_optional_props [where sdp = "''v''"]) (simp_all add: str_ncpy_def)

text \<open>
  \<^verbatim>\<open>jzon_double\<close> accepts an integer field, and reads it as 0.0 whatever its value is.
\<close>

theorem jzon_double_of_int:
  assumes "odict_lookup od key = Some (ODICT_INT i)"
  shows "jzon_double (Some (ODICT_OBJECT od)) (Some key) = Inr 0"
  using assms
  by (simp add: jzon_double_def json_object_object_get_ex_def json_object_get_double_def)

theorem jzon_double_of_int_witness:
  "jzon_double (Some (ODICT_OBJECT [(''x'', ODICT_INT 5)])) (Some ''x'') = Inr 0"
  by (rule jzon_double_of_int [of _ _ 5]) simp

end
