(* ===== verification/Ecall.thy ===== *)
theory Ecall
  imports Econn Econn_Fmt
begin

text \<open>
  One call in one conversation, \<^verbatim>\<open>struct ecall\<close>: \<^verbatim>\<open>src/ecall/ecall.c\<close> and \<^verbatim>\<open>ecall.h\<close>. A call owns at most
  one connection (theory \<open>Econn\<close>) and at most one media flow, and it connects the two: it gives the
  connection its transport and its callbacks, and it reacts to the media flow's events.

  The media engine (\<^verbatim>\<open>src/media\<close>, \<^verbatim>\<open>src/dce\<close>), the network interfaces and the clock are a record of
  functions \<open>media\<close> about which nothing is assumed; \<open>'m\<close> is the state of a media flow. Its
  operations return an error for a \<^verbatim>\<open>NULL\<close> media flow, and call no handler before they return. The
  user of the call is a record \<open>ecall_h\<close> of callbacks over its own state \<open>'w\<close>.

  Two kinds of undefined behaviour the code does not exclude are recorded in the flag \<open>el_ub\<close>: use
  of the data channel of a media flow that has been released (each media flow has a number, and
  \<open>el_dce\<close> and \<open>el_dce_ch\<close> remember the one their pointers belong to), and reading a property that
  is not a string.
\<close>

section \<open>State\<close>

datatype async_sdp = ASYNC_NONE | ASYNC_OFFER | ASYNC_ANSWER | ASYNC_COMPLETE

datatype ecall_tmr = Tmr_channel_estab | Tmr_media_start

type_synonym sockaddr = string

record ecall_conf =
  econf :: econn_conf
  nat_dualstack :: bool

record 'm ecall =
  el_conf :: ecall_conf
  el_econn :: "econn option"
  el_mf :: "(nat \<times> 'm) option"
  el_nmf :: nat
  el_dce :: "nat option"
  el_dce_ch :: "nat option"
  el_tmr :: "ecall_tmr tmr"
  el_media_start_tmr :: "ecall_tmr tmr"
  el_props_local :: econn_props
  el_props_remote :: "econn_props option"
  el_convid :: string
  el_userid_self :: cptr
  el_clientid :: cptr
  el_async :: async_sdp
  el_turn_srv :: "sockaddr option"
  el_turn_user :: cptr
  el_turn_pass :: cptr
  el_econn_pending :: bool
  el_answered :: bool
  el_update :: bool
  el_call_setup_time :: i32
  el_call_estab_time :: i32
  el_audio_setup_time :: i32
  el_ts_started :: u64
  el_ts_answered :: u64
  el_closeh :: bool
  el_ub :: bool

text \<open>
  The statistics of the media engine the metrics of a call are made of; \<open>'f\<close> is the type of
  floating point numbers, and only the members that are read are listed.
\<close>

record 'f max_min_avg =
  mma_max :: 'f
  mma_min :: 'f
  mma_avg :: 'f

record 'f aucodec_stats =
  out_vol :: "'f max_min_avg"
  in_vol :: "'f max_min_avg"
  loss_d :: "'f max_min_avg"
  loss_u :: "'f max_min_avg"
  rtt :: "'f max_min_avg"
  jb_size :: "'f max_min_avg"
  audio_route :: string

record 'f rtp_stats =
  bit_rate_stats :: "'f max_min_avg"
  pkt_rate_stats :: "'f max_min_avg"
  pkt_loss_stats :: "'f max_min_avg"
  frame_rate_stats :: "'f max_min_avg"
  dropouts :: i32

record mediaflow_stats =
  turn_alloc :: i32
  nat_estab :: i32
  dtls_estab :: i32

text \<open>The media engine and the platform; \<open>float_to_int\<close> is the conversion of C.\<close>

record ('m, 'w, 'f) media =
  mo_ld :: "'f ld_ops"
  tmr_jiffies :: "'w \<Rightarrow> u64"
  source_addr :: "'w \<Rightarrow> sockaddr option"
  get_loopback :: "'w \<Rightarrow> bool"
  net_ifs :: "'w \<Rightarrow> (string \<times> sockaddr \<times> bool) list"
  rand_sessid :: "'w \<Rightarrow> string"
  mediaflow_alloc :: "sockaddr \<Rightarrow> 'w \<Rightarrow> int \<times> 'm"
  mediaflow_configure :: "string \<Rightarrow> 'm \<Rightarrow> 'm"
  mediaflow_add_video :: "'m \<Rightarrow> int \<times> 'm"
  mediaflow_has_dce :: "'m \<Rightarrow> bool"
  dce_channel_alloc :: "'m \<Rightarrow> int \<times> 'm"
  mediaflow_add_data :: "'m \<Rightarrow> int \<times> 'm"
  mediaflow_add_local_host_candidate :: "string \<Rightarrow> sockaddr \<Rightarrow> 'm \<Rightarrow> int \<times> 'm"
  mediaflow_gather_turn :: "sockaddr option \<Rightarrow> cptr \<Rightarrow> cptr \<Rightarrow> 'm \<Rightarrow> int \<times> 'm"
  mediaflow_handle_offer :: "cptr \<Rightarrow> 'm \<Rightarrow> int \<times> 'm"
  mediaflow_handle_answer :: "cptr \<Rightarrow> 'm \<Rightarrow> int \<times> 'm"
  mediaflow_generate_offer :: "'m \<Rightarrow> (int + string) \<times> 'm"
  mediaflow_generate_answer :: "'m \<Rightarrow> (int + string) \<times> 'm"
  mediaflow_start_ice :: "'m \<Rightarrow> int \<times> 'm"
  mediaflow_start_media :: "'m \<Rightarrow> int \<times> 'm"
  mediaflow_stop_media :: "'m \<Rightarrow> 'm"
  mediaflow_sdpstate_reset :: "'m \<Rightarrow> 'm"
  mediaflow_reset_media :: "'m \<Rightarrow> 'm"
  mediaflow_set_video_send_active :: "bool \<Rightarrow> 'm \<Rightarrow> int \<times> 'm"
  mediaflow_has_data :: "'m \<Rightarrow> bool"
  mediaflow_has_video :: "'m \<Rightarrow> bool"
  mediaflow_is_gathered :: "'m \<Rightarrow> bool"
  mediaflow_is_ready :: "'m \<Rightarrow> bool"
  mediaflow_is_sdp_offerer :: "'m \<Rightarrow> bool"
  mediaflow_get_audio_cbr :: "'m \<Rightarrow> bool"
  dce_send :: "string \<Rightarrow> 'm \<Rightarrow> int \<times> 'm"
  dce_is_chan_open :: "'m \<Rightarrow> bool"
  dce_open_chan :: "'m \<Rightarrow> int \<times> 'm"
  avs_version_str :: string
  float_to_int :: "'f \<Rightarrow> i32"
  mediaflow_dtls_ready :: "'m \<Rightarrow> bool"
  mediaflow_ice_ready :: "'m \<Rightarrow> bool"
  mediaflow_get_media_time :: "'m \<Rightarrow> i32"
  mediaflow_codec_stats :: "'m \<Rightarrow> 'f aucodec_stats option"
  mediaflow_rcv_audio_rtp_stats :: "'m \<Rightarrow> 'f rtp_stats option"
  mediaflow_snd_audio_rtp_stats :: "'m \<Rightarrow> 'f rtp_stats option"
  mediaflow_rcv_video_rtp_stats :: "'m \<Rightarrow> 'f rtp_stats option"
  mediaflow_snd_video_rtp_stats :: "'m \<Rightarrow> 'f rtp_stats option"
  mediaflow_stats_get :: "'m \<Rightarrow> mediaflow_stats option"

text \<open>The callbacks of the user of a call. They read the call.\<close>

record ('m, 'w) ecall_h =
  lh_connh :: "(string \<Rightarrow> bool \<Rightarrow> 'm ecall \<Rightarrow> 'w \<Rightarrow> 'w) option"
  lh_answerh :: "('m ecall \<Rightarrow> 'w \<Rightarrow> 'w) option"
  lh_missedh :: "(u32 \<Rightarrow> string \<Rightarrow> bool \<Rightarrow> 'm ecall \<Rightarrow> 'w \<Rightarrow> 'w) option"
  lh_media_estabh :: "(bool \<Rightarrow> 'm ecall \<Rightarrow> 'w \<Rightarrow> 'w) option"
  lh_audio_estabh :: "(bool \<Rightarrow> 'm ecall \<Rightarrow> 'w \<Rightarrow> 'w) option"
  lh_datachan_estabh :: "(bool \<Rightarrow> 'm ecall \<Rightarrow> 'w \<Rightarrow> 'w) option"
  lh_propsynch :: "('m ecall \<Rightarrow> 'w \<Rightarrow> 'w) option"
  lh_closeh :: "int \<Rightarrow> cptr \<Rightarrow> 'm ecall \<Rightarrow> 'w \<Rightarrow> 'w"
  lh_sendh :: "cptr \<Rightarrow> string \<Rightarrow> 'm ecall \<Rightarrow> 'w \<Rightarrow> int \<times> 'w"

section \<open>The media flow of a call\<close>

definition mf_do :: "('m \<Rightarrow> int \<times> 'm) \<Rightarrow> 'm ecall \<Rightarrow> int \<times> 'm ecall" where
  "mf_do f e =
     (case el_mf e of
        None \<Rightarrow> (EINVAL, e)
      | Some (i, m) \<Rightarrow> (let (err, m') = f m in (err, e\<lparr>el_mf := Some (i, m')\<rparr>)))"

definition mf_upd :: "('m \<Rightarrow> 'm) \<Rightarrow> 'm ecall \<Rightarrow> 'm ecall" where
  "mf_upd f e = (case el_mf e of None \<Rightarrow> e | Some (i, m) \<Rightarrow> e\<lparr>el_mf := Some (i, f m)\<rparr>)"

definition mf_ask :: "('m \<Rightarrow> bool) \<Rightarrow> 'm ecall \<Rightarrow> bool" where
  "mf_ask f e = (case el_mf e of None \<Rightarrow> False | Some (i, m) \<Rightarrow> f m)"

definition mf_sdp :: "('m \<Rightarrow> (int + string) \<times> 'm) \<Rightarrow> 'm ecall \<Rightarrow> (int + string) \<times> 'm ecall" where
  "mf_sdp f e =
     (case el_mf e of
        None \<Rightarrow> (Inl EINVAL, e)
      | Some (i, m) \<Rightarrow> (let (r, m') = f m in (r, e\<lparr>el_mf := Some (i, m')\<rparr>)))"

text \<open>Is a pointer to the data channel, or to its end point, one into the current media flow?\<close>

definition dce_live :: "nat option \<Rightarrow> 'm ecall \<Rightarrow> bool" where
  "dce_live p e \<longleftrightarrow> p = None \<or> p = map_option fst (el_mf e)"

definition dce_do :: "('m \<Rightarrow> int \<times> 'm) \<Rightarrow> 'm ecall \<Rightarrow> int \<times> 'm ecall" where
  "dce_do f e =
     (if el_dce e = None \<or> el_dce_ch e = None then (EINVAL, e)
      else if dce_live (el_dce e) e \<and> dce_live (el_dce_ch e) e then mf_do f e
      else (EINVAL, e\<lparr>el_ub := True\<rparr>))"

definition chan_open :: "('m, 'w, 'f) media \<Rightarrow> 'm ecall \<Rightarrow> bool \<times> 'm ecall" where
  "chan_open P e =
     (if el_dce_ch e = None then (False, e)
      else if dce_live (el_dce_ch e) e then (mf_ask (dce_is_chan_open P) e, e)
      else (False, e\<lparr>el_ub := True\<rparr>))"

section \<open>Closing, and sending\<close>

definition stats_has_video :: "('m, 'w, 'f) media \<Rightarrow> 'm \<Rightarrow> bool" where
  "stats_has_video P m =
     (case mediaflow_snd_video_rtp_stats P m of
        None \<Rightarrow> False
      | Some rtps \<Rightarrow> mma_max (bit_rate_stats rtps) \<noteq> ld_of_int (mo_ld P) (-1))"

definition add_ints :: "(string \<times> i32) list \<Rightarrow> odict_val \<Rightarrow> odict_val" where
  "add_ints xs jobj = fold (\<lambda>(k, v) j. jzon_add_int j k v) xs jobj"

definition add_opt :: "'a option \<Rightarrow> ('a \<Rightarrow> odict_val \<Rightarrow> odict_val) \<Rightarrow> odict_val \<Rightarrow> odict_val" where
  "add_opt x f jobj = (case x of None \<Rightarrow> jobj | Some a \<Rightarrow> f a jobj)"

definition codec_ints :: "('f \<Rightarrow> i32) \<Rightarrow> 'f aucodec_stats \<Rightarrow> (string \<times> i32) list" where
  "codec_ints fi v =
     [(''mic_vol(dB)'', fi (mma_avg (in_vol v))), (''spk_vol(dB)'', fi (mma_avg (out_vol v))),
      (''avg_rtt'', fi (mma_avg (rtt v))), (''max_rtt'', fi (mma_max (rtt v))),
      (''avg_jb_loss'', fi (mma_avg (loss_d v))), (''max_jb_loss'', fi (mma_max (loss_d v))),
      (''avg_jb_size'', fi (mma_avg (jb_size v))), (''max_jb_size'', fi (mma_max (jb_size v))),
      (''avg_loss_u'', fi (mma_avg (loss_u v))), (''max_loss_u'', fi (mma_max (loss_u v)))]"

definition rcv_audio_ints :: "('f \<Rightarrow> i32) \<Rightarrow> 'f rtp_stats \<Rightarrow> (string \<times> i32) list" where
  "rcv_audio_ints fi r =
     [(''avg_loss_d'', fi (mma_avg (pkt_loss_stats r))), (''max_loss_d'', fi (mma_max (pkt_loss_stats r))),
      (''avg_rate_d'', fi (mma_avg (bit_rate_stats r))), (''min_rate_d'', fi (mma_min (bit_rate_stats r))),
      (''avg_pkt_rate_d'', fi (mma_avg (pkt_rate_stats r))),
      (''min_pkt_rate_d'', fi (mma_min (pkt_rate_stats r))), (''a_dropouts'', dropouts r)]"

definition snd_audio_ints :: "('f \<Rightarrow> i32) \<Rightarrow> 'f rtp_stats \<Rightarrow> (string \<times> i32) list" where
  "snd_audio_ints fi r =
     [(''avg_rate_u'', fi (mma_avg (bit_rate_stats r))), (''min_rate_u'', fi (mma_min (bit_rate_stats r))),
      (''avg_pkt_rate_u'', fi (mma_avg (pkt_rate_stats r))),
      (''min_pkt_rate_u'', fi (mma_min (pkt_rate_stats r)))]"

definition rcv_video_ints :: "('f \<Rightarrow> i32) \<Rightarrow> 'f rtp_stats \<Rightarrow> (string \<times> i32) list" where
  "rcv_video_ints fi r =
     [(''v_avg_rate_d'', fi (mma_avg (bit_rate_stats r))),
      (''v_min_rate_d'', fi (mma_min (bit_rate_stats r))),
      (''v_max_rate_d'', fi (mma_max (bit_rate_stats r))),
      (''v_avg_frame_rate_d'', fi (mma_avg (frame_rate_stats r))),
      (''v_min_frame_rate_d'', fi (mma_min (frame_rate_stats r))),
      (''v_max_frame_rate_d'', fi (mma_max (frame_rate_stats r))), (''v_dropouts'', dropouts r)]"

definition snd_video_ints :: "('f \<Rightarrow> i32) \<Rightarrow> 'f rtp_stats \<Rightarrow> (string \<times> i32) list" where
  "snd_video_ints fi r =
     [(''v_avg_rate_u'', fi (mma_avg (bit_rate_stats r))),
      (''v_min_rate_u'', fi (mma_min (bit_rate_stats r))),
      (''v_max_rate_u'', fi (mma_max (bit_rate_stats r))),
      (''v_avg_frame_rate_u'', fi (mma_avg (frame_rate_stats r))),
      (''v_min_frame_rate_u'', fi (mma_min (frame_rate_stats r))),
      (''v_max_frame_rate_u'', fi (mma_max (frame_rate_stats r)))]"

definition ecall_stats_prepare ::
  "('m, 'w, 'f) media \<Rightarrow> 'm ecall \<Rightarrow> odict_val \<Rightarrow> int \<Rightarrow> bool \<times> odict_val" where
  "ecall_stats_prepare P e jobj ecall_err =
     (case el_mf e of
        None \<Rightarrow> (False, jobj)
      | Some (i, m) \<Rightarrow>
          if \<not> el_answered e then (False, jobj)
          else
            let fi = float_to_int P;
                j = json_object_object_add jobj (Some ''version'')
                      (json_object_new_string (Some (avs_version_str P)));
                j = json_object_object_add j (Some ''protocol-version'')
                      (json_object_new_string (Some econn_proto_version));
                j = add_ints [(''estab_time(ms)'', el_call_estab_time e),
                              (''setup_time(ms)'', el_call_setup_time e),
                              (''audio_setup_time(ms)'', el_audio_setup_time e)] j;
                j = jzon_add_bool j ''dtls'' (mediaflow_dtls_ready P m);
                j = jzon_add_bool j ''ice'' (mediaflow_ice_ready P m);
                j = jzon_add_bool j ''video'' (stats_has_video P m);
                j = jzon_add_int j ''media_time(ms)'' (mediaflow_get_media_time P m);
                j = add_opt (mediaflow_codec_stats P m) (\<lambda>v. add_ints (codec_ints fi v)) j;
                j = add_opt (mediaflow_rcv_audio_rtp_stats P m) (\<lambda>r. add_ints (rcv_audio_ints fi r)) j;
                j = add_opt (mediaflow_snd_audio_rtp_stats P m) (\<lambda>r. add_ints (snd_audio_ints fi r)) j;
                j = add_opt (mediaflow_codec_stats P m)
                      (\<lambda>v j. jzon_add_str j ''audio_route'' (Some (audio_route v))) j;
                j = add_opt (mediaflow_rcv_video_rtp_stats P m) (\<lambda>r. add_ints (rcv_video_ints fi r)) j;
                j = add_opt (mediaflow_snd_video_rtp_stats P m) (\<lambda>r. add_ints (snd_video_ints fi r)) j;
                j = add_opt (mediaflow_stats_get P m)
                      (\<lambda>s. add_ints [(''turn_alloc'', turn_alloc s), (''nat_estab'', nat_estab s),
                                      (''dtls_estab'', dtls_estab s)]) j;
                j = jzon_add_int j ''ecall_error'' (word_of_int ecall_err)
            in (True, j))"

definition ecall_close ::
  "('m, 'w, 'f) media \<Rightarrow> ('m, 'w) ecall_h \<Rightarrow> int \<Rightarrow> 'm ecall \<times> 'w \<Rightarrow> 'm ecall \<times> 'w" where
  "ecall_close P H err = (\<lambda>(e, w).
     let closeh = el_closeh e;
         json_str = (case ecall_stats_prepare P e (ODICT_OBJECT []) err of
                       (False, _) \<Rightarrow> None
                     | (True, jobj) \<Rightarrow>
                         (case jzon_encode (mo_ld P) (Some jobj) of
                            Inl _ \<Rightarrow> None
                          | Inr s \<Rightarrow> Some s));
         e = e\<lparr>el_mf := None\<rparr>
     in if closeh then
          (let e = e\<lparr>el_closeh := False\<rparr> in (e, lh_closeh H err json_str e w))
        else (e, w))"

definition ecall_send_handler ::
  "('m, 'w, 'f) media \<Rightarrow> ('m, 'w) ecall_h \<Rightarrow> econn \<Rightarrow> econn_message \<Rightarrow> 'm ecall \<times> 'w \<Rightarrow>
     int \<times> 'm ecall \<times> 'w" where
  "ecall_send_handler P H c msg = (\<lambda>(e, w).
     case econn_message_encode (mo_ld P) (Some msg) of
       Inl err \<Rightarrow> (err, e, w)
     | Inr str \<Rightarrow>
         let via_se = (let (err, w) = lh_sendh H (el_userid_self e) str e w in (err, e, w));
             via_dc = (let (err, e) = dce_do (dce_send P str) e in (err, e, w))
         in case msg_type msg of
              ECONN_SETUP \<Rightarrow> via_se
            | ECONN_UPDATE \<Rightarrow> via_se
            | ECONN_CANCEL \<Rightarrow> via_se
            | ECONN_HANGUP \<Rightarrow> via_dc
            | ECONN_PROPSYNC \<Rightarrow> via_dc
            | ECONN_MSG_VALUE _ \<Rightarrow> (EPROTO, e, w))"

text \<open>
  The transport alone, for the operations of a connection that call no callback; the callbacks
  below use it when they answer.
\<close>

definition ecall_transp :: "('m, 'w, 'f) media \<Rightarrow> ('m, 'w) ecall_h \<Rightarrow> ('m ecall \<times> 'w) econn_h" where
  "ecall_transp P H =
     \<lparr>eh_sendh = Some (ecall_send_handler P H), eh_connh = None, eh_answerh = None,
      eh_update_reqh = None, eh_update_resph = None, eh_closeh = (\<lambda>err s. s)\<rparr>"

text \<open>An operation on the connection of the call; the error is for a call without one.\<close>

definition with_econn ::
  "(econn \<times> 'm ecall \<times> 'w \<Rightarrow> int \<times> econn \<times> 'm ecall \<times> 'w) \<Rightarrow> 'm ecall \<times> 'w \<Rightarrow> int \<times> 'm ecall \<times> 'w"
  where
  "with_econn f = (\<lambda>(e, w).
     case el_econn e of
       None \<Rightarrow> (EINVAL, e, w)
     | Some c \<Rightarrow> (let (err, c, e, w) = f (c, e, w) in (err, e\<lparr>el_econn := Some c\<rparr>, w)))"

definition econn_upd :: "(econn \<Rightarrow> econn) \<Rightarrow> 'm ecall \<Rightarrow> 'm ecall" where
  "econn_upd f e = e\<lparr>el_econn := map_option f (el_econn e)\<rparr>"

definition ecall_props_get_local :: "'m ecall \<Rightarrow> string \<Rightarrow> strptr" where
  "ecall_props_get_local e key =
     (if el_econn e = None then Null else econn_props_get (Some (el_props_local e)) (Some key))"

definition ecall_props_get_remote :: "'m ecall \<Rightarrow> string \<Rightarrow> strptr" where
  "ecall_props_get_remote e key =
     (if el_econn e = None then Null else econn_props_get (el_props_remote e) (Some key))"

text \<open>\<^verbatim>\<open>vr && strcmp (vr, "true") == 0\<close>, and whether that reads a wild pointer.\<close>

definition prop_is_true :: "strptr \<Rightarrow> bool" where
  "prop_is_true vr = (case vr of Str s \<Rightarrow> strcmp s ''true'' = 0 | _ \<Rightarrow> False)"

definition prop_is_wild :: "strptr \<Rightarrow> bool" where
  "prop_is_wild vr = (case vr of Wild _ \<Rightarrow> True | _ \<Rightarrow> False)"

text \<open>\<^verbatim>\<open>if (dce_is_chan_open (ecall->dce_ch)) econn_set_datachan_established (econn)\<close>\<close>

definition chan_estab :: "('m, 'w, 'f) media \<Rightarrow> 'm ecall \<Rightarrow> 'm ecall" where
  "chan_estab P e =
     (let (is_open, e) = chan_open P e
      in if is_open then econn_upd econn_set_datachan_established e else e)"

section \<open>Creating the media flow\<close>

definition interface_handler ::
  "('m, 'w, 'f) media \<Rightarrow> string \<times> sockaddr \<times> bool \<Rightarrow> 'm ecall \<Rightarrow> 'm ecall" where
  "interface_handler P = (\<lambda>(ifname, sa, local) e.
     if local then e else snd (mf_do (mediaflow_add_local_host_candidate P ifname sa) e))"

definition mf_tag :: "'m ecall \<Rightarrow> string" where
  "mf_tag e =
     take 63 (case_option [] id (el_userid_self e) @ ''.'' @ case_option [] id (el_clientid e))"

text \<open>
  The steps after the media flow exists. A missing data channel end point skips the rest without an
  error.
\<close>

definition setup_mediaflow :: "('m, 'w, 'f) media \<Rightarrow> 'm ecall \<times> 'w \<Rightarrow> int \<times> 'm ecall" where
  "setup_mediaflow P = (\<lambda>(e, w).
     let e = mf_upd (mediaflow_configure P (mf_tag e)) e;
         (err, e) = mf_do (mediaflow_add_video P) e
     in if err \<noteq> 0 then (err, e)
        else if \<not> mf_ask (mediaflow_has_dce P) e then (0, e\<lparr>el_dce := None\<rparr>)
        else
          let e = e\<lparr>el_dce := map_option fst (el_mf e)\<rparr>;
              (err, e) = mf_do (dce_channel_alloc P) e
          in if err \<noteq> 0 then (err, e)
             else
               let e = e\<lparr>el_dce_ch := map_option fst (el_mf e)\<rparr>;
                   (err, e) = mf_do (mediaflow_add_data P) e
               in if err \<noteq> 0 then (err, e)
                  else if \<not> nat_dualstack (el_conf e) then (0, e)
                  else
                    let e = fold (interface_handler P) (net_ifs P w) e
                    in mf_do (mediaflow_gather_turn P (el_turn_srv e) (el_turn_user e)
                                (el_turn_pass e)) e)"

definition alloc_mediaflow :: "('m, 'w, 'f) media \<Rightarrow> 'm ecall \<times> 'w \<Rightarrow> int \<times> 'm ecall" where
  "alloc_mediaflow P = (\<lambda>(e, w).
     let laddr = (case source_addr P w of
                    Some a \<Rightarrow> Some a
                  | None \<Rightarrow> if get_loopback P w then Some ''127.0.0.1'' else None);
         (err, e) = (case laddr of
                       None \<Rightarrow> (EAFNOSUPPORT, e)
                     | Some a \<Rightarrow>
                         let (err, m) = mediaflow_alloc P a w
                         in if err \<noteq> 0 then (err, e)
                            else setup_mediaflow P
                                   (e\<lparr>el_mf := Some (el_nmf e, m), el_nmf := Suc (el_nmf e)\<rparr>, w))
     in if err \<noteq> 0 then (err, e\<lparr>el_mf := None\<rparr>) else (0, e))"

section \<open>Offers and answers\<close>

definition offer_and_connect ::
  "('m, 'w, 'f) media \<Rightarrow> ('m, 'w) ecall_h \<Rightarrow> 'm ecall \<times> 'w \<Rightarrow> int \<times> 'm ecall \<times> 'w" where
  "offer_and_connect P H = (\<lambda>(e, w).
     let (r, e) = mf_sdp (mediaflow_generate_offer P) e
     in case r of
          Inl _ \<Rightarrow> (EPROTO, e, w)
        | Inr sdp \<Rightarrow>
            with_econn (if el_update e
                        then econn_update_req (ecall_transp P H) (Some sdp) (Some (el_props_local e))
                        else econn_start (ecall_transp P H) (Some sdp) (Some (el_props_local e)))
              (e, w))"

definition generate_offer ::
  "('m, 'w, 'f) media \<Rightarrow> ('m, 'w) ecall_h \<Rightarrow> 'm ecall \<times> 'w \<Rightarrow> int \<times> 'm ecall \<times> 'w" where
  "generate_offer P H = (\<lambda>(e, w).
     if mf_ask (mediaflow_is_gathered P) e then offer_and_connect P H (e, w)
     else if el_async e \<noteq> ASYNC_NONE then (EPROTO, e, w)
     else (0, e\<lparr>el_async := ASYNC_OFFER\<rparr>, w))"

text \<open>\<open>pending\<close> is whether the pointer to the connection is set; it is always the call's own.\<close>

definition generate_answer ::
  "('m, 'w, 'f) media \<Rightarrow> ('m, 'w) ecall_h \<Rightarrow> bool \<Rightarrow> 'm ecall \<times> 'w \<Rightarrow> int \<times> 'm ecall \<times> 'w" where
  "generate_answer P H pending = (\<lambda>(e, w).
     if \<not> pending then (EPROTO, e, w)
     else
       let (r, e) = mf_sdp (mediaflow_generate_answer P) e
       in case r of
            Inl err \<Rightarrow> (err, e, w)
          | Inr sdp \<Rightarrow>
              let (err, e) = mf_do (mediaflow_start_ice P) e
              in if err \<noteq> 0 then (err, e, w)
                 else if el_update e then
                   (let (err, e, w) =
                          with_econn (econn_update_resp (ecall_transp P H) (Some sdp)
                                        (Some (el_props_local e))) (e, w)
                    in (err, chan_estab P e, w))
                 else
                   with_econn (econn_answer (ecall_transp P H) (Some sdp) (Some (el_props_local e)))
                     (e, w))"

definition generate_or_gather_answer ::
  "('m, 'w, 'f) media \<Rightarrow> ('m, 'w) ecall_h \<Rightarrow> 'm ecall \<times> 'w \<Rightarrow> int \<times> 'm ecall \<times> 'w" where
  "generate_or_gather_answer P H = (\<lambda>(e, w).
     if mf_ask (mediaflow_is_gathered P) e then generate_answer P H True (e, w)
     else if el_async e \<noteq> ASYNC_NONE \<and> el_async e \<noteq> ASYNC_OFFER then (EPROTO, e, w)
     else (0, e\<lparr>el_async := ASYNC_ANSWER, el_econn_pending := True\<rparr>, w))"

section \<open>Callbacks of the connection\<close>

definition econn_conn_handler ::
  "('m, 'w, 'f) media \<Rightarrow> ('m, 'w) ecall_h \<Rightarrow> u32 \<Rightarrow> string \<Rightarrow> string \<Rightarrow> u32 \<Rightarrow> cptr \<Rightarrow>
     econn_props option \<Rightarrow> 'm ecall \<times> 'w \<Rightarrow> 'm ecall \<times> 'w" where
  "econn_conn_handler P H mtime userid_sender clientid_sender age sdp props = (\<lambda>(e, w).
     let (err, e) = (if el_mf e = None then alloc_mediaflow P (e, w) else (0, e))
     in if err \<noteq> 0 then ecall_close P H err (e, w)
        else
          let (err, e) = mf_do (mediaflow_handle_offer P sdp) e
          in if err \<noteq> 0 then ecall_close P H err (e, w)
             else if \<not> mf_ask (mediaflow_has_data P) e then (e, w)
             else if el_props_remote e \<noteq> None then ecall_close P H EPROTO (e, w)
             else
               let e = e\<lparr>el_props_remote := props\<rparr>;
                   vr = ecall_props_get_remote e ''videosend'';
                   video_active = prop_is_true vr;
                   e = (if prop_is_wild vr then e\<lparr>el_ub := True\<rparr> else e);
                   w = (if age * 1000 > timeout_setup (econf (el_conf e))
                        then (case lh_missedh H of
                                None \<Rightarrow> w
                              | Some missedh \<Rightarrow> missedh mtime userid_sender video_active e w)
                        else (case lh_connh H of
                                None \<Rightarrow> w
                              | Some connh \<Rightarrow> connh userid_sender video_active e w))
               in (e\<lparr>el_ts_started := tmr_jiffies P w, el_call_setup_time := -1\<rparr>, w))"

text \<open>\<^verbatim>\<open>strstr (sdp, "x-streamchange")\<close>; the pointer is not checked.\<close>

fun strstr :: "string \<Rightarrow> string \<Rightarrow> bool" where
  "strstr [] pat = (pat = [])"
| "strstr (c # cs) pat = (take (length pat) (c # cs) = pat \<or> strstr cs pat)"

definition econn_update_req_handler ::
  "('m, 'w, 'f) media \<Rightarrow> ('m, 'w) ecall_h \<Rightarrow> string \<Rightarrow> string \<Rightarrow> cptr \<Rightarrow> econn_props option \<Rightarrow> bool \<Rightarrow>
     'm ecall \<times> 'w \<Rightarrow> 'm ecall \<times> 'w" where
  "econn_update_req_handler P H userid_sender clientid_sender sdp props should_reset = (\<lambda>(e, w).
     let e = e\<lparr>el_update := True\<rparr>;
         e = (if sdp = None then e\<lparr>el_ub := True\<rparr> else e);
         strm_chg = (case sdp of None \<Rightarrow> False | Some s \<Rightarrow> strstr s ''x-streamchange'');
         (err, e) = (if el_mf e \<noteq> None \<and> strm_chg
                     then (0, mf_upd (mediaflow_reset_media P)
                                (mf_upd (mediaflow_sdpstate_reset P)
                                   (mf_upd (mediaflow_stop_media P) e)))
                     else alloc_mediaflow P (e\<lparr>el_mf := None\<rparr>, w))
     in if err \<noteq> 0 then ecall_close P H err (e, w)
        else
          let (err, e) = mf_do (mediaflow_handle_offer P sdp) e
          in if err \<noteq> 0 then ecall_close P H err (e, w)
             else if \<not> mf_ask (mediaflow_has_data P) e then (e, w)
             else
               let e = e\<lparr>el_props_remote := props\<rparr>;
                   e = (if prop_is_wild (ecall_props_get_remote e ''videosend'')
                        then e\<lparr>el_ub := True\<rparr> else e);
                   e = e\<lparr>el_async := ASYNC_NONE\<rparr>;
                   (err, e, w) = generate_or_gather_answer P H (e, w)
               in if err \<noteq> 0 then ecall_close P H err (e, w)
                  else if strm_chg then (snd (mf_do (mediaflow_start_media P) e), w)
                  else (e, w))"

text \<open>The common part of taking an answer: \<^verbatim>\<open>handle_answer\<close>, the data channel check and ICE.\<close>

definition take_answer :: "('m, 'w, 'f) media \<Rightarrow> cptr \<Rightarrow> 'm ecall \<Rightarrow> int \<times> 'm ecall" where
  "take_answer P sdp e =
     (let (err, e) = mf_do (mediaflow_handle_answer P sdp) e
      in if err \<noteq> 0 then (err, e)
         else if \<not> mf_ask (mediaflow_has_data P) e then (EPROTO, e)
         else mf_do (mediaflow_start_ice P) e)"

definition econn_answer_handler ::
  "('m, 'w, 'f) media \<Rightarrow> ('m, 'w) ecall_h \<Rightarrow> bool \<Rightarrow> cptr \<Rightarrow> econn_props option \<Rightarrow>
     'm ecall \<times> 'w \<Rightarrow> 'm ecall \<times> 'w" where
  "econn_answer_handler P H reset sdp props = (\<lambda>(e, w).
     let e = e\<lparr>el_audio_setup_time := -1, el_call_estab_time := -1,
               el_ts_answered := tmr_jiffies P w\<rparr>
     in if reset then
          let e = mf_upd (mediaflow_sdpstate_reset P) e;
              (err, e) = mf_do (mediaflow_handle_offer P sdp) e
          in if err \<noteq> 0 then ecall_close P H err (e, w)
             else
               let (err, e, w) = generate_or_gather_answer P H (e, w)
               in if err \<noteq> 0 then ecall_close P H err (e, w)
                  else (e\<lparr>el_answered := True\<rparr>, w)
        else if el_answered e then (e, w)
        else
          let (err, e) = take_answer P sdp e
          in if err \<noteq> 0 then ecall_close P H err (e, w)
             else
               let e = e\<lparr>el_props_remote := props, el_answered := True\<rparr>
               in (e, case lh_answerh H of None \<Rightarrow> w | Some answerh \<Rightarrow> answerh e w))"

definition econn_update_resp_handler ::
  "('m, 'w, 'f) media \<Rightarrow> ('m, 'w) ecall_h \<Rightarrow> cptr \<Rightarrow> econn_props option \<Rightarrow>
     'm ecall \<times> 'w \<Rightarrow> 'm ecall \<times> 'w" where
  "econn_update_resp_handler P H sdp props = (\<lambda>(e, w).
     if \<not> el_update e then (e, w)
     else
       let (err, e) = take_answer P sdp e
       in if err \<noteq> 0 then ecall_close P H err (e, w)
          else
            (chan_estab P (e\<lparr>el_props_remote := props\<rparr>), w))"

definition econn_close_handler ::
  "('m, 'w, 'f) media \<Rightarrow> ('m, 'w) ecall_h \<Rightarrow> int \<Rightarrow> 'm ecall \<times> 'w \<Rightarrow> 'm ecall \<times> 'w" where
  "econn_close_handler P H err s = ecall_close P H err s"

text \<open>
  A callback works on the call whose connection is the one that called it; what it did to the
  connection is there when it returns.
\<close>

definition in_ecall ::
  "('m ecall \<times> 'w \<Rightarrow> 'm ecall \<times> 'w) \<Rightarrow> econn \<times> 'm ecall \<times> 'w \<Rightarrow> econn \<times> 'm ecall \<times> 'w" where
  "in_ecall f = (\<lambda>(c, e, w).
     let (e, w) = f (e\<lparr>el_econn := Some c\<rparr>, w)
     in (case el_econn e of Some c \<Rightarrow> c | None \<Rightarrow> c, e, w))"

text \<open>What \<^verbatim>\<open>create_econn\<close> gives the connection.\<close>

definition ecall_econn_h :: "('m, 'w, 'f) media \<Rightarrow> ('m, 'w) ecall_h \<Rightarrow> ('m ecall \<times> 'w) econn_h" where
  "ecall_econn_h P H =
     \<lparr>eh_sendh = Some (ecall_send_handler P H),
      eh_connh = Some (\<lambda>mt us cl age sdp p. in_ecall (econn_conn_handler P H mt us cl age sdp p)),
      eh_answerh = Some (\<lambda>reset sdp p. in_ecall (econn_answer_handler P H reset sdp p)),
      eh_update_reqh = Some (\<lambda>us cl sdp p r. in_ecall (econn_update_req_handler P H us cl sdp p r)),
      eh_update_resph = Some (\<lambda>sdp p. in_ecall (econn_update_resp_handler P H sdp p)),
      eh_closeh = (\<lambda>err. in_ecall (econn_close_handler P H err))\<rparr>"

text \<open>An operation of the connection that has no result.\<close>

definition on_econn ::
  "(econn \<times> 'm ecall \<times> 'w \<Rightarrow> econn \<times> 'm ecall \<times> 'w) \<Rightarrow> 'm ecall \<times> 'w \<Rightarrow> 'm ecall \<times> 'w" where
  "on_econn f s = snd (with_econn (\<lambda>x. (0, f x)) s)"

section \<open>Operations of the user\<close>

definition ecall_alloc ::
  "ecall_conf option \<Rightarrow> bool \<Rightarrow> cptr \<Rightarrow> cptr \<Rightarrow> cptr \<Rightarrow> int + 'm ecall" where
  "ecall_alloc conf has_msys convid userid_self clientid =
     (if \<not> has_msys \<or> \<not> str_isset convid then Inl EINVAL
      else if userid_self = None \<or> clientid = None then Inl EINVAL
      else
        Inr \<lparr>el_conf = (case conf of
                          Some c \<Rightarrow> c
                        | None \<Rightarrow> \<lparr>econf = \<lparr>timeout_setup = 30000, timeout_term = 5000\<rparr>,
                                   nat_dualstack = True\<rparr>),
             el_econn = None, el_mf = None, el_nmf = 0, el_dce = None, el_dce_ch = None,
             el_tmr = None, el_media_start_tmr = None,
             el_props_local = [(''videosend'', ODICT_STRING ''false''),
                               (''audiocbr'', ODICT_STRING ''false'')],
             el_props_remote = None, el_convid = the convid, el_userid_self = userid_self,
             el_clientid = clientid, el_async = ASYNC_NONE, el_turn_srv = None,
             el_turn_user = None, el_turn_pass = None, el_econn_pending = False,
             el_answered = False, el_update = False, el_call_setup_time = 0,
             el_call_estab_time = 0, el_audio_setup_time = 0, el_ts_started = 0,
             el_ts_answered = 0, el_closeh = True, el_ub = False\<rparr>)"

definition ecall_set_turnserver ::
  "sockaddr option \<Rightarrow> cptr \<Rightarrow> cptr \<Rightarrow> 'm ecall \<Rightarrow> int \<times> 'm ecall" where
  "ecall_set_turnserver srv user pass e =
     (if srv = None \<or> user = None \<or> pass = None then (EINVAL, e)
      else (0, e\<lparr>el_turn_srv := srv, el_turn_user := user, el_turn_pass := pass\<rparr>))"

definition create_econn :: "('m, 'w, 'f) media \<Rightarrow> 'm ecall \<times> 'w \<Rightarrow> int \<times> 'm ecall" where
  "create_econn P = (\<lambda>(e, w).
     case econn_alloc (Some (econf (el_conf e))) (el_userid_self e) (el_clientid e) True
            (rand_sessid P w) of
       Inl err \<Rightarrow> (err, e)
     | Inr c \<Rightarrow> (0, e\<lparr>el_econn := Some c\<rparr>))"

definition ecall_start ::
  "('m, 'w, 'f) media \<Rightarrow> ('m, 'w) ecall_h \<Rightarrow> 'm ecall \<times> 'w \<Rightarrow> int \<times> 'm ecall \<times> 'w" where
  "ecall_start P H = (\<lambda>(e, w).
     if el_econn e \<noteq> None then (EALREADY, e, w)
     else if el_turn_srv e = None then (EINTR, e, w)
     else
       let (err, e) = create_econn P (e, w)
       in if err \<noteq> 0 then (err, e, w)
          else
            let e = econn_upd (econn_set_state ECONN_PENDING_OUTGOING) e;
                (err, e) = alloc_mediaflow P (e, w)
            in if err \<noteq> 0 then (err, e, w)
               else
                 let (err, e, w) = generate_offer P H (e\<lparr>el_async := ASYNC_NONE\<rparr>, w)
                 in if err \<noteq> 0 then (err, e, w)
                    else (0, e\<lparr>el_ts_started := tmr_jiffies P w, el_call_setup_time := -1\<rparr>, w))"

definition ecall_answer ::
  "('m, 'w, 'f) media \<Rightarrow> ('m, 'w) ecall_h \<Rightarrow> 'm ecall \<times> 'w \<Rightarrow> int \<times> 'm ecall \<times> 'w" where
  "ecall_answer P H = (\<lambda>(e, w).
     if el_econn e = None then (ENOENT, e, w)
     else if econn_current_state (el_econn e) \<noteq> ECONN_PENDING_INCOMING then (EPROTO, e, w)
     else if el_mf e = None then (EPROTO, e, w)
     else
       let (err, e, w) = generate_or_gather_answer P H (e, w)
       in if err \<noteq> 0 then (err, e, w)
          else (0, e\<lparr>el_answered := True, el_audio_setup_time := -1, el_call_estab_time := -1,
                     el_ts_answered := tmr_jiffies P w\<rparr>, w))"

definition ecall_msg_recv ::
  "('m, 'w, 'f) media \<Rightarrow> ('m, 'w) ecall_h \<Rightarrow> cptr \<Rightarrow> cptr \<Rightarrow> econn_message option \<Rightarrow>
     'm ecall \<times> 'w \<Rightarrow> 'm ecall \<times> 'w" where
  "ecall_msg_recv P H userid_sender clientid_sender msg = (\<lambda>(e, w).
     case (userid_sender, clientid_sender, msg) of
       (Some us, Some cl, Some m) \<Rightarrow>
         if str_casecmp (el_userid_self e) (Some us) = 0 then
           (if msg_type m = ECONN_SETUP \<and> msg_resp m then
              (if el_econn e \<noteq> None \<and> econn_current_state (el_econn e) = ECONN_PENDING_INCOMING
               then on_econn (econn_close (ecall_econn_h P H) EALREADY) (e, w)
               else (e, w))
            else (e, w))
         else
           let (err, e) = (if el_econn e = None \<and> econn_is_creator (el_userid_self e) (Some us) (Some m)
                           then create_econn P (e, w) else (0, e))
           in if err \<noteq> 0 then (e, w)
              else on_econn (econn_recv_message (ecall_econn_h P H) us cl m) (e, w)
     | _ \<Rightarrow> (e, w))"

definition ecall_transp_recv ::
  "('m, 'w, 'f) media \<Rightarrow> ('m, 'w) ecall_h \<Rightarrow> u32 \<Rightarrow> u32 \<Rightarrow> cptr \<Rightarrow> cptr \<Rightarrow> cptr \<Rightarrow>
     'm ecall \<times> 'w \<Rightarrow> 'm ecall \<times> 'w" where
  "ecall_transp_recv P H curr_time mtime userid_sender clientid_sender str s =
     (if userid_sender = None \<or> clientid_sender = None \<or> str = None then s
      else case econn_message_decode (mo_ld P) (ucast curr_time) (ucast mtime) str of
             Inl _ \<Rightarrow> s
           | Inr msg \<Rightarrow> ecall_msg_recv P H userid_sender clientid_sender (Some msg) s)"

fun ecall_find_convid :: "'m ecall list \<Rightarrow> cptr \<Rightarrow> 'm ecall option" where
  "ecall_find_convid [] convid = None"
| "ecall_find_convid (e # es) convid =
     (if str_casecmp convid (Some (el_convid e)) = 0 then Some e else ecall_find_convid es convid)"

definition ecall_end ::
  "('m, 'w, 'f) media \<Rightarrow> ('m, 'w) ecall_h \<Rightarrow> 'm ecall \<times> 'w \<Rightarrow> 'm ecall \<times> 'w" where
  "ecall_end P H s =
     (let (e, w) = on_econn (econn_end (ecall_econn_h P H)) s
      in (mf_upd (mediaflow_stop_media P) e, w))"

definition ecall_state :: "'m ecall \<Rightarrow> econn_state" where
  "ecall_state e = econn_current_state (el_econn e)"

definition ecall_is_answered :: "'m ecall \<Rightarrow> bool" where
  "ecall_is_answered e = el_answered e"

definition ecall_has_video :: "('m, 'w, 'f) media \<Rightarrow> 'm ecall \<Rightarrow> bool" where
  "ecall_has_video P e = (el_econn e \<noteq> None \<and> mf_ask (mediaflow_has_video P) e)"

text \<open>Changing a local property; the entries of the local set are strings.\<close>

definition props_local_update :: "string \<Rightarrow> string \<Rightarrow> 'm ecall \<Rightarrow> int \<times> 'm ecall" where
  "props_local_update key val e =
     (case econn_props_update (el_props_local e) key val of
        None \<Rightarrow> (0, e\<lparr>el_ub := True\<rparr>)
      | Some (err, p) \<Rightarrow> (err, e\<lparr>el_props_local := p\<rparr>))"

definition send_propsync ::
  "('m, 'w, 'f) media \<Rightarrow> ('m, 'w) ecall_h \<Rightarrow> bool \<Rightarrow> 'm ecall \<times> 'w \<Rightarrow> int \<times> 'm ecall \<times> 'w" where
  "send_propsync P H resp = (\<lambda>(e, w).
     with_econn (econn_send_propsync (ecall_econn_h P H) resp (Some (el_props_local e))) (e, w))"

definition ecall_set_video_send_active ::
  "('m, 'w, 'f) media \<Rightarrow> ('m, 'w) ecall_h \<Rightarrow> bool \<Rightarrow> 'm ecall \<times> 'w \<Rightarrow> int \<times> 'm ecall \<times> 'w" where
  "ecall_set_video_send_active P H active = (\<lambda>(e, w).
     let (err, e) = props_local_update ''videosend'' (if active then ''true'' else ''false'') e
     in if err \<noteq> 0 then (err, e, w)
        else
          let (err, e) = (if mf_ask (mediaflow_has_video P) e
                          then mf_do (mediaflow_set_video_send_active P active) e else (0, e))
          in if err \<noteq> 0 then (err, e, w)
             else if econn_can_send_propsync (el_econn e) then send_propsync P H False (e, w)
             else (0, e, w))"

definition ecall_media_start ::
  "('m, 'w, 'f) media \<Rightarrow> 'm ecall \<Rightarrow> int \<times> 'm ecall" where
  "ecall_media_start P e =
     (if \<not> mf_ask (mediaflow_is_ready P) e then (0, e)
      else
        let is_video = ecall_props_get_local e ''videosend'';
            e = (if prop_is_wild is_video then e\<lparr>el_ub := True\<rparr> else e);
            e = (if prop_is_true is_video
                 then snd (mf_do (mediaflow_set_video_send_active P True) e) else e);
            (err, e) = mf_do (mediaflow_start_media P) e
        in if err \<noteq> 0 then (err, econn_upd (econn_set_error err) e)
           else (0, e\<lparr>el_media_start_tmr := tmr_cancel\<rparr>))"

definition ecall_media_stop :: "('m, 'w, 'f) media \<Rightarrow> 'm ecall \<Rightarrow> 'm ecall" where
  "ecall_media_stop P e = mf_upd (mediaflow_stop_media P) e"

definition ecall_propsync_request ::
  "('m, 'w, 'f) media \<Rightarrow> ('m, 'w) ecall_h \<Rightarrow> 'm ecall \<times> 'w \<Rightarrow> int \<times> 'm ecall \<times> 'w" where
  "ecall_propsync_request P H = (\<lambda>(e, w).
     if el_econn e = None then (EINTR, e, w) else send_propsync P H False (e, w))"

definition ecall_restart ::
  "('m, 'w, 'f) media \<Rightarrow> ('m, 'w) ecall_h \<Rightarrow> 'm ecall \<times> 'w \<Rightarrow> int \<times> 'm ecall \<times> 'w" where
  "ecall_restart P H = (\<lambda>(e, w).
     if econn_current_state (el_econn e) \<noteq> ECONN_ANSWERED \<and>
        econn_current_state (el_econn e) \<noteq> ECONN_DATACHAN_ESTABLISHED then (EPROTO, e, w)
     else
       let (err, e) = alloc_mediaflow P (e\<lparr>el_update := True, el_mf := None\<rparr>, w)
       in if err \<noteq> 0 then (err, e, w)
          else generate_offer P H (e\<lparr>el_async := ASYNC_NONE\<rparr>, w))"

section \<open>Events of the media flow\<close>

definition media_start_timeout_handler ::
  "('m, 'w, 'f) media \<Rightarrow> ('m, 'w) ecall_h \<Rightarrow> 'm ecall \<times> 'w \<Rightarrow> 'm ecall \<times> 'w" where
  "media_start_timeout_handler P H = (\<lambda>(e, w).
     if el_econn e \<noteq> None then ecall_end P H (econn_upd (econn_set_error EIO) e, w)
     else ecall_close P H EIO (e, w))"

definition mf_estab_handler ::
  "('m, 'w, 'f) media \<Rightarrow> ('m, 'w) ecall_h \<Rightarrow> 'm ecall \<times> 'w \<Rightarrow> 'm ecall \<times> 'w" where
  "mf_estab_handler P H = (\<lambda>(e, w).
     let e = (if sint (el_call_estab_time e) < 0 \<and> el_ts_answered e \<noteq> 0
              then e\<lparr>el_call_estab_time := ucast (tmr_jiffies P w - el_ts_answered e)\<rparr> else e)
     in case lh_media_estabh H of
          Some media_estabh \<Rightarrow>
            (e\<lparr>el_media_start_tmr := tmr_start 5000 Tmr_media_start\<rparr>, media_estabh (el_update e) e w)
        | None \<Rightarrow>
            let (err, e) = ecall_media_start P e
            in if err \<noteq> 0 then ecall_end P H (e, w) else (e, w))"

definition mf_close_handler ::
  "('m, 'w, 'f) media \<Rightarrow> ('m, 'w) ecall_h \<Rightarrow> int \<Rightarrow> 'm ecall \<times> 'w \<Rightarrow> 'm ecall \<times> 'w" where
  "mf_close_handler P H err = (\<lambda>(e, w).
     if el_econn e \<noteq> None then ecall_end P H (econn_upd (econn_set_error err) e, w)
     else ecall_close P H err (e, w))"

definition mf_gather_handler ::
  "('m, 'w, 'f) media \<Rightarrow> ('m, 'w) ecall_h \<Rightarrow> 'm ecall \<times> 'w \<Rightarrow> 'm ecall \<times> 'w" where
  "mf_gather_handler P H = (\<lambda>(e, w).
     if econn_current_state (el_econn e) = ECONN_TERMINATING then (e, w)
     else
       let complete = (\<lambda>(err, e, w).
             if err \<noteq> 0 then ecall_close P H err (e, w)
             else (e\<lparr>el_async := ASYNC_COMPLETE\<rparr>, w))
       in case el_async e of
            ASYNC_NONE \<Rightarrow> (e, w)
          | ASYNC_OFFER \<Rightarrow> complete (offer_and_connect P H (e, w))
          | ASYNC_ANSWER \<Rightarrow> complete (generate_answer P H (el_econn_pending e) (e, w))
          | ASYNC_COMPLETE \<Rightarrow> (e, w))"

definition channel_estab_handler ::
  "('m, 'w, 'f) media \<Rightarrow> ('m, 'w) ecall_h \<Rightarrow> 'm ecall \<times> 'w \<Rightarrow> 'm ecall \<times> 'w" where
  "channel_estab_handler P H = (\<lambda>(e, w).
     let e = econn_upd econn_set_datachan_established e;
         e = (if mf_ask (mediaflow_get_audio_cbr P) e
              then snd (props_local_update ''audiocbr'' ''true'' e) else e);
         (e, w) = (if econn_can_send_propsync (el_econn e) then snd (send_propsync P H False (e, w))
                   else (e, w))
     in (e, case lh_datachan_estabh H of
              None \<Rightarrow> w
            | Some datachan_estabh \<Rightarrow> datachan_estabh (el_update e) e w))"

definition data_estab_handler ::
  "('m, 'w, 'f) media \<Rightarrow> ('m, 'w) ecall_h \<Rightarrow> 'm ecall \<times> 'w \<Rightarrow> 'm ecall \<times> 'w" where
  "data_estab_handler P H = (\<lambda>(e, w).
     let (err, e) = (if mf_ask (mediaflow_is_sdp_offerer P) e then dce_do (dce_open_chan P) e
                     else (0, e))
     in if err \<noteq> 0 then ecall_close P H err (e, w) else (e, w))"

definition data_channel_handler ::
  "('m, 'w, 'f) media \<Rightarrow> ('m, 'w) ecall_h \<Rightarrow> string \<Rightarrow> 'm ecall \<times> 'w \<Rightarrow> 'm ecall \<times> 'w" where
  "data_channel_handler P H data = (\<lambda>(e, w).
     case econn_message_decode (mo_ld P) 0 0 (Some data) of
       Inl _ \<Rightarrow> (e, w)
     | Inr msg \<Rightarrow>
         if msg_type msg = ECONN_PROPSYNC then
           let (err, e, w) = (if econn_message_isrequest (Some msg) then send_propsync P H True (e, w)
                              else (0, e, w))
           in if err \<noteq> 0 then (e, w)
              else
                let e = (if propsync_props msg \<noteq> None
                         then e\<lparr>el_props_remote := propsync_props msg\<rparr> else e)
                in (e, case lh_propsynch H of None \<Rightarrow> w | Some propsynch \<Rightarrow> propsynch e w)
         else
           on_econn (\<lambda>(c, s). econn_recv_message (ecall_econn_h P H) ''na''
                                (ec_clientid_remote c) msg (c, s)) (e, w))"

definition data_channel_open_handler :: "'m ecall \<Rightarrow> 'm ecall" where
  "data_channel_open_handler e = e\<lparr>el_tmr := tmr_start 1 Tmr_channel_estab\<rparr>"

definition data_channel_closed_handler ::
  "('m, 'w, 'f) media \<Rightarrow> ('m, 'w) ecall_h \<Rightarrow> 'm ecall \<times> 'w \<Rightarrow> 'm ecall \<times> 'w" where
  "data_channel_closed_handler P H s = ecall_close P H EPROTO s"

definition rtp_start_handler ::
  "('m, 'w, 'f) media \<Rightarrow> ('m, 'w) ecall_h \<Rightarrow> bool \<Rightarrow> 'm ecall \<times> 'w \<Rightarrow> 'm ecall \<times> 'w" where
  "rtp_start_handler P H started = (\<lambda>(e, w).
     let w = (if started
              then (case lh_audio_estabh H of
                      None \<Rightarrow> w
                    | Some audio_estabh \<Rightarrow> audio_estabh (el_update e) e w)
              else w)
     in if sint (el_audio_setup_time e) < 0 \<and> el_ts_answered e \<noteq> 0 then
          let now = tmr_jiffies P w
          in (e\<lparr>el_audio_setup_time := ucast (now - el_ts_answered e),
                el_call_setup_time := ucast (now - el_ts_started e)\<rparr>, w)
        else (e, w))"

section \<open>The call as an event system\<close>

text \<open>
  Everything that can happen to a call: calls of its user, events of its media flow, its three
  timers. Events of a media flow happen only while the call has one. \<open>L_media\<close> is a change of the
  media flow's own state, by the network or a timer of its own.
\<close>

datatype 'm ecall_event =
    L_start
  | L_answer
  | L_end
  | L_restart
  | L_media_start
  | L_media_stop
  | L_video bool
  | L_propsync_request
  | L_set_turn "sockaddr option" cptr cptr
  | L_msg cptr cptr "econn_message option"
  | L_transp u32 u32 cptr cptr cptr
  | L_mf_estab
  | L_mf_close int
  | L_mf_gather
  | L_data_estab
  | L_data_open
  | L_data_closed
  | L_data string
  | L_rtp bool
  | L_media 'm
  | L_tmr_channel
  | L_tmr_media_start
  | L_tmr_econn

definition has_mf :: "('m ecall \<times> 'w \<Rightarrow> 'm ecall \<times> 'w) \<Rightarrow> 'm ecall \<times> 'w \<Rightarrow> 'm ecall \<times> 'w" where
  "has_mf f s = (if el_mf (fst s) = None then s else f s)"

fun ecall_step ::
  "('m, 'w, 'f) media \<Rightarrow> ('m, 'w) ecall_h \<Rightarrow> 'm ecall_event \<Rightarrow> 'm ecall \<times> 'w \<Rightarrow> 'm ecall \<times> 'w" where
  "ecall_step P H L_start s = snd (ecall_start P H s)"
| "ecall_step P H L_answer s = snd (ecall_answer P H s)"
| "ecall_step P H L_end s = ecall_end P H s"
| "ecall_step P H L_restart s = snd (ecall_restart P H s)"
| "ecall_step P H L_media_start s = (snd (ecall_media_start P (fst s)), snd s)"
| "ecall_step P H L_media_stop s = (ecall_media_stop P (fst s), snd s)"
| "ecall_step P H (L_video a) s = snd (ecall_set_video_send_active P H a s)"
| "ecall_step P H L_propsync_request s = snd (ecall_propsync_request P H s)"
| "ecall_step P H (L_set_turn srv u p) s = (snd (ecall_set_turnserver srv u p (fst s)), snd s)"
| "ecall_step P H (L_msg us cl m) s = ecall_msg_recv P H us cl m s"
| "ecall_step P H (L_transp ct mt us cl str) s = ecall_transp_recv P H ct mt us cl str s"
| "ecall_step P H L_mf_estab s = has_mf (mf_estab_handler P H) s"
| "ecall_step P H (L_mf_close err) s = has_mf (mf_close_handler P H err) s"
| "ecall_step P H L_mf_gather s = has_mf (mf_gather_handler P H) s"
| "ecall_step P H L_data_estab s = has_mf (data_estab_handler P H) s"
| "ecall_step P H L_data_open s = has_mf (\<lambda>(e, w). (data_channel_open_handler e, w)) s"
| "ecall_step P H L_data_closed s = has_mf (data_channel_closed_handler P H) s"
| "ecall_step P H (L_data d) s = has_mf (data_channel_handler P H d) s"
| "ecall_step P H (L_rtp st) s = has_mf (rtp_start_handler P H st) s"
| "ecall_step P H (L_media m) s = (mf_upd (\<lambda>_. m) (fst s), snd s)"
| "ecall_step P H L_tmr_channel s =
     (case el_tmr (fst s) of
        None \<Rightarrow> s
      | Some _ \<Rightarrow> channel_estab_handler P H ((fst s)\<lparr>el_tmr := None\<rparr>, snd s))"
| "ecall_step P H L_tmr_media_start s =
     (case el_media_start_tmr (fst s) of
        None \<Rightarrow> s
      | Some _ \<Rightarrow> media_start_timeout_handler P H ((fst s)\<lparr>el_media_start_tmr := None\<rparr>, snd s))"
| "ecall_step P H L_tmr_econn s = on_econn (econn_tmr_fire (ecall_econn_h P H)) s"

end
