(* ===== verification/Ecall_Safety.thy ===== *)
theory Ecall_Safety
  imports Ecall Econn_Correct
begin

text \<open>
  What holds of a call whatever its user does and whatever the media engine and the peer do.

  The locale \<open>ecall_user\<close> is the contract between a call and its user: each callback is a step of the
  relation \<open>U\<close>, and calling the close handler uses it up. Inside it the callbacks of \<^verbatim>\<open>ecall.c\<close> are shown to satisfy the contract
  \<open>econn_callbacks\<close> of the connection, which then gives the effect of every operation of the
  connection on the call.
\<close>

section \<open>What a call keeps\<close>

definition ecall_frame :: "'m ecall \<Rightarrow> 'm ecall \<Rightarrow> bool" where
  "ecall_frame e e' \<longleftrightarrow>
     el_conf e' = el_conf e \<and> el_convid e' = el_convid e \<and>
     el_userid_self e' = el_userid_self e \<and> el_clientid e' = el_clientid e \<and>
     (el_closeh e' \<longrightarrow> el_closeh e) \<and> (el_answered e \<longrightarrow> el_answered e') \<and>
     (el_update e \<longrightarrow> el_update e') \<and> el_nmf e \<le> el_nmf e' \<and>
     (props_strings (el_props_local e) \<longrightarrow> props_strings (el_props_local e'))"

definition econn_rel :: "econn option \<Rightarrow> econn option \<Rightarrow> bool" where
  "econn_rel c c' \<longleftrightarrow> (\<forall>x. c = Some x \<longrightarrow> (\<exists>y. c' = Some y \<and> econn_keeps x y))"

text \<open>
  What happens to the user of a call is described by a relation \<open>U\<close> on the state of the user together
  with whether the call still holds the close handler; a call makes any number of \<open>U\<close> steps.
\<close>

type_synonym 'w user_rel = "bool \<times> 'w \<Rightarrow> bool \<times> 'w \<Rightarrow> bool"

definition user_view :: "'m ecall \<times> 'w \<Rightarrow> bool \<times> 'w" where
  "user_view s = (el_closeh (fst s), snd s)"

definition ecall_rel :: "'w user_rel \<Rightarrow> 'm ecall \<times> 'w \<Rightarrow> 'm ecall \<times> 'w \<Rightarrow> bool" where
  "ecall_rel U s t \<longleftrightarrow>
     ecall_frame (fst s) (fst t) \<and> econn_rel (el_econn (fst s)) (el_econn (fst t)) \<and>
     U\<^sup>*\<^sup>* (user_view s) (user_view t)"

text \<open>The same seen from inside an operation of the connection \<open>c\<close>.\<close>

definition conn_rel :: "'w user_rel \<Rightarrow> econn \<times> 'm ecall \<times> 'w \<Rightarrow> econn \<times> 'm ecall \<times> 'w \<Rightarrow> bool" where
  "conn_rel U s t \<longleftrightarrow>
     econn_keeps (fst s) (fst t) \<and> ecall_frame (fst (snd s)) (fst (snd t)) \<and>
     U\<^sup>*\<^sup>* (user_view (snd s)) (user_view (snd t))"

lemma ecall_frame_refl [simp]: "ecall_frame e e"
  by (simp add: ecall_frame_def)

lemma ecall_frame_trans: "ecall_frame a b \<Longrightarrow> ecall_frame b c \<Longrightarrow> ecall_frame a c"
  by (auto simp: ecall_frame_def)

lemma econn_rel_refl [simp]: "econn_rel c c"
  by (simp add: econn_rel_def)

lemma econn_rel_trans: "econn_rel a b \<Longrightarrow> econn_rel b c \<Longrightarrow> econn_rel a c"
  unfolding econn_rel_def by (blast intro: econn_keeps_trans)

lemma ecall_rel_refl [simp]: "ecall_rel U s s"
  by (simp add: ecall_rel_def)

lemma ecall_rel_trans [trans]: "ecall_rel U s t \<Longrightarrow> ecall_rel U t u \<Longrightarrow> ecall_rel U s u"
  unfolding ecall_rel_def by (blast intro: ecall_frame_trans econn_rel_trans rtranclp_trans)

lemma conn_rel_refl: "conn_rel U s s"
  by (simp add: conn_rel_def)

lemma conn_rel_trans: "conn_rel U s t \<Longrightarrow> conn_rel U t u \<Longrightarrow> conn_rel U s u"
  unfolding conn_rel_def by (blast intro: ecall_frame_trans econn_keeps_trans rtranclp_trans)

text \<open>
  A change of the call that touches neither the connection nor the callback: the frame alone is to
  be shown.
\<close>

lemma ecall_rel_local:
  "ecall_frame e e' \<Longrightarrow> el_econn e' = el_econn e \<Longrightarrow> el_closeh e' = el_closeh e \<Longrightarrow>
     ecall_rel U (e, w) (e', w)"
  by (simp add: ecall_rel_def user_view_def)

lemma ecall_rel_world: "U\<^sup>*\<^sup>* (el_closeh e, w) (el_closeh e, w') \<Longrightarrow> ecall_rel U (e, w) (e, w')"
  by (simp add: ecall_rel_def user_view_def)

lemma ecall_rel_econn:
  "(\<And>c. econn_keeps c (f c)) \<Longrightarrow> ecall_rel U (e, w) (econn_upd f e, w)"
  by (auto simp: ecall_rel_def econn_upd_def econn_rel_def ecall_frame_def user_view_def)

section \<open>Operations on the media flow keep everything\<close>

text \<open>All a step on the media flow changes is the media flow and the undefined-behaviour flag.\<close>

definition no_media :: "'m ecall \<Rightarrow> 'm ecall" where
  "no_media e = e\<lparr>el_mf := None, el_dce := None, el_dce_ch := None, el_ub := False, el_nmf := 0\<rparr>"

definition mf_same :: "'m ecall \<Rightarrow> 'm ecall \<Rightarrow> bool" where
  "mf_same e e' \<longleftrightarrow> no_media e' = no_media e \<and> el_nmf e \<le> el_nmf e'"

lemma mf_same_refl [simp]: "mf_same e e"
  by (simp add: mf_same_def)

lemma mf_same_trans [trans]: "mf_same a b \<Longrightarrow> mf_same b c \<Longrightarrow> mf_same a c"
  by (simp add: mf_same_def)

lemma mf_same_upd [simp]:
  "mf_same e (e\<lparr>el_mf := x\<rparr>)" "mf_same e (e\<lparr>el_dce := y\<rparr>)" "mf_same e (e\<lparr>el_dce_ch := y\<rparr>)"
  "mf_same e (e\<lparr>el_ub := b\<rparr>)" "el_nmf e \<le> n \<Longrightarrow> mf_same e (e\<lparr>el_mf := x, el_nmf := n\<rparr>)"
  by (simp_all add: mf_same_def no_media_def)

lemma mf_same_fields:
  assumes "mf_same e e'"
  shows "el_conf e' = el_conf e"
    and "el_econn e' = el_econn e"
    and "el_tmr e' = el_tmr e"
    and "el_media_start_tmr e' = el_media_start_tmr e"
    and "el_props_local e' = el_props_local e"
    and "el_props_remote e' = el_props_remote e"
    and "el_convid e' = el_convid e"
    and "el_userid_self e' = el_userid_self e"
    and "el_clientid e' = el_clientid e"
    and "el_async e' = el_async e"
    and "el_turn_srv e' = el_turn_srv e"
    and "el_econn_pending e' = el_econn_pending e"
    and "el_answered e' = el_answered e"
    and "el_update e' = el_update e"
    and "el_closeh e' = el_closeh e"
proof -
  have eq: "no_media e' = no_media e" using assms by (simp add: mf_same_def)
  show "el_conf e' = el_conf e" using arg_cong [OF eq, of el_conf] by (simp add: no_media_def)
  show "el_econn e' = el_econn e" using arg_cong [OF eq, of el_econn] by (simp add: no_media_def)
  show "el_tmr e' = el_tmr e" using arg_cong [OF eq, of el_tmr] by (simp add: no_media_def)
  show "el_media_start_tmr e' = el_media_start_tmr e" using arg_cong [OF eq, of el_media_start_tmr] by (simp add: no_media_def)
  show "el_props_local e' = el_props_local e" using arg_cong [OF eq, of el_props_local] by (simp add: no_media_def)
  show "el_props_remote e' = el_props_remote e" using arg_cong [OF eq, of el_props_remote] by (simp add: no_media_def)
  show "el_convid e' = el_convid e" using arg_cong [OF eq, of el_convid] by (simp add: no_media_def)
  show "el_userid_self e' = el_userid_self e" using arg_cong [OF eq, of el_userid_self] by (simp add: no_media_def)
  show "el_clientid e' = el_clientid e" using arg_cong [OF eq, of el_clientid] by (simp add: no_media_def)
  show "el_async e' = el_async e" using arg_cong [OF eq, of el_async] by (simp add: no_media_def)
  show "el_turn_srv e' = el_turn_srv e" using arg_cong [OF eq, of el_turn_srv] by (simp add: no_media_def)
  show "el_econn_pending e' = el_econn_pending e" using arg_cong [OF eq, of el_econn_pending] by (simp add: no_media_def)
  show "el_answered e' = el_answered e" using arg_cong [OF eq, of el_answered] by (simp add: no_media_def)
  show "el_update e' = el_update e" using arg_cong [OF eq, of el_update] by (simp add: no_media_def)
  show "el_closeh e' = el_closeh e" using arg_cong [OF eq, of el_closeh] by (simp add: no_media_def)
qed

lemma mf_same_rel: "mf_same e e' \<Longrightarrow> ecall_rel U (e, w) (e', w)"
  using mf_same_fields [of e e']
  by (auto simp: mf_same_def [of e e'] ecall_frame_def intro!: ecall_rel_local)

lemma mf_do_same: "mf_same e (snd (mf_do f e))"
  by (auto simp: mf_do_def split: option.split prod.split)

lemma mf_upd_same: "mf_same e (mf_upd f e)"
  by (auto simp: mf_upd_def split: option.split)

lemma mf_sdp_same: "mf_same e (snd (mf_sdp f e))"
  by (auto simp: mf_sdp_def split: option.split prod.split)

lemma dce_do_same: "mf_same e (snd (dce_do f e))"
  by (auto simp: dce_do_def mf_do_same)

lemma chan_open_same: "mf_same e (snd (chan_open P e))"
  by (auto simp: chan_open_def)

lemma interface_handler_same: "mf_same e (interface_handler P x e)"
  by (auto simp: interface_handler_def mf_do_same split: prod.split)

lemma interfaces_same: "mf_same e (fold (interface_handler P) xs e)"
  by (induction xs arbitrary: e) (auto intro: mf_same_trans interface_handler_same)

lemmas mf_same_intros = mf_do_same mf_upd_same mf_sdp_same dce_do_same chan_open_same interfaces_same

lemma mf_do_same': "mf_do f e = (r, e') \<Longrightarrow> mf_same e e'"
  using mf_do_same [of e f] by simp

lemma mf_sdp_same': "mf_sdp f e = (r, e') \<Longrightarrow> mf_same e e'"
  using mf_sdp_same [of e f] by simp

lemma dce_do_same': "dce_do f e = (r, e') \<Longrightarrow> mf_same e e'"
  using dce_do_same [of e f] by simp

lemma chan_open_same': "chan_open P e = (r, e') \<Longrightarrow> mf_same e e'"
  using chan_open_same [of e P] by simp

lemma setup_mediaflow_same: "mf_same e (snd (setup_mediaflow P (e, w)))"
proof -
  obtain r1 e1 where 1: "mf_do (mediaflow_add_video P) (mf_upd (mediaflow_configure P (mf_tag e)) e) = (r1, e1)"
    by fastforce
  have s1: "mf_same e e1" using mf_same_trans [OF mf_upd_same mf_do_same' [OF 1]] .
  obtain r2 e2 where 2: "mf_do (dce_channel_alloc P) (e1\<lparr>el_dce := map_option fst (el_mf e1)\<rparr>) = (r2, e2)"
    by fastforce
  have s2: "mf_same e e2" using mf_same_trans [OF s1 mf_same_trans [OF mf_same_upd(2) mf_do_same' [OF 2]]] .
  obtain r3 e3 where 3: "mf_do (mediaflow_add_data P) (e2\<lparr>el_dce_ch := map_option fst (el_mf e2)\<rparr>) = (r3, e3)"
    by fastforce
  have s3: "mf_same e e3" using mf_same_trans [OF s2 mf_same_trans [OF mf_same_upd(3) mf_do_same' [OF 3]]] .
  have s4: "mf_same e (snd (mf_do f (fold (interface_handler P) (net_ifs P w) e3)))" for f
    using mf_same_trans [OF s3 mf_same_trans [OF interfaces_same mf_do_same]] .
  have s5: "mf_same e (e1\<lparr>el_dce := None\<rparr>)" using mf_same_trans [OF s1 mf_same_upd(2)] .
  show ?thesis
    using s1 s2 s3 s4 s5 by (simp add: setup_mediaflow_def Let_def 1 2 3)
qed

lemma alloc_mediaflow_same: "mf_same e (snd (alloc_mediaflow P (e, w)))"
proof -
  define f where "f laddr = (case laddr of
                       None \<Rightarrow> (EAFNOSUPPORT, e)
                     | Some a \<Rightarrow>
                         let (err, m) = mediaflow_alloc P a w
                         in if err \<noteq> 0 then (err, e)
                            else setup_mediaflow P
                                   (e\<lparr>el_mf := Some (el_nmf e, m), el_nmf := Suc (el_nmf e)\<rparr>, w))" for laddr
  have s: "mf_same e (snd (setup_mediaflow P (e\<lparr>el_mf := Some (el_nmf e, m), el_nmf := Suc (el_nmf e)\<rparr>, w)))" for m
    by (rule mf_same_trans [OF mf_same_upd(5) setup_mediaflow_same]) simp
  have f: "mf_same e (snd (f laddr))" for laddr
  proof (cases laddr)
    case (Some a)
    obtain err m where "mediaflow_alloc P a w = (err, m)" by fastforce
    then show ?thesis using s [of m] by (simp add: f_def Some)
  qed (simp add: f_def)
  have "mf_same e (snd (let (err, e) = f laddr in if err \<noteq> 0 then (err, e\<lparr>el_mf := None\<rparr>) else (0, e)))"
    for laddr
    using f [of laddr] by (cases "f laddr") (auto intro: mf_same_trans)
  then show ?thesis
    unfolding alloc_mediaflow_def by (simp only: f_def Let_def prod.case)
qed

lemma alloc_mediaflow_same': "alloc_mediaflow P (e, w) = (r, e') \<Longrightarrow> mf_same e e'"
  using alloc_mediaflow_same [of e P w] by simp

section \<open>The contract of the user\<close>

locale ecall_user =
  fixes P :: "('m, 'w, 'f) media"
    and H :: "('m, 'w) ecall_h"
    and U :: "'w user_rel"
  assumes connh: "lh_connh H = Some f1 \<Longrightarrow> U (b, w) (b, f1 us v e w)"
    and answerh: "lh_answerh H = Some f2 \<Longrightarrow> U (b, w) (b, f2 e w)"
    and missedh: "lh_missedh H = Some f3 \<Longrightarrow> U (b, w) (b, f3 t us v e w)"
    and media_estabh: "lh_media_estabh H = Some f4 \<Longrightarrow> U (b, w) (b, f4 v e w)"
    and audio_estabh: "lh_audio_estabh H = Some f5 \<Longrightarrow> U (b, w) (b, f5 v e w)"
    and datachan_estabh: "lh_datachan_estabh H = Some f6 \<Longrightarrow> U (b, w) (b, f6 v e w)"
    and propsynch: "lh_propsynch H = Some f7 \<Longrightarrow> U (b, w) (b, f7 e w)"
    and sendh: "U (b, w) (b, snd (lh_sendh H u str e w))"
    and closeh: "U (True, w) (False, lh_closeh H err js e w)"
begin

lemma handlers:
  "lh_connh H = Some f1 \<Longrightarrow> U\<^sup>*\<^sup>* (b, w) (b, f1 us v e w)"
  "lh_answerh H = Some f2 \<Longrightarrow> U\<^sup>*\<^sup>* (b, w) (b, f2 e w)"
  "lh_missedh H = Some f3 \<Longrightarrow> U\<^sup>*\<^sup>* (b, w) (b, f3 t us v e w)"
  "lh_media_estabh H = Some f4 \<Longrightarrow> U\<^sup>*\<^sup>* (b, w) (b, f4 v e w)"
  "lh_audio_estabh H = Some f4 \<Longrightarrow> U\<^sup>*\<^sup>* (b, w) (b, f4 v e w)"
  "lh_datachan_estabh H = Some f4 \<Longrightarrow> U\<^sup>*\<^sup>* (b, w) (b, f4 v e w)"
  "lh_propsynch H = Some f2 \<Longrightarrow> U\<^sup>*\<^sup>* (b, w) (b, f2 e w)"
  by (auto intro: connh answerh missedh media_estabh audio_estabh datachan_estabh propsynch)

lemma close_rel: "ecall_rel U s (ecall_close P H err s)"
  by (cases s)
     (auto simp: ecall_close_def Let_def ecall_rel_def ecall_frame_def user_view_def
       intro: r_into_rtranclp closeh)

lemma then_close: "ecall_rel U s t \<Longrightarrow> ecall_rel U s (ecall_close P H err t)"
  by (rule ecall_rel_trans [OF _ close_rel])

lemma send_rel: "conn_rel U (c, s) (c, snd (ecall_send_handler P H c msg s))"
proof (cases s)
  case (Pair e w)
  have "ecall_frame e (snd (dce_do f e)) \<and> el_closeh (snd (dce_do f e)) = el_closeh e" for f
    using mf_same_rel [OF dce_do_same [of e f], of U w] mf_same_fields(15) [OF dce_do_same [of e f]]
    by (simp add: ecall_rel_def)
  then have "ecall_frame e e' \<and> el_closeh e' = el_closeh e" if "dce_do f e = (r, e')" for f r e'
    using that by (metis snd_conv)
  moreover have "U\<^sup>*\<^sup>* (b, w) (b, w')" if "lh_sendh H u str e w = (r, w')" for b u str r w'
    using r_into_rtranclp [of U, OF sendh [of b w u str e]] that by simp
  ultimately show ?thesis
    by (auto simp: Pair ecall_send_handler_def Let_def conn_rel_def user_view_def
        split: sum.split econn_msg.split prod.split)
qed

end

text \<open>The conditions on the connection alone, for both records of callbacks.\<close>

lemma conn_rel_same_ident: "same_ident c c' \<Longrightarrow> conn_rel U (c, s) (c', s)"
  by (simp add: conn_rel_def same_ident_def econn_keeps_def)

lemma conn_rel_clientid: "ec_clientid_remote c = [] \<Longrightarrow> conn_rel U (c, s) (c\<lparr>ec_clientid_remote := x\<rparr>, s)"
  by (simp add: conn_rel_def econn_keeps_def)

lemma conn_rel_noclose: "conn_rel U (c, s) (c\<lparr>ec_closeh := False\<rparr>, s)"
  by (simp add: conn_rel_def econn_keeps_def)

sublocale ecall_user \<subseteq> tr: econn_callbacks "ecall_transp P H" "conn_rel U"
  by unfold_locales
     (auto simp: ecall_transp_def conn_rel_refl conn_rel_same_ident conn_rel_clientid conn_rel_noclose
       send_rel intro: conn_rel_trans)

lemma with_econn_rel:
  assumes "\<And>x. conn_rel U x (snd (f x))"
  shows "ecall_rel U s (snd (with_econn f s))"
proof (cases s)
  case (Pair e w)
  show ?thesis
  proof (cases "el_econn e")
    case None
    then show ?thesis by (simp add: Pair with_econn_def)
  next
    case (Some c)
    obtain err c' e' w' where f: "f (c, e, w) = (err, c', e', w')" by (cases "f (c, e, w)") auto
    then show ?thesis
      using assms [of "(c, e, w)"] Some
      by (simp add: Pair with_econn_def conn_rel_def ecall_rel_def econn_rel_def ecall_frame_def
          user_view_def)
  qed
qed

lemma on_econn_rel:
  assumes "\<And>x. conn_rel U x (f x)"
  shows "ecall_rel U s (on_econn f s)"
  unfolding on_econn_def by (rule with_econn_rel) (simp add: assms)

lemma ecall_rel_mf: "ecall_rel U s (e, w) \<Longrightarrow> mf_same e e' \<Longrightarrow> ecall_rel U s (e', w)"
  by (blast intro: ecall_rel_trans mf_same_rel)

lemma mf_then_rel: "mf_same e e' \<Longrightarrow> ecall_rel U (e', w) t \<Longrightarrow> ecall_rel U (e, w) t"
  by (blast intro: ecall_rel_trans mf_same_rel)

text \<open>Fields a handler may set without further conditions.\<close>

lemma ecall_rel_fields [simp]:
  "ecall_rel U (e, w) (e\<lparr>el_async := a\<rparr>, w)"
  "ecall_rel U (e, w) (e\<lparr>el_async := a, el_econn_pending := b\<rparr>, w)"
  "ecall_rel U (e, w) (e\<lparr>el_props_remote := p\<rparr>, w)"
  "ecall_rel U (e, w) (e\<lparr>el_answered := True\<rparr>, w)"
  "ecall_rel U (e, w) (e\<lparr>el_update := True\<rparr>, w)"
  "ecall_rel U (e, w) (e\<lparr>el_ub := b\<rparr>, w)"
  "ecall_rel U (e, w) (e\<lparr>el_tmr := t\<rparr>, w)"
  "ecall_rel U (e, w) (e\<lparr>el_media_start_tmr := t\<rparr>, w)"
  "ecall_rel U (e, w) (e\<lparr>el_ts_started := x, el_call_setup_time := y\<rparr>, w)"
  "ecall_rel U (e, w) (e\<lparr>el_call_estab_time := y\<rparr>, w)"
  "ecall_rel U (e, w) (e\<lparr>el_audio_setup_time := z, el_call_setup_time := y\<rparr>, w)"
  "ecall_rel U (e, w) (e\<lparr>el_audio_setup_time := z, el_call_estab_time := y, el_ts_answered := x\<rparr>, w)"
  "ecall_rel U (e, w) (e\<lparr>el_turn_srv := a1, el_turn_user := a2, el_turn_pass := a3\<rparr>, w)"
  by (auto simp: ecall_frame_def intro!: ecall_rel_local)

context ecall_user
begin

lemma chan_estab_rel: "ecall_rel U (e, w) (chan_estab P e, w)"
proof -
  obtain b e' where c: "chan_open P e = (b, e')" by fastforce
  have "ecall_rel U (e', w) (econn_upd econn_set_datachan_established e', w)"
    by (rule ecall_rel_econn) (simp add: econn_set_datachan_established_def econn_keeps_def)
  then show ?thesis
    using mf_then_rel [OF chan_open_same' [OF c], of U w] mf_same_rel [OF chan_open_same' [OF c], of U w]
    by (simp add: chan_estab_def c)
qed

lemma offer_and_connect_rel: "ecall_rel U s (snd (offer_and_connect P H s))"
proof (cases s)
  case (Pair e w)
  obtain r e1 where 1: "mf_sdp (mediaflow_generate_offer P) e = (r, e1)" by fastforce
  note same = mf_sdp_same' [OF 1]
  have "ecall_rel U (e, w) (snd (with_econn (if el_update e1
      then econn_update_req (ecall_transp P H) sdp p else econn_start (ecall_transp P H) sdp p) (e1, w)))"
    for sdp p
    by (rule mf_then_rel [OF same], rule with_econn_rel) (simp add: tr.rel_update_req tr.rel_start)
  then show ?thesis
    using mf_same_rel [OF same, of U w] by (cases r) (simp_all add: Pair offer_and_connect_def 1)
qed

lemma generate_offer_rel: "ecall_rel U s (snd (generate_offer P H s))"
  by (cases s) (simp add: generate_offer_def offer_and_connect_rel)

lemma generate_answer_rel: "ecall_rel U s (snd (generate_answer P H pending s))"
proof (cases s)
  case (Pair e w)
  obtain r e1 where 1: "mf_sdp (mediaflow_generate_answer P) e = (r, e1)" by fastforce
  obtain err e2 where 2: "mf_do (mediaflow_start_ice P) e1 = (err, e2)" by fastforce
  note s1 = mf_sdp_same' [OF 1] and s2 = mf_same_trans [OF mf_sdp_same' [OF 1] mf_do_same' [OF 2]]
  have answer: "ecall_rel U (e, w) (snd (with_econn (econn_answer (ecall_transp P H) sdp p) (e2, w)))"
    for sdp p by (rule mf_then_rel [OF s2]) (rule with_econn_rel, rule tr.rel_answer)
  have "ecall_rel U (e, w) (snd (let (err, e, w) =
      with_econn (econn_update_resp (ecall_transp P H) sdp p) (e2, w) in (err, chan_estab P e, w)))"
    for sdp p
  proof -
    obtain err3 e3 w3 where 3: "with_econn (econn_update_resp (ecall_transp P H) sdp p) (e2, w) = (err3, e3, w3)"
      by (cases "with_econn (econn_update_resp (ecall_transp P H) sdp p) (e2, w)") auto
    have "ecall_rel U (e2, w) (e3, w3)"
      using with_econn_rel [of U "econn_update_resp (ecall_transp P H) sdp p" "(e2, w)"]
        tr.rel_update_resp 3 by simp
    then show ?thesis
      using 3 by (simp add: mf_then_rel [OF s2] ecall_rel_trans [OF _ chan_estab_rel])
  qed
  then show ?thesis
    using answer mf_same_rel [OF s1, of U w] mf_same_rel [OF s2, of U w]
    by (cases r) (simp_all add: Pair generate_answer_def 1 2)
qed

lemma generate_or_gather_answer_rel: "ecall_rel U s (snd (generate_or_gather_answer P H s))"
  by (cases s) (simp add: generate_or_gather_answer_def generate_answer_rel)

end

end
