(* ===== verification/Ecall_Steps.thy ===== *)
theory Ecall_Steps
  imports Ecall_Safety
begin

text \<open>
  The callbacks a call gives its connection satisfy the contract \<open>econn_callbacks\<close>, and every
  operation and event of a call is a monotone step: it keeps the identity of the call and of its
  connection, and makes any number of steps of its user.
\<close>

section \<open>The callbacks of the connection keep the contract\<close>

lemma take_answer_same: "mf_same e (snd (take_answer P sdp e))"
proof -
  obtain err e1 where 1: "mf_do (mediaflow_handle_answer P sdp) e = (err, e1)" by fastforce
  show ?thesis
    using mf_do_same' [OF 1] mf_same_trans [OF mf_do_same' [OF 1] mf_do_same]
    by (simp add: take_answer_def 1)
qed

lemma take_answer_same': "take_answer P sdp e = (r, e') \<Longrightarrow> mf_same e e'"
  using take_answer_same [of e P sdp] by simp

lemma in_ecall_rel:
  assumes "\<And>s. ecall_rel U s (f s)"
  shows "conn_rel U x (in_ecall f x)"
proof -
  obtain c e w where x: "x = (c, e, w)" by (cases x) auto
  obtain e' w' where f: "f (e\<lparr>el_econn := Some c\<rparr>, w) = (e', w')" by fastforce
  have "ecall_rel U (e\<lparr>el_econn := Some c\<rparr>, w) (e', w')" using assms [of "(e\<lparr>el_econn := Some c\<rparr>, w)"] f by simp
  then show ?thesis
    by (auto simp: x in_ecall_def f ecall_rel_def conn_rel_def econn_rel_def ecall_frame_def
        user_view_def)
qed

context ecall_user
begin

lemma conn_handler_rel: "ecall_rel U s (econn_conn_handler P H mt us cl age sdp props s)"
proof (cases s)
  case (Pair e w)
  obtain err e1 where 1: "(if el_mf e = None then alloc_mediaflow P (e, w) else (0, e)) = (err, e1)"
    by fastforce
  have s1: "mf_same e e1" using 1 alloc_mediaflow_same' by (auto split: if_splits)
  obtain err2 e2 where 2: "mf_do (mediaflow_handle_offer P sdp) e1 = (err2, e2)" by fastforce
  have s2: "mf_same e e2" using mf_same_trans [OF s1 mf_do_same' [OF 2]] .
  define e3 where "e3 = (if prop_is_wild (ecall_props_get_remote (e2\<lparr>el_props_remote := props\<rparr>) ''videosend'')
    then e2\<lparr>el_props_remote := props, el_ub := True\<rparr> else e2\<lparr>el_props_remote := props\<rparr>)"
  have "ecall_rel U (e2, w) (e3, w)"
    unfolding e3_def by (auto simp: ecall_frame_def intro!: ecall_rel_local)
  then have 3: "ecall_rel U (e, w) (e3, w)" by (rule mf_then_rel [OF s2])
  define w' where "w' = (if age * 1000 > timeout_setup (econf (el_conf e3))
      then (case lh_missedh H of None \<Rightarrow> w | Some f \<Rightarrow>
        f mt us (prop_is_true (ecall_props_get_remote (e2\<lparr>el_props_remote := props\<rparr>) ''videosend'')) e3 w)
      else (case lh_connh H of None \<Rightarrow> w | Some f \<Rightarrow>
        f us (prop_is_true (ecall_props_get_remote (e2\<lparr>el_props_remote := props\<rparr>) ''videosend'')) e3 w))"
  have "U\<^sup>*\<^sup>* (b, w) (b, w')" for b
    unfolding w'_def by (auto simp: handlers split: option.split)
  then have "ecall_rel U (e, w) (e3, w')" by (rule ecall_rel_trans [OF 3 ecall_rel_world])
  from ecall_rel_trans [OF this ecall_rel_fields(9)]
  have "ecall_rel U (e, w) (e3\<lparr>el_ts_started := tmr_jiffies P w', el_call_setup_time := -1\<rparr>, w')" .
  moreover have "econn_conn_handler P H mt us cl age sdp props s =
      (if err \<noteq> 0 then ecall_close P H err (e1, w)
       else if err2 \<noteq> 0 then ecall_close P H err2 (e2, w)
       else if \<not> mf_ask (mediaflow_has_data P) e2 then (e2, w)
       else if el_props_remote e2 \<noteq> None then ecall_close P H EPROTO (e2, w)
       else (e3\<lparr>el_ts_started := tmr_jiffies P w', el_call_setup_time := -1\<rparr>, w'))"
    by (simp only: Pair econn_conn_handler_def 1 2 Let_def e3_def w'_def prod.case)
  ultimately show ?thesis
    using then_close [OF mf_same_rel [OF s1, of U w]] then_close [OF mf_same_rel [OF s2, of U w]]
      mf_same_rel [OF s2, of U w]
    by (simp add: Pair)
qed

lemma update_req_handler_rel: "ecall_rel U s (econn_update_req_handler P H us cl sdp props r s)"
proof (cases s)
  case (Pair e w)
  define e0 where "e0 = (if sdp = None then e\<lparr>el_update := True, el_ub := True\<rparr> else e\<lparr>el_update := True\<rparr>)"
  define chg where "chg = (case sdp of None \<Rightarrow> False | Some s \<Rightarrow> strstr s ''x-streamchange'')"
  have r0: "ecall_rel U (e, w) (e0, w)"
    by (auto simp: e0_def ecall_frame_def intro!: ecall_rel_local)
  obtain err e1 where 1: "(if el_mf e0 \<noteq> None \<and> chg
                     then (0, mf_upd (mediaflow_reset_media P)
                                (mf_upd (mediaflow_sdpstate_reset P)
                                   (mf_upd (mediaflow_stop_media P) e0)))
                     else alloc_mediaflow P (e0\<lparr>el_mf := None\<rparr>, w)) = (err, e1)"
    by fastforce
  have "mf_same e0 (mf_upd f (mf_upd g (mf_upd h e0)))" for f g h
    by (rule mf_same_trans [OF mf_same_trans [OF mf_upd_same mf_upd_same] mf_upd_same])
  then have "mf_same e0 e1"
    using 1 alloc_mediaflow_same' [of P "e0\<lparr>el_mf := None\<rparr>" w err e1]
      mf_same_trans [OF mf_same_upd(1) [of e0 None], of e1]
    by (auto split: if_splits)
  then have r1: "ecall_rel U (e, w) (e1, w)" by (rule ecall_rel_mf [OF r0])
  obtain err2 e2 where 2: "mf_do (mediaflow_handle_offer P sdp) e1 = (err2, e2)" by fastforce
  have r2: "ecall_rel U (e, w) (e2, w)" by (rule ecall_rel_mf [OF r1 mf_do_same' [OF 2]])
  define e3 where "e3 = (if prop_is_wild (ecall_props_get_remote (e2\<lparr>el_props_remote := props\<rparr>) ''videosend'')
    then e2\<lparr>el_props_remote := props, el_ub := True\<rparr> else e2\<lparr>el_props_remote := props\<rparr>)\<lparr>el_async := ASYNC_NONE\<rparr>"
  have "ecall_rel U (e2, w) (e3, w)"
    unfolding e3_def by (auto simp: ecall_frame_def intro!: ecall_rel_local)
  then have r3: "ecall_rel U (e, w) (e3, w)" by (rule ecall_rel_trans [OF r2])
  obtain err4 e4 w4 where 4: "generate_or_gather_answer P H (e3, w) = (err4, e4, w4)"
    by (cases "generate_or_gather_answer P H (e3, w)") auto
  have r4: "ecall_rel U (e, w) (e4, w4)"
    using ecall_rel_trans [OF r3 generate_or_gather_answer_rel [of "(e3, w)"]] 4 by simp
  have r5: "ecall_rel U (e, w) (snd (mf_do (mediaflow_start_media P) e4), w4)"
    by (rule ecall_rel_mf [OF r4 mf_do_same])
  have "econn_update_req_handler P H us cl sdp props r s =
      (if err \<noteq> 0 then ecall_close P H err (e1, w)
       else if err2 \<noteq> 0 then ecall_close P H err2 (e2, w)
       else if \<not> mf_ask (mediaflow_has_data P) e2 then (e2, w)
       else if err4 \<noteq> 0 then ecall_close P H err4 (e4, w4)
       else if chg then (snd (mf_do (mediaflow_start_media P) e4), w4)
       else (e4, w4))"
    using 1 2 4
    by (simp only: Pair econn_update_req_handler_def Let_def e0_def chg_def e3_def prod.case)
  then show ?thesis
    using then_close [OF r1] then_close [OF r2] then_close [OF r4] r2 r4 r5 by (simp add: Pair)
qed

lemma answer_handler_rel: "ecall_rel U s (econn_answer_handler P H reset sdp props s)"
proof (cases s)
  case (Pair e w)
  define e0 where "e0 = e\<lparr>el_audio_setup_time := -1, el_call_estab_time := -1, el_ts_answered := tmr_jiffies P w\<rparr>"
  have r0: "ecall_rel U (e, w) (e0, w)" unfolding e0_def by (rule ecall_rel_fields)
  obtain err1 e1 where 1: "mf_do (mediaflow_handle_offer P sdp) (mf_upd (mediaflow_sdpstate_reset P) e0) = (err1, e1)"
    by fastforce
  have r1: "ecall_rel U (e, w) (e1, w)"
    by (rule ecall_rel_mf [OF r0 mf_same_trans [OF mf_upd_same mf_do_same' [OF 1]]])
  obtain err2 e2 w2 where 2: "generate_or_gather_answer P H (e1, w) = (err2, e2, w2)"
    by (cases "generate_or_gather_answer P H (e1, w)") auto
  have r2: "ecall_rel U (e, w) (e2, w2)"
    using ecall_rel_trans [OF r1 generate_or_gather_answer_rel [of "(e1, w)"]] 2 by simp
  obtain err3 e3 where 3: "take_answer P sdp e0 = (err3, e3)" by fastforce
  have r3: "ecall_rel U (e, w) (e3, w)" by (rule ecall_rel_mf [OF r0 take_answer_same' [OF 3]])
  define e4 where "e4 = e3\<lparr>el_props_remote := props, el_answered := True\<rparr>"
  have "ecall_rel U (e3, w) (e4, w)"
    unfolding e4_def by (auto simp: ecall_frame_def intro!: ecall_rel_local)
  then have r4: "ecall_rel U (e, w) (e4, w)" by (rule ecall_rel_trans [OF r3])
  have r5: "ecall_rel U (e, w) (e4, case lh_answerh H of None \<Rightarrow> w | Some answerh \<Rightarrow> answerh e4 w)"
    by (rule ecall_rel_trans [OF r4 ecall_rel_world]) (auto simp: handlers split: option.split)
  have "econn_answer_handler P H reset sdp props s =
      (if reset then
         (if err1 \<noteq> 0 then ecall_close P H err1 (e1, w)
          else if err2 \<noteq> 0 then ecall_close P H err2 (e2, w2)
          else (e2\<lparr>el_answered := True\<rparr>, w2))
       else if el_answered e0 then (e0, w)
       else if err3 \<noteq> 0 then ecall_close P H err3 (e3, w)
       else (e4, case lh_answerh H of None \<Rightarrow> w | Some answerh \<Rightarrow> answerh e4 w))"
    using 1 2 3 by (simp only: Pair econn_answer_handler_def Let_def e0_def e4_def prod.case)
  then show ?thesis
    using then_close [OF r1] then_close [OF r2] then_close [OF r3] r0 r5
      ecall_rel_trans [OF r2 ecall_rel_fields(4)] by (simp add: Pair)
qed

lemma update_resp_handler_rel: "ecall_rel U s (econn_update_resp_handler P H sdp props s)"
proof (cases s)
  case (Pair e w)
  obtain err e1 where 1: "take_answer P sdp e = (err, e1)" by fastforce
  have r1: "ecall_rel U (e, w) (e1, w)" by (rule mf_same_rel [OF take_answer_same' [OF 1]])
  have "ecall_rel U (e, w) (chan_estab P (e1\<lparr>el_props_remote := props\<rparr>), w)"
    by (rule ecall_rel_trans [OF ecall_rel_trans [OF r1 ecall_rel_fields(3)] chan_estab_rel])
  then show ?thesis
    using then_close [OF r1] by (simp add: Pair econn_update_resp_handler_def 1)
qed

lemma close_handler_rel: "ecall_rel U s (econn_close_handler P H err s)"
  by (simp add: econn_close_handler_def close_rel)

end

text \<open>The connection's contract, discharged by the callbacks of \<^verbatim>\<open>ecall.c\<close>.\<close>

sublocale ecall_user \<subseteq> conn: econn_callbacks "ecall_econn_h P H" "conn_rel U"
  by unfold_locales
     (auto simp: ecall_econn_h_def conn_rel_refl conn_rel_same_ident conn_rel_clientid conn_rel_noclose
       send_rel intro: conn_rel_trans in_ecall_rel conn_handler_rel update_req_handler_rel
         answer_handler_rel update_resp_handler_rel close_handler_rel
         conn_rel_trans [OF conn_rel_noclose in_ecall_rel])

section \<open>Operations and events of a call\<close>

lemma create_econn_rel:
  "el_econn e = None \<Longrightarrow> create_econn P (e, w) = (err, e') \<Longrightarrow> ecall_rel U (e, w) (e', w)"
  by (auto simp: create_econn_def ecall_rel_def econn_rel_def ecall_frame_def user_view_def
      split: sum.splits)

lemma props_local_update_rel: "ecall_rel U (e, w) (snd (props_local_update k v e), w)"
proof (cases "props_strings (el_props_local e)")
  case True
  then show ?thesis
    by (auto simp: props_local_update_def econn_props_update_ok ecall_frame_def
        props_strings_set_first intro!: ecall_rel_local)
next
  case False
  then show ?thesis
    by (auto simp: props_local_update_def ecall_frame_def intro!: ecall_rel_local split: option.split)
qed

lemma props_local_update_rel':
  "props_local_update k v e = (err, e') \<Longrightarrow> ecall_rel U (e, w) (e', w)"
  using props_local_update_rel [of U e w k v] by simp

lemma set_error_rel: "ecall_rel U (e, w) (econn_upd (econn_set_error err) e, w)"
  by (rule ecall_rel_econn) (simp add: econn_set_error_def econn_keeps_def)

lemma ecall_media_start_rel: "ecall_rel U (e, w) (snd (ecall_media_start P e), w)"
proof -
  define e1 where "e1 = (if prop_is_wild (ecall_props_get_local e ''videosend'') then e\<lparr>el_ub := True\<rparr> else e)"
  define e2 where "e2 = (if prop_is_true (ecall_props_get_local e ''videosend'')
    then snd (mf_do (mediaflow_set_video_send_active P True) e1) else e1)"
  obtain err e3 where 3: "mf_do (mediaflow_start_media P) e2 = (err, e3)" by fastforce
  have s1: "mf_same e e1" by (simp add: e1_def)
  have s2: "mf_same e e2" using s1 mf_same_trans [OF s1 mf_do_same] by (simp add: e2_def)
  have r3: "ecall_rel U (e, w) (e3, w)" by (rule mf_same_rel [OF mf_same_trans [OF s2 mf_do_same' [OF 3]]])
  have "ecall_media_start P e =
      (if \<not> mf_ask (mediaflow_is_ready P) e then (0, e)
       else if err \<noteq> 0 then (err, econn_upd (econn_set_error err) e3)
       else (0, e3\<lparr>el_media_start_tmr := tmr_cancel\<rparr>))"
    using 3 by (simp only: ecall_media_start_def Let_def e1_def e2_def prod.case)
  then show ?thesis
    using ecall_rel_trans [OF r3 set_error_rel] ecall_rel_trans [OF r3 ecall_rel_fields(8)]
    by simp
qed

context ecall_user
begin

lemma ecall_start_rel: "ecall_rel U s (snd (ecall_start P H s))"
proof (cases s)
  case (Pair e w)
  obtain err1 e1 where 1: "create_econn P (e, w) = (err1, e1)" by fastforce
  define e2 where "e2 = econn_upd (econn_set_state ECONN_PENDING_OUTGOING) e1"
  obtain err3 e3 where 3: "alloc_mediaflow P (e2, w) = (err3, e3)" by fastforce
  obtain err4 e4 w4 where 4: "generate_offer P H (e3\<lparr>el_async := ASYNC_NONE\<rparr>, w) = (err4, e4, w4)"
    by (cases "generate_offer P H (e3\<lparr>el_async := ASYNC_NONE\<rparr>, w)") auto
  have r: "ecall_rel U (e, w) (e1, w) \<and> ecall_rel U (e, w) (e3, w) \<and> ecall_rel U (e, w) (e4, w4)"
    if "el_econn e = None"
  proof -
    have r1: "ecall_rel U (e, w) (e1, w)" by (rule create_econn_rel [OF that 1])
    have "ecall_rel U (e1, w) (e2, w)"
      unfolding e2_def by (rule ecall_rel_econn) (simp add: econn_keeps_def)
    then have r3: "ecall_rel U (e, w) (e3, w)"
      using ecall_rel_mf [OF ecall_rel_trans [OF r1] alloc_mediaflow_same' [OF 3]] by blast
    have "ecall_rel U (e3\<lparr>el_async := ASYNC_NONE\<rparr>, w) (e4, w4)"
      using generate_offer_rel [of "(e3\<lparr>el_async := ASYNC_NONE\<rparr>, w)"] 4 by simp
    then have "ecall_rel U (e, w) (e4, w4)"
      by (rule ecall_rel_trans [OF ecall_rel_trans [OF r3 ecall_rel_fields(1)]])
    then show ?thesis using r1 r3 by simp
  qed
  have "ecall_start P H s =
      (if el_econn e \<noteq> None then (EALREADY, e, w)
       else if el_turn_srv e = None then (EINTR, e, w)
       else if err1 \<noteq> 0 then (err1, e1, w)
       else if err3 \<noteq> 0 then (err3, e3, w)
       else if err4 \<noteq> 0 then (err4, e4, w4)
       else (0, e4\<lparr>el_ts_started := tmr_jiffies P w4, el_call_setup_time := -1\<rparr>, w4))"
    using 1 3 4 by (simp only: Pair ecall_start_def Let_def e2_def prod.case)
  moreover have "ecall_rel U (e, w) (e4\<lparr>el_ts_started := t, el_call_setup_time := -1\<rparr>, w4)"
    if "el_econn e = None" for t
    by (rule ecall_rel_trans [OF _ ecall_rel_fields(9)]) (simp add: r [OF that])
  ultimately show ?thesis
    using r by (simp add: Pair)
qed

lemma ecall_answer_rel: "ecall_rel U s (snd (ecall_answer P H s))"
proof (cases s)
  case (Pair e w)
  obtain err1 e1 w1 where 1: "generate_or_gather_answer P H (e, w) = (err1, e1, w1)"
    by (cases "generate_or_gather_answer P H (e, w)") auto
  have r1: "ecall_rel U (e, w) (e1, w1)" using generate_or_gather_answer_rel [of "(e, w)"] 1 by simp
  have "ecall_rel U (e1, w1) (e1\<lparr>el_answered := True, el_audio_setup_time := -1,
      el_call_estab_time := -1, el_ts_answered := t\<rparr>, w1)" for t
    by (auto simp: ecall_frame_def intro!: ecall_rel_local)
  then show ?thesis
    using r1 ecall_rel_trans [OF r1] by (simp add: Pair ecall_answer_def 1)
qed

lemma ecall_restart_rel: "ecall_rel U s (snd (ecall_restart P H s))"
proof (cases s)
  case (Pair e w)
  obtain err1 e1 where 1: "alloc_mediaflow P (e\<lparr>el_update := True, el_mf := None\<rparr>, w) = (err1, e1)"
    by fastforce
  have "ecall_rel U (e, w) (e\<lparr>el_update := True, el_mf := None\<rparr>, w)"
    by (auto simp: ecall_frame_def intro!: ecall_rel_local)
  then have r1: "ecall_rel U (e, w) (e1, w)" by (rule ecall_rel_mf [OF _ alloc_mediaflow_same' [OF 1]])
  have "ecall_rel U (e, w) (snd (generate_offer P H (e1\<lparr>el_async := ASYNC_NONE\<rparr>, w)))"
    by (rule ecall_rel_trans [OF ecall_rel_trans [OF r1 ecall_rel_fields(1)] generate_offer_rel])
  then show ?thesis
    using r1 by (simp add: Pair ecall_restart_def 1)
qed

lemma ecall_end_rel: "ecall_rel U s (ecall_end P H s)"
proof -
  obtain e w where 1: "on_econn (econn_end (ecall_econn_h P H)) s = (e, w)" by fastforce
  have "ecall_rel U s (e, w)" using on_econn_rel [OF conn.rel_end, of s] 1 by simp
  then show ?thesis by (simp add: ecall_end_def 1 ecall_rel_mf [OF _ mf_upd_same])
qed

lemma then_end: "ecall_rel U s t \<Longrightarrow> ecall_rel U s (ecall_end P H t)"
  by (rule ecall_rel_trans [OF _ ecall_end_rel])

lemma ecall_msg_recv_rel: "ecall_rel U s (ecall_msg_recv P H us cl m s)"
proof (cases s)
  case (Pair e w)
  show ?thesis
  proof (cases "us = None \<or> cl = None \<or> m = None")
    case True
    then show ?thesis by (auto simp: Pair ecall_msg_recv_def split: option.split)
  next
    case False
    then obtain u c x where args: "us = Some u" "cl = Some c" "m = Some x" by auto
    obtain err e' where 1: "(if el_econn e = None \<and> econn_is_creator (el_userid_self e) (Some u) (Some x)
      then create_econn P (e, w) else (0, e)) = (err, e')" by fastforce
    have r: "ecall_rel U (e, w) (e', w)"
      using 1 create_econn_rel by (auto split: if_splits)
    show ?thesis
      using r ecall_rel_trans [OF r on_econn_rel [OF conn.rel_recv_message]]
      by (simp add: Pair ecall_msg_recv_def args 1 on_econn_rel [OF conn.rel_close])
  qed
qed

lemma ecall_transp_recv_rel: "ecall_rel U s (ecall_transp_recv P H ct mt us cl str s)"
  by (simp add: ecall_transp_recv_def ecall_msg_recv_rel split: sum.split)

lemma send_propsync_rel: "ecall_rel U s (snd (send_propsync P H r s))"
  by (cases s) (simp add: send_propsync_def with_econn_rel [OF conn.rel_propsync])

lemma ecall_video_rel: "ecall_rel U s (snd (ecall_set_video_send_active P H a s))"
proof (cases s)
  case (Pair e w)
  obtain err1 e1 where 1: "props_local_update ''videosend'' (if a then ''true'' else ''false'') e = (err1, e1)"
    by fastforce
  have r1: "ecall_rel U (e, w) (e1, w)" by (rule props_local_update_rel' [OF 1])
  obtain err2 e2 where 2: "(if mf_ask (mediaflow_has_video P) e1
      then mf_do (mediaflow_set_video_send_active P a) e1 else (0, e1)) = (err2, e2)" by fastforce
  have "mf_same e1 e2" using 2 mf_do_same' by (auto split: if_splits)
  then have r2: "ecall_rel U (e, w) (e2, w)" by (rule ecall_rel_mf [OF r1])
  show ?thesis
    using r1 r2 ecall_rel_trans [OF r2 send_propsync_rel]
    by (simp add: Pair ecall_set_video_send_active_def 1 2)
qed

lemma ecall_propsync_request_rel: "ecall_rel U s (snd (ecall_propsync_request P H s))"
  by (cases s) (simp add: ecall_propsync_request_def send_propsync_rel)

lemma mf_estab_handler_rel: "ecall_rel U s (mf_estab_handler P H s)"
proof (cases s)
  case (Pair e w)
  define e0 where "e0 = (if sint (el_call_estab_time e) < 0 \<and> el_ts_answered e \<noteq> 0
              then e\<lparr>el_call_estab_time := ucast (tmr_jiffies P w - el_ts_answered e)\<rparr> else e)"
  have r0: "ecall_rel U (e, w) (e0, w)" by (simp add: e0_def)
  obtain err e1 where 1: "ecall_media_start P e0 = (err, e1)" by fastforce
  have r1: "ecall_rel U (e, w) (e1, w)"
    using ecall_rel_trans [OF r0 ecall_media_start_rel [of U e0 w P]] 1 by simp
  have "ecall_rel U (e, w) (e0\<lparr>el_media_start_tmr := t\<rparr>, f b e0 w)"
    if "lh_media_estabh H = Some f" for t b f
    by (rule ecall_rel_trans [OF r0 ecall_rel_trans [OF ecall_rel_world ecall_rel_fields(8)]])
       (rule handlers(4) [OF that])
  moreover have "mf_estab_handler P H s =
      (case lh_media_estabh H of
          Some media_estabh \<Rightarrow>
            (e0\<lparr>el_media_start_tmr := tmr_start 5000 Tmr_media_start\<rparr>, media_estabh (el_update e0) e0 w)
        | None \<Rightarrow> if err \<noteq> 0 then ecall_end P H (e1, w) else (e1, w))"
    using 1 by (simp only: Pair mf_estab_handler_def Let_def e0_def prod.case)
  ultimately show ?thesis
    using r1 then_end [OF r1] by (simp add: Pair split: option.split)
qed

lemma mf_close_handler_rel: "ecall_rel U s (mf_close_handler P H err s)"
  by (cases s) (simp add: mf_close_handler_def then_end [OF set_error_rel] close_rel)

lemma media_start_timeout_rel: "ecall_rel U s (media_start_timeout_handler P H s)"
  by (cases s) (simp add: media_start_timeout_handler_def then_end [OF set_error_rel] close_rel)

lemma mf_gather_handler_rel: "ecall_rel U s (mf_gather_handler P H s)"
proof (cases s)
  case (Pair e w)
  have "ecall_rel U (e, w) (case r of (err, e, w) \<Rightarrow>
      if err \<noteq> 0 then ecall_close P H err (e, w) else (e\<lparr>el_async := ASYNC_COMPLETE\<rparr>, w))"
    if "ecall_rel U (e, w) (snd r)" for r
    using that ecall_rel_trans [OF _ ecall_rel_fields(1)] then_close by (cases r) auto
  then show ?thesis
    by (simp add: Pair mf_gather_handler_def Let_def offer_and_connect_rel generate_answer_rel
        split: async_sdp.split)
qed

lemma channel_estab_handler_rel: "ecall_rel U s (channel_estab_handler P H s)"
proof (cases s)
  case (Pair e w)
  define e1 where "e1 = econn_upd econn_set_datachan_established e"
  define e2 where "e2 = (if mf_ask (mediaflow_get_audio_cbr P) e1
              then snd (props_local_update ''audiocbr'' ''true'' e1) else e1)"
  obtain e3 w3 where 3: "(if econn_can_send_propsync (el_econn e2) then snd (send_propsync P H False (e2, w))
                   else (e2, w)) = (e3, w3)" by fastforce
  have "ecall_rel U (e, w) (e1, w)"
    unfolding e1_def
    by (rule ecall_rel_econn) (simp add: econn_set_datachan_established_def econn_keeps_def)
  then have r2: "ecall_rel U (e, w) (e2, w)"
    using ecall_rel_trans [OF _ props_local_update_rel, of U "(e, w)" e1 w] by (simp add: e2_def)
  have r3: "ecall_rel U (e, w) (e3, w3)"
    using 3 r2 ecall_rel_trans [OF r2 send_propsync_rel [of "(e2, w)" False]] by (auto split: if_splits)
  have "ecall_rel U (e, w) (e3, case lh_datachan_estabh H of None \<Rightarrow> w3 | Some f \<Rightarrow> f (el_update e3) e3 w3)"
    by (rule ecall_rel_trans [OF r3 ecall_rel_world]) (auto simp: handlers split: option.split)
  moreover have "channel_estab_handler P H s =
      (e3, case lh_datachan_estabh H of None \<Rightarrow> w3 | Some f \<Rightarrow> f (el_update e3) e3 w3)"
    using 3 by (simp only: Pair channel_estab_handler_def Let_def e1_def e2_def prod.case)
  ultimately show ?thesis by (simp add: Pair)
qed

lemma data_estab_handler_rel: "ecall_rel U s (data_estab_handler P H s)"
proof (cases s)
  case (Pair e w)
  obtain err e1 where 1: "(if mf_ask (mediaflow_is_sdp_offerer P) e then dce_do (dce_open_chan P) e
                     else (0, e)) = (err, e1)" by fastforce
  have "mf_same e e1" using 1 dce_do_same' by (auto split: if_splits)
  then have "ecall_rel U (e, w) (e1, w)" by (rule mf_same_rel)
  then show ?thesis by (simp add: Pair data_estab_handler_def 1 then_close)
qed

lemma data_channel_handler_rel: "ecall_rel U s (data_channel_handler P H d s)"
proof (cases s)
  case (Pair e w)
  show ?thesis
  proof (cases "econn_message_decode (mo_ld P) 0 0 (Some d)")
    case (Inl a)
    then show ?thesis by (simp add: Pair data_channel_handler_def)
  next
    case (Inr msg)
    obtain err e1 w1 where 1: "(if econn_message_isrequest (Some msg) then send_propsync P H True (e, w)
                              else (0, e, w)) = (err, e1, w1)"
      by (cases "if econn_message_isrequest (Some msg) then send_propsync P H True (e, w) else (0, e, w)") auto
    have r1: "ecall_rel U (e, w) (e1, w1)"
      using 1 send_propsync_rel [of "(e, w)" True] by (auto split: if_splits)
    define e2 where "e2 = (if propsync_props msg \<noteq> None
                         then e1\<lparr>el_props_remote := propsync_props msg\<rparr> else e1)"
    have r2: "ecall_rel U (e, w) (e2, w1)"
      using r1 ecall_rel_trans [OF r1 ecall_rel_fields(3)] by (simp add: e2_def)
    have "ecall_rel U (e, w) (e2, case lh_propsynch H of None \<Rightarrow> w1 | Some f \<Rightarrow> f e2 w1)"
      by (rule ecall_rel_trans [OF r2 ecall_rel_world]) (auto simp: handlers split: option.split)
    moreover have "ecall_rel U (e, w) (on_econn (\<lambda>(c, s). econn_recv_message (ecall_econn_h P H) ''na''
                                (ec_clientid_remote c) msg (c, s)) (e, w))"
      by (rule on_econn_rel) (auto simp: conn.rel_recv_message)
    moreover have "data_channel_handler P H d s =
      (if msg_type msg = ECONN_PROPSYNC then
         (if err \<noteq> 0 then (e1, w1)
          else (e2, case lh_propsynch H of None \<Rightarrow> w1 | Some f \<Rightarrow> f e2 w1))
       else on_econn (\<lambda>(c, s). econn_recv_message (ecall_econn_h P H) ''na''
                                (ec_clientid_remote c) msg (c, s)) (e, w))"
      using 1 by (simp only: Pair data_channel_handler_def Inr Let_def e2_def prod.case sum.case)
    ultimately show ?thesis using r1 by (simp add: Pair)
  qed
qed

lemma rtp_start_handler_rel: "ecall_rel U s (rtp_start_handler P H started s)"
proof (cases s)
  case (Pair e w)
  define w1 where "w1 = (if started
              then (case lh_audio_estabh H of None \<Rightarrow> w | Some f \<Rightarrow> f (el_update e) e w) else w)"
  have r1: "ecall_rel U (e, w) (e, w1)"
    by (rule ecall_rel_world) (auto simp: w1_def handlers split: option.split)
  show ?thesis
    using r1 ecall_rel_trans [OF r1 ecall_rel_fields(11)]
    by (simp add: Pair rtp_start_handler_def w1_def [symmetric] Let_def)
qed

lemma has_mf_rel: "(\<And>s. ecall_rel U s (f s)) \<Longrightarrow> ecall_rel U s (has_mf f s)"
  by (simp add: has_mf_def)

lemma ecall_step_rel: "ecall_rel U s (ecall_step P H ev s)"
proof (cases s)
  case (Pair e w)
  have tmr: "ecall_rel U (e, w) (f (e\<lparr>el_tmr := None\<rparr>, w))"
    "ecall_rel U (e, w) (f (e\<lparr>el_media_start_tmr := None\<rparr>, w))"
    if "\<And>s. ecall_rel U s (f s)" for f
    using ecall_rel_trans [OF ecall_rel_fields(7) that] ecall_rel_trans [OF ecall_rel_fields(8) that] by blast+
  note rels = ecall_start_rel ecall_answer_rel ecall_end_rel ecall_restart_rel ecall_media_start_rel
    ecall_video_rel ecall_propsync_request_rel ecall_msg_recv_rel ecall_transp_recv_rel
    mf_estab_handler_rel mf_close_handler_rel mf_gather_handler_rel data_estab_handler_rel
    data_channel_handler_rel rtp_start_handler_rel channel_estab_handler_rel media_start_timeout_rel
    mf_same_rel [OF mf_upd_same] close_rel tmr has_mf_rel on_econn_rel [OF conn.rel_tmr_fire]
  show ?thesis
    by (cases ev)
       (auto simp: Pair ecall_media_stop_def ecall_set_turnserver_def data_channel_open_handler_def
         data_channel_closed_handler_def rels split: option.split intro!: has_mf_rel)
qed

end

sublocale ecall_user \<subseteq> steps: monotone_step "ecall_step P H" "ecall_rel U"
  by unfold_locales (auto intro: ecall_rel_trans ecall_step_rel)

end
