(* ===== verification/Ecall_Correct.thy ===== *)
theory Ecall_Correct
  imports Ecall_Steps
begin

text \<open>
  Properties of one call. The user records what it is told; the media engine, the network, the
  clock and the peer are unconstrained, and the environment may change between any two events.
\<close>

section \<open>A recording user\<close>

datatype ecall_out =
    Lo_conn string bool
  | Lo_answer
  | Lo_missed u32 string bool
  | Lo_media_estab bool
  | Lo_audio_estab bool
  | Lo_datachan bool
  | Lo_propsync
  | Lo_close int cptr
  | Lo_send cptr string

text \<open>\<open>pol\<close> decides what the transport answers.\<close>

definition elog_h :: "(string \<Rightarrow> int) \<Rightarrow> ('m, 'x \<times> ecall_out list) ecall_h" where
  "elog_h pol =
     \<lparr>lh_connh = Some (\<lambda>us v e (x, l). (x, l @ [Lo_conn us v])),
      lh_answerh = Some (\<lambda>e (x, l). (x, l @ [Lo_answer])),
      lh_missedh = Some (\<lambda>t us v e (x, l). (x, l @ [Lo_missed t us v])),
      lh_media_estabh = Some (\<lambda>u e (x, l). (x, l @ [Lo_media_estab u])),
      lh_audio_estabh = Some (\<lambda>u e (x, l). (x, l @ [Lo_audio_estab u])),
      lh_datachan_estabh = Some (\<lambda>u e (x, l). (x, l @ [Lo_datachan u])),
      lh_propsynch = Some (\<lambda>e (x, l). (x, l @ [Lo_propsync])),
      lh_closeh = (\<lambda>err js e (x, l). (x, l @ [Lo_close err js])),
      lh_sendh = (\<lambda>u str e (x, l). (pol str, x, l @ [Lo_send u str]))\<rparr>"

fun n_lcloses :: "ecall_out list \<Rightarrow> nat" where
  "n_lcloses [] = 0"
| "n_lcloses (Lo_close err js # os) = Suc (n_lcloses os)"
| "n_lcloses (x # os) = n_lcloses os"

lemma n_lcloses_append [simp]: "n_lcloses (xs @ ys) = n_lcloses xs + n_lcloses ys"
  by (induction xs rule: n_lcloses.induct) auto

text \<open>The calls of the close handler made and still possible do not change.\<close>

definition close_law :: "('x \<times> ecall_out list) user_rel" where
  "close_law s t \<longleftrightarrow>
     n_lcloses (snd (snd t)) + of_bool (fst t) = n_lcloses (snd (snd s)) + of_bool (fst s)"

lemma close_law_run: "close_law\<^sup>*\<^sup>* s t \<Longrightarrow> close_law s t"
  by (induction rule: rtranclp_induct) (auto simp: close_law_def)

interpretation elog: ecall_user P "elog_h pol" close_law for P pol
  by unfold_locales (auto simp: elog_h_def close_law_def split: prod.split)

text \<open>A call and its environment: an event of the call, or a new environment.\<close>

fun ecall_sys ::
  "('m, 'x \<times> ecall_out list, 'f) media \<Rightarrow> (string \<Rightarrow> int) \<Rightarrow> 'm ecall_event + 'x \<Rightarrow>
     'm ecall \<times> 'x \<times> ecall_out list \<Rightarrow> 'm ecall \<times> 'x \<times> ecall_out list" where
  "ecall_sys P pol (Inl ev) s = ecall_step P (elog_h pol) ev s"
| "ecall_sys P pol (Inr x) (e, y, l) = (e, x, l)"

interpretation sys: monotone_step "ecall_sys P pol" "ecall_rel close_law" for P pol
proof unfold_locales
  fix ev and s :: "'a ecall \<times> 'b \<times> ecall_out list"
  show "ecall_rel close_law s (ecall_sys P pol ev s)"
  proof (cases ev)
    case (Inl a)
    then show ?thesis using elog.ecall_step_rel by simp
  next
    case (Inr x)
    then show ?thesis
      by (cases s) (auto intro!: ecall_rel_world r_into_rtranclp simp: close_law_def)
  qed
qed (auto intro: ecall_rel_trans)

lemma sys_run_rel:
  "run (ecall_sys P pol) evs s = t \<Longrightarrow> ecall_rel close_law s t"
  using sys.rel_run [of s P pol evs] by simp

lemma ecall_alloc_fields:
  assumes "ecall_alloc conf b cid us cl = Inr e"
  shows "el_closeh e" "props_strings (el_props_local e)" "cid = Some (el_convid e)"
    "el_userid_self e = us" "el_clientid e = cl" "el_econn e = None" "el_mf e = None" "\<not> el_ub e"
  using assms by (auto simp: ecall_alloc_def str_isset_def split: if_splits option.splits)

section \<open>A media engine that always works\<close>

text \<open>
  An instance of the media parameter for concrete runs: every operation succeeds, the state of a
  media flow is the number of messages sent over its data channel, and \<open>addr\<close> gives the source
  address of the host.
\<close>

definition media_ok :: "('w \<Rightarrow> sockaddr option) \<Rightarrow> (nat, 'w, rat) media" where
  "media_ok addr =
     \<lparr>mo_ld = ld_rat, tmr_jiffies = (\<lambda>w. 1), source_addr = addr, get_loopback = (\<lambda>w. False),
      net_ifs = (\<lambda>w. []), rand_sessid = (\<lambda>w. ''s1''), mediaflow_alloc = (\<lambda>a w. (0, 0)),
      mediaflow_configure = (\<lambda>t m. m), mediaflow_add_video = (\<lambda>m. (0, m)),
      mediaflow_has_dce = (\<lambda>m. True), dce_channel_alloc = (\<lambda>m. (0, m)),
      mediaflow_add_data = (\<lambda>m. (0, m)), mediaflow_add_local_host_candidate = (\<lambda>i a m. (0, m)),
      mediaflow_gather_turn = (\<lambda>a u p m. (0, m)), mediaflow_handle_offer = (\<lambda>s m. (0, m)),
      mediaflow_handle_answer = (\<lambda>s m. (0, m)), mediaflow_generate_offer = (\<lambda>m. (Inr ''v=0'', m)),
      mediaflow_generate_answer = (\<lambda>m. (Inr ''v=1'', m)), mediaflow_start_ice = (\<lambda>m. (0, m)),
      mediaflow_start_media = (\<lambda>m. (0, m)), mediaflow_stop_media = (\<lambda>m. m),
      mediaflow_sdpstate_reset = (\<lambda>m. m), mediaflow_reset_media = (\<lambda>m. m),
      mediaflow_set_video_send_active = (\<lambda>a m. (0, m)), mediaflow_has_data = (\<lambda>m. True),
      mediaflow_has_video = (\<lambda>m. True), mediaflow_is_gathered = (\<lambda>m. True),
      mediaflow_is_ready = (\<lambda>m. True), mediaflow_is_sdp_offerer = (\<lambda>m. True),
      mediaflow_get_audio_cbr = (\<lambda>m. False), dce_send = (\<lambda>s m. (0, Suc m)),
      dce_is_chan_open = (\<lambda>m. False), dce_open_chan = (\<lambda>m. (0, m)), avs_version_str = ''3'',
      float_to_int = (\<lambda>x. word_of_int \<lfloor>x\<rfloor>), mediaflow_dtls_ready = (\<lambda>m. True),
      mediaflow_ice_ready = (\<lambda>m. True), mediaflow_get_media_time = (\<lambda>m. 0),
      mediaflow_codec_stats = (\<lambda>m. None), mediaflow_rcv_audio_rtp_stats = (\<lambda>m. None),
      mediaflow_snd_audio_rtp_stats = (\<lambda>m. None), mediaflow_rcv_video_rtp_stats = (\<lambda>m. None),
      mediaflow_snd_video_rtp_stats = (\<lambda>m. None), mediaflow_stats_get = (\<lambda>m. None)\<rparr>"

definition media0 :: "(nat, sockaddr option \<times> ecall_out list, rat) media" where
  "media0 = media_ok fst"

definition call0 :: "nat ecall" where
  "call0 = (case ecall_alloc None True (Some ''conv'') (Some ''user'') (Some ''dev'') of Inr e \<Rightarrow> e)"

lemma call0: "ecall_alloc None True (Some ''conv'') (Some ''user'') (Some ''dev'') = Inr call0"
  by (simp add: call0_def ecall_alloc_def str_isset_def)

text \<open>An outgoing call that is given up.\<close>

definition events0 :: "(nat ecall_event + sockaddr option) list" where
  "events0 = [Inr (Some ''10.0.0.1''), Inl (L_set_turn (Some ''t'') (Some ''u'') (Some ''p'')),
     Inl L_start, Inl L_end, Inl L_tmr_econn, Inl L_end]"

section \<open>Closing\<close>

text \<open>
  C8. However a call is used and whatever its media flow, its timers and its peer do, its close
  handler is called at most once, and it has been called exactly when the call no longer holds it.
\<close>

theorem ecall_close_once:
  assumes "ecall_alloc conf b cid us cl = Inr e"
    and "run (ecall_sys P pol) evs (e, x, []) = (e', x', l)"
  shows "n_lcloses l \<le> 1 \<and> (n_lcloses l = 1 \<longleftrightarrow> \<not> el_closeh e')"
proof -
  from sys_run_rel [OF assms(2)] show ?thesis
    using ecall_alloc_fields(1) [OF assms(1)]
      close_law_run
    by (fastforce simp: ecall_rel_def user_view_def close_law_def)
qed

theorem ecall_close_once_witness:
  "n_lcloses (snd (snd (run (ecall_sys media0 (\<lambda>_. 0)) events0 (call0, None, [])))) \<le> 1"
  using ecall_close_once [OF call0, of media0 "\<lambda>_. 0" events0 None
      "fst (run (ecall_sys media0 (\<lambda>_. 0)) events0 (call0, None, []))"
      "fst (snd (run (ecall_sys media0 (\<lambda>_. 0)) events0 (call0, None, [])))"
      "snd (snd (run (ecall_sys media0 (\<lambda>_. 0)) events0 (call0, None, [])))"]
  by simp

text \<open>
  A call keeps its conversation, user and client for life; once answered it stays answered; and
  the session id, and the remote client once known, of its connection never change.
\<close>

theorem ecall_identity_kept:
  assumes "run (ecall_sys P pol) evs (e, x, l) = (e', x', l')"
  shows "el_convid e' = el_convid e \<and> el_userid_self e' = el_userid_self e \<and>
     el_clientid e' = el_clientid e \<and> (el_answered e \<longrightarrow> el_answered e') \<and>
     (\<forall>c. el_econn e = Some c \<longrightarrow> (\<exists>c'. el_econn e' = Some c' \<and>
        ec_sessid_local c' = ec_sessid_local c \<and>
        (ec_clientid_remote c \<noteq> [] \<longrightarrow> ec_clientid_remote c' = ec_clientid_remote c)))"
  using sys_run_rel [OF assms]
  by (auto simp: ecall_rel_def ecall_frame_def econn_rel_def econn_keeps_def)

theorem ecall_identity_kept_witness:
  "el_convid (fst (run (ecall_sys media0 (\<lambda>_. 0)) events0 (call0, None, []))) = ''conv''"
  using ecall_identity_kept [of media0 "\<lambda>_. 0" events0 call0 None "[]"
      "fst (run (ecall_sys media0 (\<lambda>_. 0)) events0 (call0, None, []))"
      "fst (snd (run (ecall_sys media0 (\<lambda>_. 0)) events0 (call0, None, [])))"
      "snd (snd (run (ecall_sys media0 (\<lambda>_. 0)) events0 (call0, None, [])))"]
    ecall_alloc_fields(3) [OF call0]
  by simp

text \<open>
  C27. The local properties of a call are always strings, so reading one never yields a wild
  pointer, and changing one always succeeds.
\<close>

theorem ecall_local_props_safe:
  assumes "ecall_alloc conf b cid us cl = Inr e"
    and "run (ecall_sys P pol) evs (e, x, []) = (e', x', l)"
  shows "\<not> prop_is_wild (ecall_props_get_local e' key) \<and>
     fst (props_local_update key val e') = 0 \<and> el_ub (snd (props_local_update key val e')) = el_ub e'"
proof -
  from sys_run_rel [OF assms(2)] have *: "props_strings (el_props_local e')"
    using ecall_alloc_fields(2) [OF assms(1)] by (simp add: ecall_rel_def ecall_frame_def)
  then show ?thesis
    using econn_props_get_strings [OF *]
    by (auto simp: ecall_props_get_local_def prop_is_wild_def props_local_update_def
        econn_props_update_ok split: strptr.split)
qed

theorem ecall_local_props_safe_witness:
  "\<not> prop_is_wild (ecall_props_get_local
      (fst (run (ecall_sys media0 (\<lambda>_. 0)) events0 (call0, None, []))) ''videosend'')"
  using ecall_local_props_safe [OF call0, of media0 "\<lambda>_. 0" events0 None
      "fst (run (ecall_sys media0 (\<lambda>_. 0)) events0 (call0, None, []))"
      "fst (snd (run (ecall_sys media0 (\<lambda>_. 0)) events0 (call0, None, [])))"
      "snd (snd (run (ecall_sys media0 (\<lambda>_. 0)) events0 (call0, None, [])))"]
  by simp

section \<open>The data channel after the media flow is gone\<close>

lemma hangup_encodes:
  "msg_type m = ECONN_HANGUP \<Longrightarrow> \<exists>str. econn_message_encode ld (Some m) = Inr str"
  by (simp add: econn_message_encode_def jzon_creatf_def jzon_add_bool_def json_object_object_add_def
      jzon_add_entry_def jzon_is_container_def json_object_new_string_def
      json_object_new_boolean_def jzon_encode_def jzon_print_def jzon_odict_def)

lemma ecall_end_dangling:
  assumes "el_econn e = Some c" "ec_state c = ECONN_DATACHAN_ESTABLISHED"
    and "el_dce e \<noteq> None" "el_dce_ch e \<noteq> None" "el_mf e = None"
  shows "el_ub (fst (ecall_end P H (e, w)))"
proof -
  let ?m = "(econn_message_init ECONN_HANGUP (Some (ec_sessid_local c)))\<lparr>msg_resp := False\<rparr>"
  obtain str where "econn_message_encode (mo_ld P) (Some ?m) = Inr str"
    using hangup_encodes [of ?m "mo_ld P"] by auto
  moreover have "msg_type ?m = ECONN_HANGUP" by simp
  ultimately show ?thesis
    using assms
    by (auto simp: ecall_end_def on_econn_def with_econn_def econn_end_def send_hangup_def
        transp_send_def ecall_econn_h_def ecall_send_handler_def dce_do_def dce_live_def mf_upd_def Let_def)
qed

text \<open>
  C32. When the data channel of an established call closes, the media flow is released but the
  pointers to its data channel are kept: ending the call afterwards (a queued end holds a reference
  to it) sends the HANGUP over freed memory.
\<close>

theorem ecall_closed_channel_dangles:
  assumes "el_econn e = Some c" "ec_state c = ECONN_DATACHAN_ESTABLISHED"
    and "el_dce e \<noteq> None" "el_dce_ch e \<noteq> None"
  shows "el_ub (fst (ecall_end P H (data_channel_closed_handler P H (e, w))))"
proof -
  have "\<exists>w' b. data_channel_closed_handler P H (e, w) = (e\<lparr>el_mf := None, el_closeh := b\<rparr>, w')"
    by (cases "el_closeh e")
       (auto simp: data_channel_closed_handler_def ecall_close_def Let_def intro: exI [of _ False])
  then obtain w' b where "data_channel_closed_handler P H (e, w) = (e\<lparr>el_mf := None, el_closeh := b\<rparr>, w')"
    by blast
  then show ?thesis using ecall_end_dangling [of "e\<lparr>el_mf := None, el_closeh := b\<rparr>" c P H w'] assms by simp
qed

text \<open>An established call with its data channel.\<close>

definition call1 :: "nat ecall" where
  "call1 = call0\<lparr>el_mf := Some (0, 0), el_nmf := 1, el_dce := Some 0, el_dce_ch := Some 0,
     el_econn := Some ((econn0 ''user'' ''dev'' ''s1'')\<lparr>ec_state := ECONN_DATACHAN_ESTABLISHED\<rparr>)\<rparr>"

lemma call1_fields [simp]:
  "el_econn call1 = Some ((econn0 ''user'' ''dev'' ''s1'')\<lparr>ec_state := ECONN_DATACHAN_ESTABLISHED\<rparr>)"
  "el_dce call1 = Some 0" "el_dce_ch call1 = Some 0" "\<not> el_ub call1"
  using ecall_alloc_fields(8) [OF call0] by (simp_all add: call1_def)

theorem ecall_closed_channel_dangles_witness:
  "\<not> el_ub call1 \<and>
   el_ub (fst (ecall_end media0 (elog_h (\<lambda>_. 0))
      (data_channel_closed_handler media0 (elog_h (\<lambda>_. 0)) (call1, None, []))))"
  by (simp add: ecall_closed_channel_dangles [OF call1_fields(1)])

text \<open>
  C33. A network change while the host has no address loses the media flow of an established call,
  again without the pointers to its data channel: the restart fails, and ending the call then uses
  freed memory.
\<close>

theorem ecall_failed_restart_dangles:
  assumes "el_econn e = Some c" "ec_state c = ECONN_DATACHAN_ESTABLISHED"
    and "el_dce e \<noteq> None" "el_dce_ch e \<noteq> None"
    and "source_addr P w = None" "\<not> get_loopback P w"
  shows "fst (ecall_restart P H (e, w)) = EAFNOSUPPORT \<and>
     el_ub (fst (ecall_end P H (snd (ecall_restart P H (e, w)))))"
proof -
  have "ecall_restart P H (e, w) = (EAFNOSUPPORT, e\<lparr>el_update := True, el_mf := None\<rparr>, w)"
    using assms by (simp add: ecall_restart_def alloc_mediaflow_def econn_current_state_def)
  then show ?thesis
    using ecall_end_dangling [of "e\<lparr>el_update := True, el_mf := None\<rparr>" c P H w] assms by simp
qed

theorem ecall_failed_restart_dangles_witness:
  "el_ub (fst (ecall_end media0 (elog_h (\<lambda>_. 0))
      (snd (ecall_restart media0 (elog_h (\<lambda>_. 0)) (call1, None, [])))))"
  using ecall_failed_restart_dangles [of call1 _ media0 "(None, [])"]
  by (simp add: media0_def media_ok_def)

end
