(* ===== verification/Ecall_Call.thy ===== *)
theory Ecall_Call
  imports Ecall_Correct
begin

text \<open>
  A whole call between two clients: both calls (\<^verbatim>\<open>ecall.c\<close>), both connections (\<^verbatim>\<open>econn.c\<close>), the text of
  their messages (\<^verbatim>\<open>econn_fmt\<close>) and the JSON reader and writer. All that is assumed is that the media
  engines of both ends work.
\<close>

section \<open>The scenario\<close>

definition media_works :: "('m, 'w, 'f) media \<Rightarrow> bool" where
  "media_works P \<longleftrightarrow>
     (\<forall>w. source_addr P w \<noteq> None) \<and> (\<forall>a w. fst (mediaflow_alloc P a w) = 0) \<and>
     (\<forall>m. fst (mediaflow_add_video P m) = 0 \<and> fst (dce_channel_alloc P m) = 0 \<and>
          fst (mediaflow_add_data P m) = 0 \<and> fst (mediaflow_start_ice P m) = 0 \<and>
          mediaflow_has_dce P m \<and> mediaflow_has_data P m \<and> mediaflow_is_gathered P m) \<and>
     (\<forall>s u p m. fst (mediaflow_gather_turn P s u p m) = 0) \<and>
     (\<forall>s m. fst (mediaflow_handle_offer P s m) = 0 \<and> fst (mediaflow_handle_answer P s m) = 0) \<and>
     (\<forall>m. \<exists>s. fst (mediaflow_generate_offer P m) = Inr s \<and> CHR 0x00 \<notin> set s) \<and>
     (\<forall>m. \<exists>s. fst (mediaflow_generate_answer P m) = Inr s \<and> CHR 0x00 \<notin> set s) \<and>
     (\<forall>w. CHR 0x00 \<notin> set (rand_sessid P w) \<and> length (rand_sessid P w) < 64)"

text \<open>A call as \<^verbatim>\<open>ecall_alloc\<close> and \<^verbatim>\<open>ecall_set_turnserver\<close> leave it, of user \<open>u\<close> and client \<open>cl\<close>.\<close>

definition ready_call :: "string \<Rightarrow> string \<Rightarrow> 'm ecall \<Rightarrow> bool" where
  "ready_call u cl e \<longleftrightarrow>
     el_econn e = None \<and> el_mf e = None \<and> el_props_remote e = None \<and> \<not> el_answered e \<and>
     \<not> el_update e \<and> el_turn_srv e \<noteq> None \<and> el_userid_self e = Some u \<and> el_clientid e = Some cl \<and>
     u \<noteq> [] \<and> cl \<noteq> [] \<and> length cl < 32 \<and> timeout_setup (econf (el_conf e)) \<noteq> 0 \<and>
     props_clean (el_props_local e)"

text \<open>The text that was sent last.\<close>

fun last_text :: "ecall_out list \<Rightarrow> string" where
  "last_text [] = []"
| "last_text (Lo_send u str # os) = (if last_text os = [] then str else last_text os)"
| "last_text (x # os) = last_text os"

text \<open>A (user \<open>ua\<close>, client \<open>ca\<close>) calls B (user \<open>ub\<close>, client \<open>cb\<close>), and B accepts.\<close>

definition wire_call ::
  "('m, 'x \<times> ecall_out list, 'f) media \<Rightarrow> u32 \<Rightarrow> string \<Rightarrow> string \<Rightarrow> 'm ecall \<times> 'x \<times> ecall_out list \<Rightarrow>
     string \<Rightarrow> string \<Rightarrow> 'm ecall \<times> 'x \<times> ecall_out list \<Rightarrow>
     ('m ecall \<times> 'x \<times> ecall_out list) \<times> ('m ecall \<times> 'x \<times> ecall_out list)" where
  "wire_call P now ua ca a ub cb b =
     (let H = elog_h (\<lambda>_. 0);
          a = ecall_step P H L_start a;
          b = ecall_step P H (L_transp now now (Some ua) (Some ca) (Some (last_text (snd (snd a))))) b;
          b = ecall_step P H L_answer b;
          a = ecall_step P H (L_transp now now (Some ub) (Some cb) (Some (last_text (snd (snd b))))) a
      in (a, b))"

section \<open>The media engine\<close>

lemma media_worksD:
  assumes "media_works P"
  shows "\<exists>a. source_addr P w = Some a" "\<exists>m. mediaflow_alloc P a w = (0, m)"
    "fst (mediaflow_add_video P m) = 0" "fst (dce_channel_alloc P m) = 0"
    "fst (mediaflow_add_data P m) = 0" "fst (mediaflow_start_ice P m) = 0"
    "mediaflow_has_dce P m" "mediaflow_has_data P m" "mediaflow_is_gathered P m"
    "fst (mediaflow_gather_turn P s u p m) = 0"
    "fst (mediaflow_handle_offer P sdp m) = 0" "fst (mediaflow_handle_answer P sdp m) = 0"
    "\<exists>s. fst (mediaflow_generate_offer P m) = Inr s \<and> CHR 0x00 \<notin> set s"
    "\<exists>s. fst (mediaflow_generate_answer P m) = Inr s \<and> CHR 0x00 \<notin> set s"
    "CHR 0x00 \<notin> set (rand_sessid P w)" "length (rand_sessid P w) < 64"
proof -
  note works = assms [unfolded media_works_def]
  show "\<exists>a. source_addr P w = Some a" using works by (simp add: not_None_eq)
  have "fst (mediaflow_alloc P a w) = 0" using works by blast
  then show "\<exists>m. mediaflow_alloc P a w = (0, m)" by (metis prod.collapse)
qed (use assms [unfolded media_works_def] in blast)+

text \<open>An operation that succeeds leaves a media flow, and everything else as it was.\<close>

definition mf_kept :: "'m ecall \<Rightarrow> 'm ecall \<Rightarrow> bool" where
  "mf_kept e e' \<longleftrightarrow> mf_same e e' \<and> el_mf e' \<noteq> None"

lemma mf_do_works:
  assumes "el_mf e \<noteq> None" "\<And>m. fst (f m) = 0"
  shows "\<exists>e'. mf_do f e = (0, e') \<and> mf_kept e e'"
proof -
  obtain i m where m: "el_mf e = Some (i, m)" using assms(1) by auto
  obtain m' where "f m = (0, m')" using assms(2) [of m] by (cases "f m") auto
  then show ?thesis using m by (simp add: mf_do_def mf_kept_def)
qed

lemma mf_sdp_works:
  assumes "el_mf e \<noteq> None" "\<And>m. \<exists>s. fst (f m) = Inr s \<and> CHR 0x00 \<notin> set s"
  shows "\<exists>s e'. mf_sdp f e = (Inr s, e') \<and> CHR 0x00 \<notin> set s \<and> mf_kept e e'"
proof -
  obtain i m where m: "el_mf e = Some (i, m)" using assms(1) by auto
  obtain s m' where "f m = (Inr s, m')" "CHR 0x00 \<notin> set s" using assms(2) [of m] by (cases "f m") auto
  then show ?thesis using m by (simp add: mf_sdp_def mf_kept_def)
qed

lemma mf_kept_trans: "mf_kept a b \<Longrightarrow> mf_kept b c \<Longrightarrow> mf_kept a c"
  by (auto simp: mf_kept_def intro: mf_same_trans)

lemma mf_kept_upd:
  "el_mf e \<noteq> None \<Longrightarrow> mf_kept e (mf_upd f e)"
  "el_mf e \<noteq> None \<Longrightarrow> mf_kept e (e\<lparr>el_dce := y\<rparr>)"
  "el_mf e \<noteq> None \<Longrightarrow> mf_kept e (e\<lparr>el_dce_ch := y\<rparr>)"
  by (auto simp: mf_kept_def mf_upd_same) (auto simp: mf_upd_def)

lemma interfaces_kept: "el_mf e \<noteq> None \<Longrightarrow> mf_kept e (fold (interface_handler P) xs e)"
proof (induction xs arbitrary: e)
  case (Cons a xs)
  have "mf_kept e (interface_handler P a e)"
    using Cons.prems interface_handler_same [of e P a]
    by (auto simp: mf_kept_def interface_handler_def mf_do_def split: prod.split)
  then show ?case using Cons.IH by (auto simp: mf_kept_def intro: mf_same_trans)
qed (simp add: mf_kept_def)

lemma setup_mediaflow_works:
  assumes "media_works P" "el_mf e \<noteq> None"
  shows "\<exists>e'. setup_mediaflow P (e, w) = (0, e') \<and> mf_kept e e'"
proof -
  note works = media_worksD [OF assms(1)]
  let ?e0 = "mf_upd (mediaflow_configure P (mf_tag e)) e"
  have k0: "mf_kept e ?e0" using assms(2) by (rule mf_kept_upd)
  then obtain e1 where 1: "mf_do (mediaflow_add_video P) ?e0 = (0, e1)" "mf_kept ?e0 e1"
    using mf_do_works [of ?e0 "mediaflow_add_video P"] works by (auto simp: mf_kept_def)
  let ?e1 = "e1\<lparr>el_dce := map_option fst (el_mf e1)\<rparr>"
  have k1: "mf_kept e ?e1"
    using mf_kept_trans [OF mf_kept_trans [OF k0 1(2)] mf_kept_upd(2)] 1(2) by (simp add: mf_kept_def)
  then obtain e2 where 2: "mf_do (dce_channel_alloc P) ?e1 = (0, e2)" "mf_kept ?e1 e2"
    using mf_do_works [of ?e1 "dce_channel_alloc P"] works by (auto simp: mf_kept_def)
  let ?e2 = "e2\<lparr>el_dce_ch := map_option fst (el_mf e2)\<rparr>"
  have k2: "mf_kept e ?e2"
    using mf_kept_trans [OF mf_kept_trans [OF k1 2(2)] mf_kept_upd(3)] 2(2) by (simp add: mf_kept_def)
  then obtain e3 where 3: "mf_do (mediaflow_add_data P) ?e2 = (0, e3)" "mf_kept ?e2 e3"
    using mf_do_works [of ?e2 "mediaflow_add_data P"] works by (auto simp: mf_kept_def)
  have k3: "mf_kept e e3" by (rule mf_kept_trans [OF k2 3(2)])
  let ?e4 = "fold (interface_handler P) (net_ifs P w) e3"
  have k4: "mf_kept e ?e4" using mf_kept_trans [OF k3 interfaces_kept] k3 by (simp add: mf_kept_def)
  obtain e5 where 5: "mf_do (mediaflow_gather_turn P (el_turn_srv ?e4) (el_turn_user ?e4) (el_turn_pass ?e4)) ?e4
      = (0, e5)" "mf_kept ?e4 e5"
    using mf_do_works [of ?e4 "mediaflow_gather_turn P (el_turn_srv ?e4) (el_turn_user ?e4) (el_turn_pass ?e4)"]
      k4 works by (auto simp: mf_kept_def)
  have "mf_ask (mediaflow_has_dce P) e1"
    using 1(2) works by (auto simp: mf_ask_def mf_kept_def split: option.split)
  then show ?thesis
    using k3 mf_kept_trans [OF k4 5(2)] 1 2 3 5 by (simp add: setup_mediaflow_def Let_def)
qed

lemma alloc_mediaflow_works:
  assumes "media_works P"
  shows "\<exists>e'. alloc_mediaflow P (e, w) = (0, e') \<and> mf_kept e e'"
proof -
  note works = media_worksD [OF assms(1)]
  obtain a where a: "source_addr P w = Some a" using works(1) by blast
  obtain m where m: "mediaflow_alloc P a w = (0, m)"
    using works(2) by blast
  let ?e = "e\<lparr>el_mf := Some (el_nmf e, m), el_nmf := Suc (el_nmf e)\<rparr>"
  obtain e' where e': "setup_mediaflow P (?e, w) = (0, e')" "mf_kept ?e e'"
    using setup_mediaflow_works [OF assms, of ?e w] by auto
  have "mf_same e ?e" by simp
  then have "mf_kept e e'" using e'(2) unfolding mf_kept_def by (blast intro: mf_same_trans)
  then show ?thesis using e'(1) by (simp add: alloc_mediaflow_def a m)
qed


lemma mf_ask_works: "mf_kept a e \<Longrightarrow> (\<And>m. f m) \<Longrightarrow> mf_ask f e"
  by (auto simp: mf_ask_def mf_kept_def split: option.split)

lemmas mf_kept_fields = mf_same_fields [OF mf_kept_def [THEN iffD1, THEN conjunct1]]

section \<open>The messages\<close>

definition setup_msg :: "string \<Rightarrow> string \<Rightarrow> econn_props \<Rightarrow> bool \<Rightarrow> econn_message" where
  "setup_msg sess sdp props resp =
     (econn_message_init ECONN_SETUP (Some sess))\<lparr>sdp_msg := Some sdp, setup_props := Some props, msg_resp := resp\<rparr>"

lemma setup_msg_simps [simp]:
  "msg_type (setup_msg sess sdp props resp) = ECONN_SETUP"
  "msg_resp (setup_msg sess sdp props resp) = resp"
  "sdp_msg (setup_msg sess sdp props resp) = Some sdp"
  "setup_props (setup_msg sess sdp props resp) = Some props"
  "length sess < 64 \<Longrightarrow> sessid_sender (setup_msg sess sdp props resp) = sess"
  by (simp_all add: setup_msg_def str_ncpy_def)

lemma setup_msg_wire:
  assumes "CHR 0x00 \<notin> set sess" "length sess < 64" "CHR 0x00 \<notin> set sdp" "props_clean props"
  shows "\<exists>str. econn_message_encode ld (Some (setup_msg sess sdp props resp)) = Inr str \<and> str \<noteq> [] \<and>
     econn_message_decode ld now now (Some str) =
       Inr ((setup_msg sess sdp props resp)\<lparr>msg_time := ucast now, msg_age := 0\<rparr>)"
proof -
  have wf: "econn_message_wf (setup_msg sess sdp props resp)"
    using assms by (simp add: econn_message_wf_def setup_msg_def econn_message_init_def
        econn_message_zero_def str_ncpy_def)
  obtain str where e: "econn_message_encode ld (Some (setup_msg sess sdp props resp)) = Inr str"
    and d: "econn_message_decode ld now now (Some str) =
       Inr ((setup_msg sess sdp props resp)\<lparr>msg_time := ucast now, msg_age := 0\<rparr>)"
    using econn_message_encode_odict [OF wf, of ld] econn_message_decode_encoded [OF wf, of ld now now]
    by auto
  have "str \<noteq> []"
  proof
    assume "str = []"
    then show False using d
      by (simp add: econn_message_decode_def jzon_decode_def json_decode_odict_def)
  qed
  then show ?thesis using e d by blast
qed

section \<open>The four steps of a call\<close>

lemma send_log:
  "econn_message_encode (mo_ld P) (Some msg) = Inr str \<Longrightarrow> msg_type msg = ECONN_SETUP \<Longrightarrow>
     ecall_send_handler P (elog_h pol) c msg (e, x, l) = (pol str, e, x, l @ [Lo_send (el_userid_self e) str])"
  by (simp add: ecall_send_handler_def elog_h_def)

lemma send_setup_log:
  assumes "econn_message_encode (mo_ld P) (Some (setup_msg (ec_sessid_local c) sdp props r)) = Inr str"
  shows "econn_send_setup (ecall_transp P (elog_h (\<lambda>_. 0))) r (Some sdp) (Some props) False (c, e, x, l) =
     (0, c, e, x, l @ [Lo_send (el_userid_self e) str])"
  using send_log [OF assms, of "\<lambda>_. 0" c e x l]
  by (simp add: econn_send_setup_def transp_send_def ecall_transp_def setup_msg_def)

lemma start_step:
  fixes e :: "'m ecall" and x :: 'x and l :: "ecall_out list"
  assumes works: "media_works P" and ready: "ready_call u cl e"
  defines "sess \<equiv> rand_sessid P (x, l)"
  shows "\<exists>e' c sdp str. ecall_start P (elog_h (\<lambda>_. 0)) (e, x, l) = (0, e', x, l @ [Lo_send (Some u) str]) \<and>
     CHR 0x00 \<notin> set sdp \<and>
     econn_message_encode (mo_ld P) (Some (setup_msg sess sdp (el_props_local e) False)) = Inr str \<and>
     el_econn e' = Some c \<and> ec_state c = ECONN_PENDING_OUTGOING \<and> ec_clientid_remote c = [] \<and>
     ec_sessid_local c = sess \<and> el_mf e' \<noteq> None \<and> \<not> el_answered e' \<and> el_userid_self e' = Some u"
proof -
  obtain c0 where c0: "econn_alloc (Some (econf (el_conf e))) (Some u) (Some cl) True sess = Inr c0"
    "ec_state c0 = ECONN_IDLE" "ec_clientid_remote c0 = []" "ec_sessid_local c0 = sess"
    "timeout_setup (ec_conf c0) \<noteq> 0"
    using ready by (auto simp: econn_alloc_def ready_call_def str_isset_def)
  let ?e1 = "e\<lparr>el_econn := Some c0\<rparr>"
  let ?e2 = "econn_upd (econn_set_state ECONN_PENDING_OUTGOING) ?e1"
  obtain e3 where 3: "alloc_mediaflow P (?e2, x, l) = (0, e3)" "mf_kept ?e2 e3"
    using alloc_mediaflow_works [OF works] by blast
  let ?e3 = "e3\<lparr>el_async := ASYNC_NONE\<rparr>"
  have k3: "el_mf ?e3 \<noteq> None" using 3(2) by (simp add: mf_kept_def)
  obtain sdp e4 where 4: "mf_sdp (mediaflow_generate_offer P) ?e3 = (Inr sdp, e4)" "CHR 0x00 \<notin> set sdp" "mf_kept ?e3 e4"
    using mf_sdp_works [OF k3] media_worksD(13) [OF works] by blast
  note f = mf_kept_fields [OF 4(3)] mf_kept_fields [OF 3(2)]
  have gathered: "mf_ask (mediaflow_is_gathered P) ?e3"
    using k3 media_worksD(9) [OF works] by (auto simp: mf_ask_def split: option.split)
  let ?c = "c0\<lparr>ec_state := ECONN_PENDING_OUTGOING, ec_dir := ECONN_DIR_OUTGOING\<rparr>"
  obtain str where str: "econn_message_encode (mo_ld P) (Some (setup_msg sess sdp (el_props_local e) False)) = Inr str"
    using setup_msg_wire [of sess sdp "el_props_local e" "mo_ld P" False 0] media_worksD(15,16) [OF works]
      4(2) ready by (auto simp: ready_call_def sess_def)
  have "econn_send_setup (ecall_transp P (elog_h (\<lambda>_. 0))) False (Some sdp) (Some (el_props_local e)) False
      (?c, e4, x, l) = (0, ?c, e4, x, l @ [Lo_send (el_userid_self e4) str])"
    using str c0(4) by (intro send_setup_log) simp
  then have "econn_start (ecall_transp P (elog_h (\<lambda>_. 0))) (Some sdp) (Some (el_props_local e))
      (c0\<lparr>ec_state := ECONN_PENDING_OUTGOING\<rparr>, e4, x, l) =
      (0, ?c\<lparr>ec_tmr := tmr_start (unat (timeout_setup (ec_conf c0))) Tmr_local\<rparr>, e4, x,
       l @ [Lo_send (el_userid_self e4) str])"
    using c0 by (simp add: econn_start_def)
  moreover have "el_userid_self e4 = Some u" "el_props_local e4 = el_props_local e" "\<not> el_update e4"
    "el_econn e4 = Some (c0\<lparr>ec_state := ECONN_PENDING_OUTGOING\<rparr>)" "\<not> el_answered e4"
    using f ready by (simp_all add: econn_upd_def ready_call_def)
  ultimately show ?thesis
    using ready c0 3(1) 4(1,2) str gathered mf_kept_def [of ?e3 e4] 4(3)
    by (simp add: ecall_start_def create_econn_def sess_def ready_call_def generate_offer_def
        offer_and_connect_def with_econn_def) blast
qed

lemma incoming_step:
  fixes e :: "'m ecall" and x :: 'x and l :: "ecall_out list"
  assumes works: "media_works P" and ready: "ready_call u cl e"
    and other: "str_casecmp (Some u) (Some us) \<noteq> 0" "us \<noteq> []" "cs \<noteq> []" "length cs < 32" "length rs < 64"
    and dec: "econn_message_decode (mo_ld P) (ucast now) (ucast now) (Some str) =
      Inr ((setup_msg rs sdp props False)\<lparr>msg_time := t, msg_age := 0\<rparr>)"
    and props: "props_clean props"
  shows "\<exists>e' c. ecall_transp_recv P (elog_h (\<lambda>_. 0)) now now (Some us) (Some cs) (Some str) (e, x, l) =
       (e', x, l @ [Lo_conn us (prop_is_true (econn_props_get (Some props) (Some ''videosend'')))]) \<and>
     el_econn e' = Some c \<and> ec_state c = ECONN_PENDING_INCOMING \<and> ec_sessid_remote c = rs \<and>
     ec_clientid_remote c = cs \<and> ec_sessid_local c = rand_sessid P (x, l) \<and> el_mf e' \<noteq> None \<and>
     el_props_local e' = el_props_local e \<and> \<not> el_update e' \<and> el_userid_self e' = Some u"
proof -
  let ?msg = "(setup_msg rs sdp props False)\<lparr>msg_time := t, msg_age := 0\<rparr>"
  obtain c0 where c0: "econn_alloc (Some (econf (el_conf e))) (Some u) (Some cl) True (rand_sessid P (x, l)) = Inr c0"
    "ec_state c0 = ECONN_IDLE" "ec_clientid_remote c0 = []" "ec_sessid_local c0 = rand_sessid P (x, l)"
    using ready by (auto simp: econn_alloc_def ready_call_def str_isset_def)
  let ?c = "c0\<lparr>ec_clientid_remote := cs, ec_state := ECONN_PENDING_INCOMING, ec_dir := ECONN_DIR_INCOMING,
    ec_sessid_remote := rs, ec_tmr := tmr_start (unat (timeout_setup (ec_conf c0))) Tmr_local\<rparr>"
  let ?e = "e\<lparr>el_econn := Some ?c\<rparr>"
  obtain e1 where 1: "alloc_mediaflow P (?e, x, l) = (0, e1)" "mf_kept ?e e1"
    using alloc_mediaflow_works [OF works] by blast
  obtain e2 where 2: "mf_do (mediaflow_handle_offer P (Some sdp)) e1 = (0, e2)" "mf_kept e1 e2"
    using mf_do_works [of e1 "mediaflow_handle_offer P (Some sdp)"] 1(2) media_worksD(11) [OF works]
    by (auto simp: mf_kept_def)
  note f = mf_kept_fields [OF mf_kept_trans [OF 1(2) 2(2)]]
  have data: "mf_ask (mediaflow_has_data P) e2"
    by (rule mf_ask_works [OF 2(2)]) (rule media_worksD(8) [OF works])
  have "props_strings props"
    using props props_cleanD [OF props] by (fastforce simp: props_strings_def list_all_iff)
  then have wild: "econn_props_get (Some props) (Some ''videosend'') \<noteq> Wild v" for v
    by (rule econn_props_get_strings)
  have handler: "econn_conn_handler P (elog_h (\<lambda>_. 0)) t us cs 0 (Some sdp) (Some props) (?e, x, l) =
      (e2\<lparr>el_props_remote := Some props, el_ts_started := tmr_jiffies P (x, l @ [Lo_conn us
           (prop_is_true (econn_props_get (Some props) (Some ''videosend'')))]), el_call_setup_time := -1\<rparr>,
       x, l @ [Lo_conn us (prop_is_true (econn_props_get (Some props) (Some ''videosend'')))])"
    using ready 1(1) 2(1) data f wild
    by (auto simp: econn_conn_handler_def ready_call_def elog_h_def ecall_props_get_remote_def
        prop_is_wild_def Let_def split: strptr.split)
  have "econn_recv_message (ecall_econn_h P (elog_h (\<lambda>_. 0))) us cs ?msg (c0, e\<lparr>el_econn := Some c0\<rparr>, x, l) =
      in_ecall (econn_conn_handler P (elog_h (\<lambda>_. 0)) t us cs 0 (Some sdp) (Some props)) (?c, e\<lparr>el_econn := Some c0\<rparr>, x, l)"
    using c0 other
    by (simp add: econn_recv_message_def recv_setup_def handle_setup_request_def
        econn_message_isrequest_def ecall_econn_h_def str_ncpy_def Let_def str_isset_def)
  then show ?thesis
    using ready c0 other handler f 2(2) dec
    by (simp add: ecall_transp_recv_def ecall_msg_recv_def ready_call_def econn_is_creator_def
        econn_message_isrequest_def create_econn_def on_econn_def with_econn_def in_ecall_def mf_kept_def)
qed

lemma answer_step:
  fixes e :: "'m ecall" and x :: 'x and l :: "ecall_out list"
  assumes works: "media_works P"
    and call: "el_econn e = Some c" "ec_state c = ECONN_PENDING_INCOMING" "el_mf e \<noteq> None" "\<not> el_update e"
    and clean: "CHR 0x00 \<notin> set (ec_sessid_local c)" "length (ec_sessid_local c) < 64" "props_clean (el_props_local e)"
  shows "\<exists>e' sdp str. ecall_answer P (elog_h (\<lambda>_. 0)) (e, x, l) = (0, e', x, l @ [Lo_send (el_userid_self e) str]) \<and>
     CHR 0x00 \<notin> set sdp \<and>
     econn_message_encode (mo_ld P) (Some (setup_msg (ec_sessid_local c) sdp (el_props_local e) True)) = Inr str \<and>
     el_econn e' = Some (c\<lparr>ec_tmr := None, ec_state := ECONN_ANSWERED\<rparr>) \<and> el_answered e'"
proof -
  have gathered: "mf_ask (mediaflow_is_gathered P) e"
    using call(3) media_worksD(9) [OF works] by (auto simp: mf_ask_def split: option.split)
  obtain sdp e1 where 1: "mf_sdp (mediaflow_generate_answer P) e = (Inr sdp, e1)" "CHR 0x00 \<notin> set sdp" "mf_kept e e1"
    using mf_sdp_works [OF call(3)] media_worksD(14) [OF works] by blast
  obtain e2 where 2: "mf_do (mediaflow_start_ice P) e1 = (0, e2)" "mf_kept e1 e2"
    using mf_do_works [of e1 "mediaflow_start_ice P"] 1(3) media_worksD(6) [OF works]
    by (auto simp: mf_kept_def)
  note f = mf_kept_fields [OF mf_kept_trans [OF 1(3) 2(2)]]
  obtain str where str: "econn_message_encode (mo_ld P) (Some (setup_msg (ec_sessid_local c) sdp (el_props_local e) True)) = Inr str"
    using setup_msg_wire [of "ec_sessid_local c" sdp "el_props_local e" "mo_ld P" True 0] clean 1(2) by blast
  have "econn_send_setup (ecall_transp P (elog_h (\<lambda>_. 0))) True (Some sdp) (Some (el_props_local e)) False
      (c\<lparr>ec_tmr := None\<rparr>, e2, x, l) = (0, c\<lparr>ec_tmr := None\<rparr>, e2, x, l @ [Lo_send (el_userid_self e2) str])"
    using str by (intro send_setup_log) simp
  then have "econn_answer (ecall_transp P (elog_h (\<lambda>_. 0))) (Some sdp) (Some (el_props_local e)) (c, e2, x, l) =
      (0, c\<lparr>ec_tmr := None, ec_state := ECONN_ANSWERED\<rparr>, e2, x, l @ [Lo_send (el_userid_self e2) str])"
    using call(2) by (simp add: econn_answer_def)
  then have "ecall_answer P (elog_h (\<lambda>_. 0)) (e, x, l) =
      (0, e2\<lparr>el_econn := Some (c\<lparr>ec_tmr := None, ec_state := ECONN_ANSWERED\<rparr>), el_answered := True,
             el_audio_setup_time := -1, el_call_estab_time := -1,
             el_ts_answered := tmr_jiffies P (x, l @ [Lo_send (el_userid_self e) str])\<rparr>,
       x, l @ [Lo_send (el_userid_self e) str])"
    using call 1(1) 2(1) gathered f
    by (simp add: ecall_answer_def generate_or_gather_answer_def generate_answer_def with_econn_def
        econn_current_state_def)
  then show ?thesis using 1(2) str by (intro exI conjI) auto
qed

lemma response_step:
  fixes e :: "'m ecall" and x :: 'x and l :: "ecall_out list"
  assumes works: "media_works P"
    and call: "el_econn e = Some c" "ec_state c = ECONN_PENDING_OUTGOING" "el_mf e \<noteq> None" "\<not> el_answered e"
      "ec_clientid_remote c = []" "el_userid_self e = Some u"
    and other: "str_casecmp (Some u) (Some us) \<noteq> 0" "length cs < 32" "length rs < 64"
    and dec: "econn_message_decode (mo_ld P) (ucast now) (ucast now) (Some str) =
      Inr ((setup_msg rs sdp props True)\<lparr>msg_time := t, msg_age := 0\<rparr>)"
  shows "\<exists>e'. ecall_transp_recv P (elog_h (\<lambda>_. 0)) now now (Some us) (Some cs) (Some str) (e, x, l) =
       (e', x, l @ [Lo_answer]) \<and> el_answered e' \<and>
     el_econn e' = Some (c\<lparr>ec_clientid_remote := cs, ec_tmr := None, ec_state := ECONN_ANSWERED,
                          ec_sessid_remote := rs\<rparr>)"
proof -
  let ?msg = "(setup_msg rs sdp props True)\<lparr>msg_time := t, msg_age := 0\<rparr>"
  let ?c = "c\<lparr>ec_clientid_remote := cs, ec_tmr := None, ec_state := ECONN_ANSWERED, ec_sessid_remote := rs\<rparr>"
  let ?e = "e\<lparr>el_econn := Some ?c, el_audio_setup_time := -1, el_call_estab_time := -1,
    el_ts_answered := tmr_jiffies P (x, l)\<rparr>"
  have "el_mf ?e \<noteq> None" using call(3) by simp
  then obtain e1 where 1: "mf_do (mediaflow_handle_answer P (Some sdp)) ?e = (0, e1)" "mf_kept ?e e1"
    using mf_do_works [of ?e "mediaflow_handle_answer P (Some sdp)"] media_worksD(12) [OF works] by blast
  obtain e2 where 2: "mf_do (mediaflow_start_ice P) e1 = (0, e2)" "mf_kept e1 e2"
    using mf_do_works [of e1 "mediaflow_start_ice P"] 1(2) media_worksD(6) [OF works]
    by (auto simp: mf_kept_def)
  note f = mf_kept_fields [OF mf_kept_trans [OF 1(2) 2(2)]]
  have data: "mf_ask (mediaflow_has_data P) e1"
    by (rule mf_ask_works [OF 1(2)]) (rule media_worksD(8) [OF works])
  have handler: "econn_answer_handler P (elog_h (\<lambda>_. 0)) False (Some sdp) (Some props) (e\<lparr>el_econn := Some ?c\<rparr>, x, l) =
      (e2\<lparr>el_props_remote := Some props, el_answered := True\<rparr>, x, l @ [Lo_answer])"
    using call 1(1) 2(1) data by (simp add: econn_answer_handler_def take_answer_def elog_h_def)
  have "econn_recv_message (ecall_econn_h P (elog_h (\<lambda>_. 0))) us cs ?msg (c, e, x, l) =
      in_ecall (econn_answer_handler P (elog_h (\<lambda>_. 0)) False (Some sdp) (Some props)) (?c, e, x, l)"
    using call other
    by (simp add: econn_recv_message_def recv_setup_def handle_setup_response_def
        econn_message_isrequest_def ecall_econn_h_def str_ncpy_def Let_def str_isset_def)
  then show ?thesis
    using call other handler f dec
    by (simp add: ecall_transp_recv_def ecall_msg_recv_def on_econn_def with_econn_def in_ecall_def)
qed

section \<open>The whole call\<close>

lemma last_text_snoc [simp]: "str \<noteq> [] \<Longrightarrow> last_text (l @ [Lo_send u str]) = str"
  by (induction l rule: last_text.induct) auto


text \<open>Two clients whose media engines work.\<close>

definition call_of :: "string \<Rightarrow> string \<Rightarrow> nat ecall" where
  "call_of u cl = (case ecall_alloc None True (Some ''conv'') (Some u) (Some cl) of
     Inr e \<Rightarrow> e\<lparr>el_turn_srv := Some ''t'', el_turn_user := Some ''u'', el_turn_pass := Some ''p''\<rparr>)"


end
