(* ===== verification/Marshal.thy ===== *)
theory Marshal
  imports Ecall_Steps
begin

text \<open>
  The queue between the application's threads and the thread the calls live on:
  \<^verbatim>\<open>src/ecall/marshal.c\<close> over libre's \<^verbatim>\<open>mqueue.c\<close>. A request holds a reference to its call; calls are
  numbered, and a request names the number. The pipe of the queue is the list of the requests that
  were written and not read yet; a write that fails is the error \<open>mq_err\<close>.
\<close>

section \<open>The queue\<close>

record 'a mqueue =
  mq_msgs :: "'a list"
  mq_err :: int

definition mqueue_alloc :: "'a mqueue" where
  "mqueue_alloc = \<lparr>mq_msgs = [], mq_err = 0\<rparr>"

definition mqueue_push :: "'a \<Rightarrow> 'a mqueue \<Rightarrow> int \<times> 'a mqueue" where
  "mqueue_push x mq =
     (if mq_err mq \<noteq> 0 then (mq_err mq, mq) else (0, mq\<lparr>mq_msgs := mq_msgs mq @ [x]\<rparr>))"

text \<open>\<^verbatim>\<open>event_handler\<close>: the next message, if the pipe is readable.\<close>

definition mqueue_read :: "'a mqueue \<Rightarrow> ('a \<times> 'a mqueue) option" where
  "mqueue_read mq =
     (case mq_msgs mq of [] \<Rightarrow> None | x # xs \<Rightarrow> Some (x, mq\<lparr>mq_msgs := xs\<rparr>))"

section \<open>Requests\<close>

datatype mq_data =
    ECALL_MEV_TRANSP_RECV u64 u64 cptr cptr cptr cptr
  | ECALL_MEV_MSG_RECV u64 u64 cptr cptr cptr "econn_message option"
  | ECALL_MEV_START
  | ECALL_MEV_ANSWER
  | ECALL_MEV_RESTART
  | ECALL_MEV_END
  | ECALL_MEV_VIDEO_SEND_ACTIVE bool
  | ECALL_MEV_MEDIA_START
  | ECALL_MEV_MEDIA_STOP

type_synonym ecall_marshal = "(nat \<times> mq_data) mqueue"

fun mqueue_handler ::
  "('m, 'w, 'f) media \<Rightarrow> ('m, 'w) ecall_h \<Rightarrow> mq_data \<Rightarrow> 'm ecall \<times> 'w \<Rightarrow> 'm ecall \<times> 'w" where
  "mqueue_handler P H (ECALL_MEV_TRANSP_RECV curr_time mtime convid userid clientid msg) s =
     ecall_transp_recv P H (ucast curr_time) (ucast mtime) userid clientid msg s"
| "mqueue_handler P H (ECALL_MEV_MSG_RECV curr_time mtime convid userid clientid msg) s =
     ecall_msg_recv P H userid clientid msg s"
| "mqueue_handler P H ECALL_MEV_START s =
     (let (err, s) = ecall_start P H s in if err \<noteq> 0 then ecall_end P H s else s)"
| "mqueue_handler P H ECALL_MEV_ANSWER s =
     (let (err, s) = ecall_answer P H s in if err \<noteq> 0 then ecall_end P H s else s)"
| "mqueue_handler P H ECALL_MEV_RESTART s = snd (ecall_restart P H s)"
| "mqueue_handler P H ECALL_MEV_END s = ecall_end P H s"
| "mqueue_handler P H (ECALL_MEV_VIDEO_SEND_ACTIVE active) s =
     snd (ecall_set_video_send_active P H active s)"
| "mqueue_handler P H ECALL_MEV_MEDIA_START s =
     (let (err, e) = ecall_media_start P (fst s); s = (e, snd s)
      in if err \<noteq> 0 then ecall_end P H s else s)"
| "mqueue_handler P H ECALL_MEV_MEDIA_STOP s = (ecall_media_stop P (fst s), snd s)"

section \<open>The functions of the application's side\<close>

definition ecall_marshal_alloc :: ecall_marshal where
  "ecall_marshal_alloc = mqueue_alloc"

definition marshal_ecall_transp_recv ::
  "nat \<Rightarrow> u64 \<Rightarrow> u64 \<Rightarrow> cptr \<Rightarrow> cptr \<Rightarrow> cptr \<Rightarrow> cptr \<Rightarrow> ecall_marshal option \<Rightarrow> int \<times> ecall_marshal option" where
  "marshal_ecall_transp_recv ecall curr_time mtime convid userid clientid msg em =
     (case em of
        None \<Rightarrow> (EINVAL, em)
      | Some mq \<Rightarrow>
          if convid = None \<or> userid = None \<or> clientid = None \<or> msg = None then (EINVAL, em)
          else let (err, mq) = mqueue_push (ecall, ECALL_MEV_TRANSP_RECV curr_time mtime convid
                                              userid clientid msg) mq
               in (err, Some mq))"

definition marshal_ecall_msg_recv ::
  "nat \<Rightarrow> u64 \<Rightarrow> u64 \<Rightarrow> cptr \<Rightarrow> cptr \<Rightarrow> cptr \<Rightarrow> econn_message option \<Rightarrow> ecall_marshal option \<Rightarrow>
     int \<times> ecall_marshal option" where
  "marshal_ecall_msg_recv ecall curr_time mtime convid userid clientid msg em =
     (case em of
        None \<Rightarrow> (EINVAL, em)
      | Some mq \<Rightarrow>
          if convid = None \<or> userid = None \<or> clientid = None then (EINVAL, em)
          else let (err, mq) = mqueue_push (ecall, ECALL_MEV_MSG_RECV curr_time mtime convid
                                              userid clientid msg) mq
               in (err, Some mq))"

text \<open>The others copy nothing.\<close>

definition marshal_request :: "mq_data \<Rightarrow> nat \<Rightarrow> ecall_marshal option \<Rightarrow> int \<times> ecall_marshal option" where
  "marshal_request ev ecall em =
     (case em of
        None \<Rightarrow> (EINVAL, em)
      | Some mq \<Rightarrow> let (err, mq) = mqueue_push (ecall, ev) mq in (err, Some mq))"

definition marshal_ecall_start :: "nat \<Rightarrow> ecall_marshal option \<Rightarrow> int \<times> ecall_marshal option" where
  "marshal_ecall_start = marshal_request ECALL_MEV_START"

definition marshal_ecall_answer :: "nat \<Rightarrow> ecall_marshal option \<Rightarrow> int \<times> ecall_marshal option" where
  "marshal_ecall_answer = marshal_request ECALL_MEV_ANSWER"

definition marshal_ecall_restart :: "nat \<Rightarrow> ecall_marshal option \<Rightarrow> int \<times> ecall_marshal option" where
  "marshal_ecall_restart = marshal_request ECALL_MEV_RESTART"

definition marshal_ecall_end :: "nat \<Rightarrow> ecall_marshal option \<Rightarrow> int \<times> ecall_marshal option" where
  "marshal_ecall_end = marshal_request ECALL_MEV_END"

definition marshal_ecall_set_video_send_active ::
  "bool \<Rightarrow> nat \<Rightarrow> ecall_marshal option \<Rightarrow> int \<times> ecall_marshal option" where
  "marshal_ecall_set_video_send_active active = marshal_request (ECALL_MEV_VIDEO_SEND_ACTIVE active)"

definition marshal_ecall_media_start :: "nat \<Rightarrow> ecall_marshal option \<Rightarrow> int \<times> ecall_marshal option" where
  "marshal_ecall_media_start = marshal_request ECALL_MEV_MEDIA_START"

definition marshal_ecall_media_stop :: "nat \<Rightarrow> ecall_marshal option \<Rightarrow> int \<times> ecall_marshal option" where
  "marshal_ecall_media_stop = marshal_request ECALL_MEV_MEDIA_STOP"

lemmas marshal_defs =
  marshal_ecall_start_def marshal_ecall_answer_def marshal_ecall_restart_def marshal_ecall_end_def
  marshal_ecall_set_video_send_active_def marshal_ecall_media_start_def marshal_ecall_media_stop_def

section \<open>Requests keep the contract of a call\<close>

context ecall_user
begin

lemma mqueue_handler_rel: "ecall_rel U s (mqueue_handler P H ev s)"
proof (cases ev)
  case ECALL_MEV_START
  then show ?thesis
    using ecall_start_rel [of s] then_end [of s] by (auto split: prod.split)
next
  case ECALL_MEV_ANSWER
  then show ?thesis
    using ecall_answer_rel [of s] then_end [of s] by (auto split: prod.split)
next
  case ECALL_MEV_MEDIA_START
  then show ?thesis
    using ecall_media_start_rel [of U "fst s" "snd s" P] then_end [of s]
    by (cases s) (auto simp: Let_def split: prod.split)
next
  case ECALL_MEV_MEDIA_STOP
  then show ?thesis
    by (cases s) (simp add: ecall_media_stop_def mf_same_rel [OF mf_upd_same])
qed (simp_all add: ecall_transp_recv_rel ecall_msg_recv_rel ecall_restart_rel ecall_end_rel ecall_video_rel)

end

section \<open>The queue is first in, first out\<close>

text \<open>The interface of a queue: what is pushed is read in the order of pushing.\<close>

locale fifo =
  fixes contents :: "'q \<Rightarrow> 'a list"
    and push :: "'a \<Rightarrow> 'q \<Rightarrow> int \<times> 'q"
    and read :: "'q \<Rightarrow> ('a \<times> 'q) option"
  assumes push_ok: "push x q = (0, q') \<Longrightarrow> contents q' = contents q @ [x]"
    and push_fail: "push x q = (err, q') \<Longrightarrow> err \<noteq> 0 \<Longrightarrow> contents q' = contents q"
    and read_none: "read q = None \<longleftrightarrow> contents q = []"
    and read_some: "read q = Some (x, q') \<Longrightarrow> contents q = x # contents q'"
begin

fun read_all :: "nat \<Rightarrow> 'q \<Rightarrow> 'a list \<times> 'q" where
  "read_all 0 q = ([], q)"
| "read_all (Suc n) q =
     (case read q of None \<Rightarrow> ([], q) | Some (x, q) \<Rightarrow> (let (xs, q) = read_all n q in (x # xs, q)))"

lemma read_all_contents: "fst (read_all n q) = take n (contents q) \<and> contents (snd (read_all n q)) = drop n (contents q)"
proof (induction n arbitrary: q)
  case (Suc n)
  show ?case
  proof (cases "read q")
    case None
    then show ?thesis by (simp add: read_none [THEN iffD1])
  next
    case (Some r)
    obtain x q' where r: "r = (x, q')" by fastforce
    then show ?thesis
      using Some Suc.IH [of q'] read_some [of q x q'] by (cases "read_all n q'") simp
  qed
qed simp

end

interpretation mq: fifo mq_msgs mqueue_push mqueue_read
  by unfold_locales (auto simp: mqueue_push_def mqueue_read_def split: if_splits list.splits)

end
