(* ===== verification/Wcall.thy ===== *)
theory Wcall
  imports Marshal
begin

text \<open>
  The calling interface of the library, \<^verbatim>\<open>src/wcall/wcall.c\<close>: the calls of one client, at most one per
  conversation. The application's functions run on its threads, take the lock for the whole of their
  work and put requests into the queue (theory \<open>Marshal\<close>); the calls themselves (theory \<open>Ecall\<close>) run
  on another thread. The state below is the static variable \<^verbatim>\<open>calling\<close> and all call objects; a step is
  one call of the interface, one request taken from the queue, or one event of a media flow or a
  timer. What the application and the media manager are told is recorded in order.

  Call objects are numbered in the order of their creation, which is also their order in the list
  \<^verbatim>\<open>calling.wcalls\<close>. Freeing an object is counted in \<open>wc_derefs\<close>; it is in the list as long as that is 0.
  The \<^verbatim>\<open>ecall\<close> of a freed object lives on while a request in the queue refers to it; a callback into a
  freed object sets the flag \<open>ww_ub\<close>.
\<close>

section \<open>State\<close>

datatype wcall_state =
    WCALL_STATE_NONE | WCALL_STATE_OUTGOING | WCALL_STATE_INCOMING | WCALL_STATE_ANSWERED
  | WCALL_STATE_MEDIA_ESTAB | WCALL_STATE_TERM_LOCAL | WCALL_STATE_TERM_REMOTE
  | WCALL_STATE_UNKNOWN

datatype mediamgr_state =
    MEDIAMGR_STATE_NORMAL | MEDIAMGR_STATE_SETUP_AUDIO_PERMISSIONS
  | MEDIAMGR_STATE_AUDIO_PERMISSIONS_READY | MEDIAMGR_STATE_CALL_ESTABLISHED
  | MEDIAMGR_STATE_VIDEOCALL_ESTABLISHED | MEDIAMGR_STATE_INCALL | MEDIAMGR_STATE_INVIDEOCALL
  | MEDIAMGR_STATE_ROAMING | MEDIAMGR_STATE_HOLD | MEDIAMGR_STATE_RESUME

datatype wcall_reason =
    WCALL_REASON_NORMAL | WCALL_REASON_ERROR | WCALL_REASON_TIMEOUT | WCALL_REASON_LOST_MEDIA
  | WCALL_REASON_CANCELED | WCALL_REASON_ANSWERED_ELSEWHERE | WCALL_REASON_IO_ERROR

datatype wcall_vstate = WCALL_VIDEO_RECEIVE_STOPPED | WCALL_VIDEO_RECEIVE_STARTED

record wcall =
  wc_convid :: string
  wc_userid :: cptr
  wc_video_call :: bool
  wc_send_active :: bool
  wc_recv_state :: wcall_vstate
  wc_recv_cbr :: bool
  wc_state :: wcall_state
  wc_derefs :: nat

text \<open>What the application and the media manager are told.\<close>

datatype wcall_out =
    Wo_ready
  | Wo_state string wcall_state
  | Wo_incoming string cptr bool
  | Wo_missed string u32 cptr bool
  | Wo_answered string
  | Wo_estab string cptr
  | Wo_close wcall_reason string cptr cptr
  | Wo_vstate wcall_vstate
  | Wo_acbr
  | Wo_send nat string cptr cptr string
  | Wo_mm mediamgr_state
  | Wo_stop_silencing

text \<open>Which callbacks are set; \<open>wh_sendh\<close> is what the application's send function answers.\<close>

record wcall_handlers =
  wh_readyh :: bool
  wh_sendh :: "(string \<Rightarrow> int) option"
  wh_incomingh :: bool
  wh_missedh :: bool
  wh_answerh :: bool
  wh_estabh :: bool
  wh_closeh :: bool
  wh_stateh :: bool
  wh_vstateh :: bool
  wh_acbrh :: bool

text \<open>
  \<open>ca_mm\<close> and \<open>ca_config\<close> say whether the media manager and the call configuration exist, \<open>ca_msys\<close>
  whether the flow manager has a media system; \<open>ca_env\<close> is the environment the media engine sees.
\<close>

record 'x calling =
  ca_mm :: bool
  ca_userid :: cptr
  ca_clientid :: cptr
  ca_conf :: ecall_conf
  ca_turn_addr :: "sockaddr option"
  ca_turn_username :: cptr
  ca_turn_credential :: cptr
  ca_h :: wcall_handlers
  ca_config :: bool
  ca_msys :: bool
  ca_ctxl :: "nat list"
  ca_nctx :: nat
  ca_out :: "wcall_out list"
  ca_env :: 'x

text \<open>What a callback of a call sees: its \<^verbatim>\<open>wcall\<close>, whether others are in the list, and \<^verbatim>\<open>calling\<close>.\<close>

record 'x wworld =
  ww_call :: wcall
  ww_others :: bool
  ww_calling :: "'x calling"
  ww_ub :: bool

section \<open>Callbacks of a call\<close>

definition tell :: "wcall_out \<Rightarrow> 'x calling \<Rightarrow> 'x calling" where
  "tell x ca = ca\<lparr>ca_out := ca_out ca @ [x]\<rparr>"

definition tell_if :: "(wcall_handlers \<Rightarrow> bool) \<Rightarrow> wcall_out \<Rightarrow> 'x wworld \<Rightarrow> 'x wworld" where
  "tell_if h x w =
     (if h (ca_h (ww_calling w)) then w\<lparr>ww_calling := tell x (ww_calling w)\<rparr> else w)"

definition mediamgr_set_call_state :: "mediamgr_state \<Rightarrow> 'x calling \<Rightarrow> 'x calling" where
  "mediamgr_set_call_state st ca = (if ca_mm ca then tell (Wo_mm st) ca else ca)"

definition mm_set :: "mediamgr_state \<Rightarrow> 'x wworld \<Rightarrow> 'x wworld" where
  "mm_set st w = w\<lparr>ww_calling := mediamgr_set_call_state st (ww_calling w)\<rparr>"

definition set_state :: "wcall_state \<Rightarrow> 'x wworld \<Rightarrow> 'x wworld" where
  "set_state st w =
     (let trigger = (wc_state (ww_call w) \<noteq> st);
          w = w\<lparr>ww_call := (ww_call w)\<lparr>wc_state := st\<rparr>\<rparr>
      in if trigger then tell_if wh_stateh (Wo_state (wc_convid (ww_call w)) st) w else w)"

definition ecall_propsync_handler :: "'m ecall \<Rightarrow> 'x wworld \<Rightarrow> 'x wworld" where
  "ecall_propsync_handler e w =
     (let v1 = ecall_props_get_remote e ''videosend'';
          v2 = ecall_props_get_remote e ''screensend'';
          v3 = ecall_props_get_remote e ''audiocbr'';
          w = (if prop_is_wild v1 \<or> prop_is_wild v2 \<or> prop_is_wild v3 then w\<lparr>ww_ub := True\<rparr> else w);
          vstate_changed = (v1 \<noteq> Null \<or> v2 \<noteq> Null);
          state = (if prop_is_true v1 \<or> prop_is_true v2 then WCALL_VIDEO_RECEIVE_STARTED
                   else WCALL_VIDEO_RECEIVE_STOPPED);
          w = (if vstate_changed \<and> state \<noteq> wc_recv_state (ww_call w)
               then tell_if wh_vstateh (Wo_vstate state)
                      (w\<lparr>ww_call := (ww_call w)\<lparr>wc_recv_state := state\<rparr>\<rparr>)
               else w)
      in if prop_is_true v3 \<and> \<not> wc_recv_cbr (ww_call w) then
           (let w = tell_if wh_acbrh Wo_acbr w
            in w\<lparr>ww_call := (ww_call w)\<lparr>wc_recv_cbr := True\<rparr>\<rparr>)
         else w)"

definition ecall_conn_handler ::
  "('m, 'x wworld, 'f) media \<Rightarrow> string \<Rightarrow> bool \<Rightarrow> 'm ecall \<Rightarrow> 'x wworld \<Rightarrow> 'x wworld" where
  "ecall_conn_handler P userid_sender video_call e w =
     (let w = w\<lparr>ww_call := (ww_call w)\<lparr>wc_video_call := video_call \<and> ecall_has_video P e\<rparr>\<rparr>;
          w = set_state WCALL_STATE_INCOMING w;
          w = tell_if wh_incomingh
                (Wo_incoming (wc_convid (ww_call w)) (wc_userid (ww_call w)) video_call) w
      in ecall_propsync_handler e w)"

definition ecall_answer_handler :: "'m ecall \<Rightarrow> 'x wworld \<Rightarrow> 'x wworld" where
  "ecall_answer_handler e w =
     (let w = tell_if wh_answerh (Wo_answered (wc_convid (ww_call w))) w;
          w = set_state WCALL_STATE_ANSWERED w
      in ecall_propsync_handler e w)"

definition ecall_missed_handler ::
  "('m, 'x wworld, 'f) media \<Rightarrow> u32 \<Rightarrow> string \<Rightarrow> bool \<Rightarrow> 'm ecall \<Rightarrow> 'x wworld \<Rightarrow> 'x wworld" where
  "ecall_missed_handler P t userid_sender video_call e w =
     (let w = w\<lparr>ww_call := (ww_call w)\<lparr>wc_video_call := video_call \<and> ecall_has_video P e\<rparr>\<rparr>
      in tell_if wh_missedh
           (Wo_missed (wc_convid (ww_call w)) t (wc_userid (ww_call w)) video_call) w)"

definition ecall_media_estab_handler :: "bool \<Rightarrow> 'm ecall \<Rightarrow> 'x wworld \<Rightarrow> 'x wworld" where
  "ecall_media_estab_handler update e w =
     (let mmst = (if wc_video_call (ww_call w) then MEDIAMGR_STATE_VIDEOCALL_ESTABLISHED
                  else MEDIAMGR_STATE_CALL_ESTABLISHED)
      in mm_set mmst (set_state WCALL_STATE_MEDIA_ESTAB w))"

definition ecall_audio_estab_handler :: "bool \<Rightarrow> 'm ecall \<Rightarrow> 'x wworld \<Rightarrow> 'x wworld" where
  "ecall_audio_estab_handler update e w =
     (let w = w\<lparr>ww_calling := tell Wo_stop_silencing (ww_calling w)\<rparr>
      in if \<not> update
         then tell_if wh_estabh (Wo_estab (wc_convid (ww_call w)) (wc_userid (ww_call w))) w
         else w)"

definition err2reason :: "int \<Rightarrow> wcall_reason" where
  "err2reason err =
     (if err = 0 then WCALL_REASON_NORMAL
      else if err = ETIMEDOUT then WCALL_REASON_TIMEOUT
      else if err = ECONNRESET then WCALL_REASON_LOST_MEDIA
      else if err = ECANCELED then WCALL_REASON_CANCELED
      else if err = EALREADY then WCALL_REASON_ANSWERED_ELSEWHERE
      else if err = EIO then WCALL_REASON_IO_ERROR
      else WCALL_REASON_ERROR)"

text \<open>Releasing a \<^verbatim>\<open>wcall\<close>: it leaves the list, and without calls the media manager is told.\<close>

definition wcall_destructor :: "'x wworld \<Rightarrow> 'x wworld" where
  "wcall_destructor w =
     (let w = w\<lparr>ww_call := (ww_call w)\<lparr>wc_derefs := Suc (wc_derefs (ww_call w))\<rparr>\<rparr>
      in if ww_others w then w else mm_set MEDIAMGR_STATE_NORMAL w)"

definition ecall_close_handler :: "int \<Rightarrow> cptr \<Rightarrow> 'm ecall \<Rightarrow> 'x wworld \<Rightarrow> 'x wworld" where
  "ecall_close_handler err metrics_json e w =
     (if wc_state (ww_call w) = WCALL_STATE_NONE then wcall_destructor w
      else
        let c = ww_call w;
            userid = (if wc_state c = WCALL_STATE_TERM_LOCAL then ca_userid (ww_calling w)
                      else if wc_userid c \<noteq> None then wc_userid c else ca_userid (ww_calling w));
            w = (if wc_state c = WCALL_STATE_TERM_LOCAL then w
                 else w\<lparr>ww_call := c\<lparr>wc_state := WCALL_STATE_TERM_REMOTE\<rparr>\<rparr>);
            w = set_state WCALL_STATE_NONE w;
            w = tell_if wh_closeh
                  (Wo_close (err2reason err) (wc_convid (ww_call w)) userid metrics_json) w
        in wcall_destructor w)"

definition ctx_alloc :: "'x calling \<Rightarrow> nat \<times> 'x calling" where
  "ctx_alloc ca = (ca_nctx ca, ca\<lparr>ca_ctxl := ca_ctxl ca @ [ca_nctx ca], ca_nctx := Suc (ca_nctx ca)\<rparr>)"

definition transp_send_handler :: "cptr \<Rightarrow> string \<Rightarrow> 'm ecall \<Rightarrow> 'x wworld \<Rightarrow> int \<times> 'x wworld" where
  "transp_send_handler userid msg e w =
     (case wh_sendh (ca_h (ww_calling w)) of
        None \<Rightarrow> (ENOSYS, w)
      | Some sendh \<Rightarrow>
          let (ctx, ca) = ctx_alloc (ww_calling w)
          in (sendh msg,
              w\<lparr>ww_calling := tell (Wo_send ctx (wc_convid (ww_call w)) userid (ca_clientid ca) msg) ca\<rparr>))"

text \<open>The callbacks of a freed object are not run.\<close>

definition live :: "('x wworld \<Rightarrow> 'x wworld) \<Rightarrow> 'x wworld \<Rightarrow> 'x wworld" where
  "live f w = (if wc_derefs (ww_call w) = 0 then f w else w\<lparr>ww_ub := True\<rparr>)"

definition wcall_ecall_h :: "('m, 'x wworld, 'f) media \<Rightarrow> ('m, 'x wworld) ecall_h" where
  "wcall_ecall_h P =
     \<lparr>lh_connh = Some (\<lambda>us v e. live (ecall_conn_handler P us v e)),
      lh_answerh = Some (\<lambda>e. live (ecall_answer_handler e)),
      lh_missedh = Some (\<lambda>t us v e. live (ecall_missed_handler P t us v e)),
      lh_media_estabh = Some (\<lambda>u e. live (ecall_media_estab_handler u e)),
      lh_audio_estabh = Some (\<lambda>u e. live (ecall_audio_estab_handler u e)),
      lh_datachan_estabh = Some (\<lambda>u e. live (\<lambda>w. w)),
      lh_propsynch = Some (\<lambda>e. live (ecall_propsync_handler e)),
      lh_closeh = (\<lambda>err js e w. if wc_derefs (ww_call w) = 0 then ecall_close_handler err js e w
                               else wcall_destructor (w\<lparr>ww_ub := True\<rparr>)),
      lh_sendh = (\<lambda>u str e w. if wc_derefs (ww_call w) = 0 then transp_send_handler u str e w
                              else (0, w\<lparr>ww_ub := True\<rparr>))\<rparr>"

section \<open>The calls of a client\<close>

record ('m, 'x) wsys =
  ws_calling :: "'x calling"
  ws_objs :: "(wcall \<times> 'm ecall) list"
  ws_em :: "ecall_marshal option"
  ws_ub :: bool

text \<open>Is object \<open>i\<close> a member of \<^verbatim>\<open>calling.wcalls\<close>; and is anyone but \<open>i\<close>.\<close>

definition in_list :: "('m, 'x) wsys \<Rightarrow> nat \<Rightarrow> bool" where
  "in_list s i \<longleftrightarrow> i < length (ws_objs s) \<and> wc_derefs (fst (ws_objs s ! i)) = 0"

definition other_calls :: "('m, 'x) wsys \<Rightarrow> nat \<Rightarrow> bool" where
  "other_calls s i = list_ex (\<lambda>j. j \<noteq> i \<and> in_list s j) [0..<length (ws_objs s)]"

text \<open>Work on object \<open>i\<close>.\<close>

definition on_obj ::
  "nat \<Rightarrow> ('m ecall \<times> 'x wworld \<Rightarrow> 'm ecall \<times> 'x wworld) \<Rightarrow> ('m, 'x) wsys \<Rightarrow> ('m, 'x) wsys" where
  "on_obj i f s =
     (if i < length (ws_objs s) then
        let (c, e) = ws_objs s ! i;
            (e, w) = f (e, \<lparr>ww_call = c, ww_others = other_calls s i, ww_calling = ws_calling s,
                            ww_ub = ws_ub s\<rparr>)
        in s\<lparr>ws_objs := (ws_objs s)[i := (ww_call w, e)], ws_calling := ww_calling w,
             ws_ub := ww_ub w\<rparr>
      else s)"

definition on_wcall :: "nat \<Rightarrow> ('x wworld \<Rightarrow> 'x wworld) \<Rightarrow> ('m, 'x) wsys \<Rightarrow> ('m, 'x) wsys" where
  "on_wcall i g s = on_obj i (\<lambda>(e, w). (e, g w)) s"

text \<open>Put a request into the queue.\<close>

definition marshal ::
  "(ecall_marshal option \<Rightarrow> int \<times> ecall_marshal option) \<Rightarrow> ('m, 'x) wsys \<Rightarrow> int \<times> ('m, 'x) wsys" where
  "marshal f s = (let (err, em) = f (ws_em s) in (err, s\<lparr>ws_em := em\<rparr>))"

definition call_lookup :: "cptr \<Rightarrow> ('m, 'x) wsys \<Rightarrow> nat option" where
  "call_lookup convid s =
     (case convid of
        None \<Rightarrow> None
      | Some c \<Rightarrow> List.find (\<lambda>i. in_list s i \<and> wc_convid (fst (ws_objs s ! i)) = c)
                     [0..<length (ws_objs s)])"

text \<open>Releasing a \<^verbatim>\<open>wcall\<close> that never was in the list.\<close>

definition drop_new_call :: "('m, 'x) wsys \<Rightarrow> ('m, 'x) wsys" where
  "drop_new_call s =
     (if list_ex (in_list s) [0..<length (ws_objs s)] then s
      else s\<lparr>ws_calling := mediamgr_set_call_state MEDIAMGR_STATE_NORMAL (ws_calling s)\<rparr>)"

definition new_wcall :: "string \<Rightarrow> wcall" where
  "new_wcall convid =
     \<lparr>wc_convid = convid, wc_userid = None, wc_video_call = False, wc_send_active = False,
      wc_recv_state = WCALL_VIDEO_RECEIVE_STOPPED, wc_recv_cbr = False,
      wc_state = WCALL_STATE_NONE, wc_derefs = 0\<rparr>"

definition call_add :: "cptr \<Rightarrow> ('m, 'x) wsys \<Rightarrow> (int + nat) \<times> ('m, 'x) wsys" where
  "call_add convid s =
     (case convid of
        None \<Rightarrow> (Inl EINVAL, s)
      | Some c \<Rightarrow>
          if call_lookup convid s \<noteq> None then (Inl EALREADY, s)
          else
            let ca = ws_calling s
            in case ecall_alloc (Some (ca_conf ca)) (ca_msys ca) convid (ca_userid ca) (ca_clientid ca) of
                 Inl err \<Rightarrow> (Inl err, drop_new_call s)
               | Inr e \<Rightarrow>
                   let (err, e) = (if ca_turn_addr ca \<noteq> None
                                   then ecall_set_turnserver (ca_turn_addr ca) (ca_turn_username ca)
                                          (ca_turn_credential ca) e
                                   else (0, e))
                   in if err \<noteq> 0 then (Inl err, drop_new_call s)
                      else (Inr (length (ws_objs s)), s\<lparr>ws_objs := ws_objs s @ [(new_wcall c, e)]\<rparr>))"

section \<open>The interface\<close>

definition wcall_start :: "cptr \<Rightarrow> bool \<Rightarrow> ('m, 'x) wsys \<Rightarrow> int \<times> ('m, 'x) wsys" where
  "wcall_start convid is_video_call s =
     (if convid = None then (EINVAL, s)
      else if \<not> ca_config (ws_calling s) then (EINTR, s)
      else
        case call_lookup convid s of
          Some i \<Rightarrow>
            if ecall_state (snd (ws_objs s ! i)) = ECONN_PENDING_INCOMING then
              let (err, s) = marshal (marshal_ecall_set_video_send_active is_video_call i) s
              in if err \<noteq> 0 then (err, s)
                 else
                   let (err, s) = marshal (marshal_ecall_answer i) s
                   in if err \<noteq> 0 then (err, s)
                      else (0, on_wcall i (set_state WCALL_STATE_ANSWERED) s)
            else (EALREADY, s)
        | None \<Rightarrow>
            (case call_add convid s of
               (Inl err, s) \<Rightarrow> (err, s)
             | (Inr i, s) \<Rightarrow>
                 let s = on_wcall i (set_state WCALL_STATE_OUTGOING) s;
                     (_, s) = marshal (marshal_ecall_set_video_send_active is_video_call i) s;
                     (err, s) = marshal (marshal_ecall_start i) s
                 in if err \<noteq> 0 then (err, s)
                    else (0, on_wcall i (\<lambda>w. mm_set MEDIAMGR_STATE_SETUP_AUDIO_PERMISSIONS
                               (w\<lparr>ww_call := (ww_call w)\<lparr>wc_video_call := is_video_call\<rparr>\<rparr>)) s)))"

definition wcall_answer :: "cptr \<Rightarrow> ('m, 'x) wsys \<Rightarrow> int \<times> ('m, 'x) wsys" where
  "wcall_answer convid s =
     (case call_lookup convid s of
        None \<Rightarrow> (ENOENT, s)
      | Some i \<Rightarrow>
          let s = on_wcall i (set_state WCALL_STATE_ANSWERED) s;
              (err, s) = marshal (marshal_ecall_answer i) s
          in (err, s\<lparr>ws_calling := mediamgr_set_call_state MEDIAMGR_STATE_SETUP_AUDIO_PERMISSIONS
                                    (ws_calling s)\<rparr>))"

definition wcall_reject :: "cptr \<Rightarrow> ('m, 'x) wsys \<Rightarrow> int \<times> ('m, 'x) wsys" where
  "wcall_reject convid s =
     (if convid = None then (EINVAL, s)
      else case call_lookup convid s of
             None \<Rightarrow> (0, s)
           | Some i \<Rightarrow> (0, on_wcall i (set_state WCALL_STATE_NONE) s))"

definition wcall_resp :: "nat \<Rightarrow> ('m, 'x) wsys \<Rightarrow> ('m, 'x) wsys" where
  "wcall_resp ctx s =
     (if ctx \<in> set (ca_ctxl (ws_calling s))
      then s\<lparr>ws_calling := (ws_calling s)\<lparr>ca_ctxl := removeAll ctx (ca_ctxl (ws_calling s))\<rparr>\<rparr> else s)"

definition wcall_recv_msg ::
  "'f ld_ops \<Rightarrow> cptr \<Rightarrow> u32 \<Rightarrow> u32 \<Rightarrow> cptr \<Rightarrow> cptr \<Rightarrow> cptr \<Rightarrow> ('m, 'x) wsys \<Rightarrow> ('m, 'x) wsys" where
  "wcall_recv_msg ld buf curr_time mtime convid userid clientid s =
     (if buf = None \<or> ws_em s = None then s
      else
        case econn_message_decode ld (ucast curr_time) (ucast mtime) buf of
          Inl _ \<Rightarrow> s
        | Inr msg \<Rightarrow>
            let deliver = (\<lambda>i s.
                  snd (marshal (marshal_ecall_msg_recv i (ucast curr_time) (ucast mtime) convid userid
                         clientid (Some msg))
                    (on_wcall i (\<lambda>w. if wc_userid (ww_call w) = None
                                     then w\<lparr>ww_call := (ww_call w)\<lparr>wc_userid := userid\<rparr>\<rparr> else w) s)))
            in case call_lookup convid s of
                 Some i \<Rightarrow> deliver i s
               | None \<Rightarrow>
                   if econn_is_creator (ca_userid (ws_calling s)) userid (Some msg)
                   then (case call_add convid s of (Inl _, s) \<Rightarrow> s | (Inr i, s) \<Rightarrow> deliver i s)
                   else s)"

definition wcall_end :: "cptr \<Rightarrow> ('m, 'x) wsys \<Rightarrow> ('m, 'x) wsys" where
  "wcall_end convid s =
     (case call_lookup convid s of
        None \<Rightarrow> s
      | Some i \<Rightarrow>
          snd (marshal (marshal_ecall_end i)
            (if wc_state (fst (ws_objs s ! i)) \<noteq> WCALL_STATE_TERM_REMOTE
             then on_wcall i (set_state WCALL_STATE_TERM_LOCAL) s else s)))"

text \<open>A request for every call in the list.\<close>

definition marshal_each ::
  "(nat \<Rightarrow> ecall_marshal option \<Rightarrow> int \<times> ecall_marshal option) \<Rightarrow> ('m, 'x) wsys \<Rightarrow> ('m, 'x) wsys" where
  "marshal_each f s =
     fold (\<lambda>i s. snd (marshal (f i) s)) (filter (in_list s) [0..<length (ws_objs s)]) s"

definition wcall_network_changed :: "('m, 'x) wsys \<Rightarrow> ('m, 'x) wsys" where
  "wcall_network_changed s = marshal_each marshal_ecall_restart s"

definition mm_mcat_changed :: "mediamgr_state \<Rightarrow> ('m, 'x) wsys \<Rightarrow> ('m, 'x) wsys" where
  "mm_mcat_changed state s =
     (case state of
        MEDIAMGR_STATE_INCALL \<Rightarrow> marshal_each marshal_ecall_media_start s
      | MEDIAMGR_STATE_INVIDEOCALL \<Rightarrow> marshal_each marshal_ecall_media_start s
      | MEDIAMGR_STATE_RESUME \<Rightarrow> marshal_each marshal_ecall_media_start s
      | MEDIAMGR_STATE_HOLD \<Rightarrow> marshal_each marshal_ecall_media_stop s
      | _ \<Rightarrow> s)"

definition wcall_set_video_send_active :: "cptr \<Rightarrow> bool \<Rightarrow> ('m, 'x) wsys \<Rightarrow> ('m, 'x) wsys" where
  "wcall_set_video_send_active convid active s =
     (case call_lookup convid s of
        None \<Rightarrow> s
      | Some i \<Rightarrow>
          snd (marshal (marshal_ecall_set_video_send_active active i)
            (on_wcall i (\<lambda>w. w\<lparr>ww_call := (ww_call w)\<lparr>wc_send_active := active\<rparr>\<rparr>) s)))"

definition wcall_is_video_call :: "cptr \<Rightarrow> ('m, 'x) wsys \<Rightarrow> bool" where
  "wcall_is_video_call convid s =
     (case call_lookup convid s of None \<Rightarrow> False | Some i \<Rightarrow> wc_video_call (fst (ws_objs s ! i)))"

definition wcall_get_state :: "cptr \<Rightarrow> ('m, 'x) wsys \<Rightarrow> wcall_state" where
  "wcall_get_state convid s =
     (case call_lookup convid s of
        None \<Rightarrow> WCALL_STATE_UNKNOWN
      | Some i \<Rightarrow> wc_state (fst (ws_objs s ! i)))"

definition wcall_propsync_request ::
  "('m, 'x wworld, 'f) media \<Rightarrow> cptr \<Rightarrow> ('m, 'x) wsys \<Rightarrow> ('m, 'x) wsys" where
  "wcall_propsync_request P convid s =
     (case call_lookup convid s of
        None \<Rightarrow> s
      | Some i \<Rightarrow> on_obj i (\<lambda>t. snd (ecall_propsync_request P (wcall_ecall_h P) t)) s)"

definition wcall_iterate_state :: "('m, 'x) wsys \<Rightarrow> (string \<times> wcall_state) list" where
  "wcall_iterate_state s =
     map (\<lambda>i. (wc_convid (fst (ws_objs s ! i)), wc_state (fst (ws_objs s ! i))))
       (filter (\<lambda>i. in_list s i \<and> wc_state (fst (ws_objs s ! i)) \<noteq> WCALL_STATE_NONE)
         [0..<length (ws_objs s)])"

text \<open>There is one way to traverse NATs, \<^verbatim>\<open>MEDIAFLOW_TRICKLEICE_DUALSTACK\<close>; other numbers gather nothing.\<close>

definition wcall_set_nat :: "bool \<Rightarrow> ('m, 'x) wsys \<Rightarrow> ('m, 'x) wsys" where
  "wcall_set_nat dualstack s =
     s\<lparr>ws_calling := (ws_calling s)\<lparr>ca_conf := (ca_conf (ws_calling s))\<lparr>nat_dualstack := dualstack\<rparr>\<rparr>\<rparr>"

text \<open>
  The TURN server of the call configuration. \<open>uri_decode\<close> gives scheme, host and port of a URI, and
  \<open>sa_set\<close> an address for a host and a port.
\<close>

definition wcall_set_ice_servers ::
  "(string \<Rightarrow> int + string \<times> string \<times> nat) \<Rightarrow> (string \<Rightarrow> nat \<Rightarrow> int + sockaddr) \<Rightarrow>
     (string \<times> cptr \<times> cptr) list \<Rightarrow> 'x calling \<Rightarrow> int \<times> 'x calling" where
  "wcall_set_ice_servers uri_decode sa_set srvv ca =
     (case srvv of
        [] \<Rightarrow> (EINVAL, ca)
      | (url, username, credential) # _ \<Rightarrow>
          (case uri_decode url of
             Inl err \<Rightarrow> (err, ca)
           | Inr (scheme, host, port) \<Rightarrow>
               if str_casecmp (Some scheme) (Some ''turn'') = 0 then
                 (case sa_set host port of
                    Inl err \<Rightarrow> (err, ca)
                  | Inr addr \<Rightarrow>
                      let ca = ca\<lparr>ca_turn_addr := Some addr, ca_turn_username := username\<rparr>
                      in if username = None then (EINVAL, ca)
                         else let ca = ca\<lparr>ca_turn_credential := credential\<rparr>
                              in if credential = None then (EINVAL, ca) else (0, ca))
               else (ENOTSUP, ca)))"

text \<open>The call configuration arrives, at once or after polling for it.\<close>

definition call_config_handler ::
  "(string \<Rightarrow> int + string \<times> string \<times> nat) \<Rightarrow> (string \<Rightarrow> nat \<Rightarrow> int + sockaddr) \<Rightarrow>
     (string \<times> cptr \<times> cptr) list \<Rightarrow> 'x calling \<Rightarrow> 'x calling" where
  "call_config_handler uri_decode sa_set srvv ca =
     (let ca = snd (wcall_set_ice_servers uri_decode sa_set srvv (ca\<lparr>ca_config := True\<rparr>))
      in if wh_readyh (ca_h ca) then tell Wo_ready ca else ca)"

text \<open>
  Every object in the list is released, then all is reset. While \<^verbatim>\<open>list_flush\<close> runs, the head of the list
  is not yet cleared, so no destructor finds the list empty and the media manager is not told.
\<close>

definition no_handlers :: wcall_handlers where
  "no_handlers = \<lparr>wh_readyh = False, wh_sendh = None, wh_incomingh = False, wh_missedh = False,
     wh_answerh = False, wh_estabh = False, wh_closeh = False, wh_stateh = False,
     wh_vstateh = False, wh_acbrh = False\<rparr>"

definition wcall_close :: "('m, 'x) wsys \<Rightarrow> ('m, 'x) wsys" where
  "wcall_close s =
     (let s = fold (\<lambda>i s. on_wcall i (\<lambda>w. w\<lparr>ww_call := (ww_call w)
                               \<lparr>wc_derefs := Suc (wc_derefs (ww_call w))\<rparr>\<rparr>) s)
                (filter (in_list s) [0..<length (ws_objs s)]) s;
          ca = ws_calling s
      in s\<lparr>ws_em := None,
           ws_calling := ca\<lparr>ca_ctxl := [], ca_turn_username := None, ca_turn_credential := None,
             ca_userid := None, ca_clientid := None, ca_mm := False, ca_config := False,
             ca_h := (ca_h ca)\<lparr>wh_readyh := False, wh_sendh := None, wh_incomingh := False,
               wh_estabh := False, wh_closeh := False, wh_vstateh := False, wh_acbrh := False\<rparr>\<rparr>\<rparr>)"

text \<open>
  \<^verbatim>\<open>wcall_init\<close> with the errors of the media manager and the media system; a failure closes again. The
  call configuration may already be there. All earlier calls are forgotten, and the record starts
  anew.
\<close>

definition wcall_init ::
  "(string \<Rightarrow> int + string \<times> string \<times> nat) \<Rightarrow> (string \<Rightarrow> nat \<Rightarrow> int + sockaddr) \<Rightarrow> cptr \<Rightarrow> cptr \<Rightarrow>
     wcall_handlers \<Rightarrow> int \<Rightarrow> int \<Rightarrow> (string \<times> cptr \<times> cptr) list option \<Rightarrow> ('m, 'x) wsys \<Rightarrow>
     int \<times> ('m, 'x) wsys" where
  "wcall_init uri_decode sa_set userid clientid h mm_err msys_err cfg s =
     (if \<not> str_isset userid \<or> \<not> str_isset clientid then (EINVAL, s)
      else
        let ca = (ws_calling s)\<lparr>ca_mm := (mm_err = 0), ca_userid := None, ca_clientid := None,
                    ca_turn_addr := None, ca_turn_username := None, ca_turn_credential := None,
                    ca_h := no_handlers, ca_config := False, ca_ctxl := [],
                    ca_out := []\<rparr>;
            s = s\<lparr>ws_calling := ca, ws_objs := [], ws_em := None\<rparr>
        in if mm_err \<noteq> 0 then (mm_err, wcall_close s)
           else
             let ca = ca\<lparr>ca_userid := userid, ca_clientid := clientid,
                         ca_h := h\<lparr>wh_stateh := False, wh_vstateh := False, wh_acbrh := False\<rparr>,
                         ca_conf := \<lparr>econf = \<lparr>timeout_setup = 30000, timeout_term = 5000\<rparr>,
                                     nat_dualstack = True\<rparr>\<rparr>;
                 s = s\<lparr>ws_calling := ca, ws_em := Some ecall_marshal_alloc\<rparr>
             in if msys_err \<noteq> 0 then (msys_err, wcall_close s)
                else case cfg of
                       None \<Rightarrow> (0, s)
                     | Some srvv \<Rightarrow> (0, s\<lparr>ws_calling := call_config_handler uri_decode sa_set srvv ca\<rparr>))"

section \<open>The system\<close>

text \<open>One request is taken from the queue and done.\<close>

definition wcall_dispatch :: "('m, 'x wworld, 'f) media \<Rightarrow> ('m, 'x) wsys \<Rightarrow> ('m, 'x) wsys" where
  "wcall_dispatch P s =
     (case ws_em s of
        None \<Rightarrow> s
      | Some mq \<Rightarrow>
          (case mqueue_read mq of
             None \<Rightarrow> s
           | Some ((i, ev), mq) \<Rightarrow>
               on_obj i (mqueue_handler P (wcall_ecall_h P) ev) (s\<lparr>ws_em := Some mq\<rparr>)))"

text \<open>The \<^verbatim>\<open>ecall\<close> of object \<open>i\<close> exists: its \<^verbatim>\<open>wcall\<close> does, or a request refers to it.\<close>

definition ecall_exists :: "('m, 'x) wsys \<Rightarrow> nat \<Rightarrow> bool" where
  "ecall_exists s i \<longleftrightarrow> in_list s i \<or>
     (case ws_em s of None \<Rightarrow> False | Some mq \<Rightarrow> i \<in> set (map fst (mq_msgs mq)))"

text \<open>The events of a call that come from its media flow and its timers.\<close>

fun media_event :: "'m ecall_event \<Rightarrow> bool" where
  "media_event L_mf_estab = True"
| "media_event (L_mf_close err) = True"
| "media_event L_mf_gather = True"
| "media_event L_data_estab = True"
| "media_event L_data_open = True"
| "media_event L_data_closed = True"
| "media_event (L_data d) = True"
| "media_event (L_rtp st) = True"
| "media_event (L_media m) = True"
| "media_event L_tmr_channel = True"
| "media_event L_tmr_media_start = True"
| "media_event L_tmr_econn = True"
| "media_event ev = False"

datatype ('m, 'x) wevent =
    W_start cptr bool
  | W_answer cptr
  | W_reject cptr
  | W_end cptr
  | W_recv_msg cptr u32 u32 cptr cptr cptr
  | W_video cptr bool
  | W_resp nat
  | W_network_changed
  | W_mcat mediamgr_state
  | W_propsync_request cptr
  | W_set_handlers bool bool bool
  | W_set_nat bool
  | W_config "(string \<times> cptr \<times> cptr) list"
  | W_init cptr cptr wcall_handlers int int "(string \<times> cptr \<times> cptr) list option"
  | W_close
  | W_dispatch
  | W_media nat "'m ecall_event"
  | W_env 'x int

fun wcall_step ::
  "('m, 'x wworld, 'f) media \<Rightarrow> (string \<Rightarrow> int + string \<times> string \<times> nat) \<Rightarrow>
     (string \<Rightarrow> nat \<Rightarrow> int + sockaddr) \<Rightarrow> ('m, 'x) wevent \<Rightarrow> ('m, 'x) wsys \<Rightarrow> ('m, 'x) wsys" where
  "wcall_step P ud ss (W_start convid v) s = snd (wcall_start convid v s)"
| "wcall_step P ud ss (W_answer convid) s = snd (wcall_answer convid s)"
| "wcall_step P ud ss (W_reject convid) s = snd (wcall_reject convid s)"
| "wcall_step P ud ss (W_end convid) s = wcall_end convid s"
| "wcall_step P ud ss (W_recv_msg buf ct mt convid us cl) s =
     wcall_recv_msg (mo_ld P) buf ct mt convid us cl s"
| "wcall_step P ud ss (W_video convid a) s = wcall_set_video_send_active convid a s"
| "wcall_step P ud ss (W_resp ctx) s = wcall_resp ctx s"
| "wcall_step P ud ss W_network_changed s = wcall_network_changed s"
| "wcall_step P ud ss (W_mcat st) s = mm_mcat_changed st s"
| "wcall_step P ud ss (W_propsync_request convid) s = wcall_propsync_request P convid s"
| "wcall_step P ud ss (W_set_handlers st v a) s =
     s\<lparr>ws_calling := (ws_calling s)\<lparr>ca_h := (ca_h (ws_calling s))\<lparr>wh_stateh := st, wh_vstateh := v, wh_acbrh := a\<rparr>\<rparr>\<rparr>"
| "wcall_step P ud ss (W_set_nat d) s = wcall_set_nat d s"
| "wcall_step P ud ss (W_config srvv) s =
     (if ws_em s = None then s
      else s\<lparr>ws_calling := call_config_handler ud ss srvv (ws_calling s)\<rparr>)"
| "wcall_step P ud ss (W_init us cl h e1 e2 cfg) s = snd (wcall_init ud ss us cl h e1 e2 cfg s)"
| "wcall_step P ud ss W_close s = wcall_close s"
| "wcall_step P ud ss W_dispatch s = wcall_dispatch P s"
| "wcall_step P ud ss (W_media i ev) s =
     (if ecall_exists s i \<and> media_event ev then on_obj i (ecall_step P (wcall_ecall_h P) ev) s else s)"
| "wcall_step P ud ss (W_env x err) s =
     s\<lparr>ws_calling := (ws_calling s)\<lparr>ca_env := x\<rparr>,
       ws_em := map_option (mq_err_update (\<lambda>_. err)) (ws_em s)\<rparr>"

end
