(* ===== verification/Wcall_Law.thy ===== *)
theory Wcall_Law
  imports Wcall
begin

text \<open>
  What a callback of \<^verbatim>\<open>wcall.c\<close> does to its call object and to the record of what the application was
  told. The callbacks are an instance of the contract \<open>ecall_user\<close>, which gives the same for every
  operation and every event of a call.
\<close>

section \<open>What the application was told\<close>

fun last_state :: "string \<Rightarrow> wcall_out list \<Rightarrow> wcall_state" where
  "last_state c [] = WCALL_STATE_NONE"
| "last_state c (x # xs) =
     (if \<exists>st. Wo_state c st \<in> set xs then last_state c xs
      else case x of Wo_state d st \<Rightarrow> if d = c then st else WCALL_STATE_NONE | _ \<Rightarrow> WCALL_STATE_NONE)"

lemma last_state_append [simp]:
  "last_state c (xs @ ys) = (if \<exists>st. Wo_state c st \<in> set ys then last_state c ys else last_state c xs)"
  by (induction xs) (auto, induction ys, auto split: wcall_out.splits)

fun n_wcloses :: "wcall_out list \<Rightarrow> nat" where
  "n_wcloses [] = 0"
| "n_wcloses (Wo_close r c u j # xs) = Suc (n_wcloses xs)"
| "n_wcloses (x # xs) = n_wcloses xs"

lemma n_wcloses_append [simp]: "n_wcloses (xs @ ys) = n_wcloses xs + n_wcloses ys"
  by (induction xs rule: n_wcloses.induct) auto

text \<open>The state the media manager was told last.\<close>

fun last_mm :: "mediamgr_state \<Rightarrow> wcall_out list \<Rightarrow> mediamgr_state" where
  "last_mm st [] = st"
| "last_mm st (Wo_mm st' # xs) = last_mm st' xs"
| "last_mm st (x # xs) = last_mm st xs"

lemma last_mm_append [simp]: "last_mm st (xs @ ys) = last_mm (last_mm st xs) ys"
  by (induction st xs rule: last_mm.induct) auto

abbreviation mm_told :: "'x calling \<Rightarrow> mediamgr_state" where
  "mm_told ca \<equiv> last_mm MEDIAMGR_STATE_NORMAL (ca_out ca)"

section \<open>The law of the callbacks\<close>

definition same_setup :: "'x calling \<Rightarrow> 'x calling \<Rightarrow> bool" where
  "same_setup ca ca' \<longleftrightarrow> ca_h ca' = ca_h ca \<and> ca_config ca' = ca_config ca \<and> ca_userid ca' = ca_userid ca"

definition told :: "'x wworld \<Rightarrow> wcall_state" where
  "told w = last_state (wc_convid (ww_call w)) (ca_out (ww_calling w))"

text \<open>
  A callback keeps the conversation and the set-up, drops the reference only for the close handler,
  reports states of its own conversation only and reports every change, tells the end of the call
  only while dropping the reference, and does nothing for a freed object. Releasing the only call
  tells the media manager.
\<close>

definition wcall_law :: "'x wworld user_rel" where
  "wcall_law = (\<lambda>(b, w) (b', w').
     wc_convid (ww_call w') = wc_convid (ww_call w) \<and>
     same_setup (ww_calling w) (ww_calling w') \<and>
     wc_derefs (ww_call w') + of_bool b' = wc_derefs (ww_call w) + of_bool b \<and>
     wc_derefs (ww_call w) \<le> wc_derefs (ww_call w') \<and>
     n_wcloses (ca_out (ww_calling w')) + wc_derefs (ww_call w) \<le>
       n_wcloses (ca_out (ww_calling w)) + wc_derefs (ww_call w') \<and>
     (\<forall>c. c \<noteq> wc_convid (ww_call w) \<longrightarrow>
        last_state c (ca_out (ww_calling w')) = last_state c (ca_out (ww_calling w))) \<and>
     (0 < wc_derefs (ww_call w) \<longrightarrow> told w' = told w) \<and>
     ca_mm (ww_calling w') = ca_mm (ww_calling w) \<and> ww_others w' = ww_others w \<and>
     (\<exists>xs. ca_out (ww_calling w') = ca_out (ww_calling w) @ xs) \<and>
     (ca_mm (ww_calling w) \<longrightarrow> ww_others w \<or> wc_derefs (ww_call w') = 0 \<or>
        mm_told (ww_calling w') = MEDIAMGR_STATE_NORMAL \<or>
        0 < wc_derefs (ww_call w) \<and> mm_told (ww_calling w') = mm_told (ww_calling w)) \<and>
     (wc_derefs (ww_call w) = 0 \<and> wh_stateh (ca_h (ww_calling w)) \<and> told w = wc_state (ww_call w) \<longrightarrow>
        told w' = (if wc_derefs (ww_call w') = 0 then wc_state (ww_call w') else WCALL_STATE_NONE)))"

lemma wcall_law_trans [trans]: "wcall_law s t \<Longrightarrow> wcall_law t u \<Longrightarrow> wcall_law s u"
  by (cases s; cases t; cases u) (auto simp: wcall_law_def same_setup_def split: if_splits)

lemma wcall_law_refl: "wcall_law s s"
  by (cases s) (auto simp: wcall_law_def same_setup_def)

lemma wcall_law_run: "wcall_law\<^sup>*\<^sup>* s t \<Longrightarrow> wcall_law s t"
  by (induction rule: rtranclp_induct) (auto intro: wcall_law_trans wcall_law_refl)

text \<open>The basic steps of the callbacks.\<close>

lemma tell_if_law:
  assumes "\<And>c st. x \<noteq> Wo_state c st" "\<And>r c u j. x \<noteq> Wo_close r c u j" "\<And>st. x \<noteq> Wo_mm st"
  shows "wcall_law (b, w) (b, tell_if h x w)"
  using assms
  by (cases x) (auto simp: wcall_law_def tell_if_def tell_def same_setup_def told_def)

lemma upd_law:
  "wc_convid (f (ww_call w)) = wc_convid (ww_call w) \<Longrightarrow> wc_derefs (f (ww_call w)) = wc_derefs (ww_call w) \<Longrightarrow>
   wc_state (f (ww_call w)) = wc_state (ww_call w) \<Longrightarrow>
   wcall_law (b, w) (b, w\<lparr>ww_call := f (ww_call w)\<rparr>)"
  by (auto simp: wcall_law_def same_setup_def told_def)

lemma ub_law: "wcall_law (b, w) (b, w\<lparr>ww_ub := u\<rparr>)"
  by (auto simp: wcall_law_def same_setup_def told_def)

lemma set_state_law:
  "wc_derefs (ww_call w) = 0 \<Longrightarrow> wcall_law (b, w) (b, set_state st w)"
  by (auto simp: wcall_law_def set_state_def tell_if_def tell_def same_setup_def told_def Let_def)

lemma mm_set_law: "wc_derefs (ww_call w) = 0 \<Longrightarrow> wcall_law (b, w) (b, mm_set st w)"
  by (simp add: wcall_law_def mm_set_def mediamgr_set_call_state_def tell_def same_setup_def told_def)

lemma derefs_simps [simp]:
  "wc_derefs (ww_call (tell_if h x w)) = wc_derefs (ww_call w)"
  "wc_derefs (ww_call (set_state st w)) = wc_derefs (ww_call w)"
  "wc_derefs (ww_call (mm_set ms w)) = wc_derefs (ww_call w)"
  by (simp_all add: tell_if_def set_state_def mm_set_def Let_def)

lemma propsync_law: "wcall_law (b, w) (b, ecall_propsync_handler e w)"
proof -
  let ?v1 = "ecall_props_get_remote e ''videosend''" and ?v2 = "ecall_props_get_remote e ''screensend''"
    and ?v3 = "ecall_props_get_remote e ''audiocbr''"
  define w1 where "w1 = (if prop_is_wild ?v1 \<or> prop_is_wild ?v2 \<or> prop_is_wild ?v3 then w\<lparr>ww_ub := True\<rparr> else w)"
  define st where "st = (if prop_is_true ?v1 \<or> prop_is_true ?v2 then WCALL_VIDEO_RECEIVE_STARTED
                   else WCALL_VIDEO_RECEIVE_STOPPED)"
  define w2 where "w2 = (if (?v1 \<noteq> Null \<or> ?v2 \<noteq> Null) \<and> st \<noteq> wc_recv_state (ww_call w1)
               then tell_if wh_vstateh (Wo_vstate st)
                      (w1\<lparr>ww_call := (ww_call w1)\<lparr>wc_recv_state := st\<rparr>\<rparr>) else w1)"
  define w3 where "w3 = tell_if wh_acbrh Wo_acbr w2"
  have l1: "wcall_law (b, w) (b, w1)" by (simp add: w1_def ub_law wcall_law_refl)
  have "wcall_law (b, w1) (b, w1\<lparr>ww_call := (ww_call w1)\<lparr>wc_recv_state := st\<rparr>\<rparr>)"
    by (rule upd_law) simp_all
  then have "wcall_law (b, w1) (b, w2)"
    by (auto simp: w2_def wcall_law_refl intro: wcall_law_trans tell_if_law)
  then have l2: "wcall_law (b, w) (b, w2)" by (rule wcall_law_trans [OF l1])
  have "wcall_law (b, w2) (b, w3)" unfolding w3_def by (rule tell_if_law) simp_all
  moreover have "wcall_law (b, w3) (b, w3\<lparr>ww_call := (ww_call w3)\<lparr>wc_recv_cbr := True\<rparr>\<rparr>)"
    by (rule upd_law) simp_all
  ultimately have "wcall_law (b, w) (b, w3\<lparr>ww_call := (ww_call w3)\<lparr>wc_recv_cbr := True\<rparr>\<rparr>)"
    using l2 by (blast intro: wcall_law_trans)
  moreover have "ecall_propsync_handler e w =
      (if prop_is_true ?v3 \<and> \<not> wc_recv_cbr (ww_call w2)
       then w3\<lparr>ww_call := (ww_call w3)\<lparr>wc_recv_cbr := True\<rparr>\<rparr> else w2)"
    by (simp only: ecall_propsync_handler_def Let_def w1_def st_def w2_def w3_def)
  ultimately show ?thesis using l2 by simp
qed

lemma conn_law: "wc_derefs (ww_call w) = 0 \<Longrightarrow> wcall_law (b, w) (b, ecall_conn_handler P us v e w)"
proof -
  assume 0: "wc_derefs (ww_call w) = 0"
  let ?w1 = "w\<lparr>ww_call := (ww_call w)\<lparr>wc_video_call := v \<and> ecall_has_video P e\<rparr>\<rparr>"
  let ?w2 = "set_state WCALL_STATE_INCOMING ?w1"
  let ?w3 = "tell_if wh_incomingh (Wo_incoming (wc_convid (ww_call ?w2)) (wc_userid (ww_call ?w2)) v) ?w2"
  have "wcall_law (b, w) (b, ?w1)" by (rule upd_law) simp_all
  also have "wcall_law (b, ?w1) (b, ?w2)" using 0 by (simp add: set_state_law)
  also have "wcall_law (b, ?w2) (b, ?w3)" by (rule tell_if_law) simp_all
  also have "wcall_law (b, ?w3) (b, ecall_propsync_handler e ?w3)" by (rule propsync_law)
  finally show ?thesis by (simp only: ecall_conn_handler_def Let_def)
qed

lemma answer_law: "wc_derefs (ww_call w) = 0 \<Longrightarrow> wcall_law (b, w) (b, ecall_answer_handler e w)"
proof -
  assume 0: "wc_derefs (ww_call w) = 0"
  let ?w1 = "tell_if wh_answerh (Wo_answered (wc_convid (ww_call w))) w"
  let ?w2 = "set_state WCALL_STATE_ANSWERED ?w1"
  have "wcall_law (b, w) (b, ?w1)" by (rule tell_if_law) simp_all
  also have "wcall_law (b, ?w1) (b, ?w2)" using 0 by (simp add: set_state_law)
  also have "wcall_law (b, ?w2) (b, ecall_propsync_handler e ?w2)" by (rule propsync_law)
  finally show ?thesis by (simp only: ecall_answer_handler_def Let_def)
qed

lemma missed_law: "wcall_law (b, w) (b, ecall_missed_handler P t us v e w)"
proof -
  let ?w1 = "w\<lparr>ww_call := (ww_call w)\<lparr>wc_video_call := v \<and> ecall_has_video P e\<rparr>\<rparr>"
  have "wcall_law (b, w) (b, ?w1)" by (rule upd_law) simp_all
  also have "wcall_law (b, ?w1) (b, ecall_missed_handler P t us v e w)"
    unfolding ecall_missed_handler_def Let_def by (rule tell_if_law) simp_all
  finally show ?thesis .
qed

lemma media_estab_law: "wc_derefs (ww_call w) = 0 \<Longrightarrow> wcall_law (b, w) (b, ecall_media_estab_handler u e w)"
  unfolding ecall_media_estab_handler_def Let_def
  by (rule wcall_law_trans [OF set_state_law mm_set_law]) simp_all

lemma audio_estab_law: "wcall_law (b, w) (b, ecall_audio_estab_handler u e w)"
proof -
  let ?w1 = "w\<lparr>ww_calling := tell Wo_stop_silencing (ww_calling w)\<rparr>"
  have 1: "wcall_law (b, w) (b, ?w1)"
    by (auto simp: wcall_law_def tell_def same_setup_def told_def)
  have "wcall_law (b, ?w1) (b, tell_if wh_estabh (Wo_estab (wc_convid (ww_call ?w1)) (wc_userid (ww_call ?w1))) ?w1)"
    by (rule tell_if_law) simp_all
  then show ?thesis
    using 1 wcall_law_trans [OF 1] by (simp add: ecall_audio_estab_handler_def Let_def)
qed

lemma send_law: "wcall_law (b, w) (b, snd (transp_send_handler u str e w))"
  by (auto simp: transp_send_handler_def ctx_alloc_def wcall_law_def tell_def same_setup_def told_def
      split: option.split)

lemma closing_law:
  "wc_derefs (ww_call w) = 0 \<Longrightarrow> wcall_law (True, w) (False, ecall_close_handler err js e w)"
  by (auto simp: ecall_close_handler_def Let_def wcall_destructor_def set_state_def tell_if_def tell_def
      mm_set_def mediamgr_set_call_state_def wcall_law_def same_setup_def told_def)

lemma close_dead_law:
  "wc_derefs (ww_call w) \<noteq> 0 \<Longrightarrow> wcall_law (True, w) (False, wcall_destructor (w\<lparr>ww_ub := True\<rparr>))"
  by (simp add: Let_def wcall_destructor_def tell_def
      mm_set_def mediamgr_set_call_state_def wcall_law_def same_setup_def told_def)

lemma live_law:
  "(wc_derefs (ww_call w) = 0 \<Longrightarrow> wcall_law (b, w) (b, f w)) \<Longrightarrow> wcall_law (b, w) (b, live f w)"
  by (simp add: live_def ub_law)

interpretation wc: ecall_user P "wcall_ecall_h P" wcall_law for P
  by unfold_locales
     (auto simp: wcall_ecall_h_def closing_law close_dead_law send_law ub_law
       intro: live_law conn_law answer_law missed_law media_estab_law audio_estab_law propsync_law
         wcall_law_refl)

end
