(* ===== verification/Wcall_Inv.thy ===== *)
theory Wcall_Inv
  imports Wcall_Law
begin

text \<open>
  Invariants of the calling interface: whatever the application, the network, the media engine and
  the timers do and in whatever order requests are taken from the queue, a call object is released
  exactly once, there is at most one call per conversation, and what the application has been told is
  what \<^verbatim>\<open>wcall_get_state\<close> answers.
\<close>

section \<open>The invariant of the system\<close>

abbreviation obj :: "('m, 'x) wsys \<Rightarrow> nat \<Rightarrow> wcall" where
  "obj s i \<equiv> fst (ws_objs s ! i)"

abbreviation out :: "('m, 'x) wsys \<Rightarrow> wcall_out list" where
  "out s \<equiv> ca_out (ws_calling s)"

definition n_freed :: "('m, 'x) wsys \<Rightarrow> nat" where
  "n_freed s = sum_list (map (\<lambda>(c, e). wc_derefs c) (ws_objs s))"

text \<open>
  While the interface is open, an object is in the list exactly as long as its call holds the close
  handler; once it is closed no object is in the list. Conversations are unique, and the application
  was told of no more ends of calls than objects were released.
\<close>

definition wsys_inv :: "('m, 'x) wsys \<Rightarrow> bool" where
  "wsys_inv s \<longleftrightarrow>
     (\<forall>i < length (ws_objs s). wc_derefs (obj s i) \<le> 1 \<and>
        (if ws_em s = None then wc_derefs (obj s i) = 1
         else wc_derefs (obj s i) + of_bool (el_closeh (snd (ws_objs s ! i))) = 1)) \<and>
     (\<forall>i j. in_list s i \<and> in_list s j \<and> wc_convid (obj s i) = wc_convid (obj s j) \<longrightarrow> i = j) \<and>
     (ws_em s = None \<longrightarrow> \<not> ca_config (ws_calling s)) \<and>
     n_wcloses (out s) \<le> n_freed s"

text \<open>The application knows the state of every conversation.\<close>

definition told_inv :: "('m, 'x) wsys \<Rightarrow> bool" where
  "told_inv s \<longleftrightarrow>
     wh_stateh (ca_h (ws_calling s)) \<and>
     (\<forall>i. in_list s i \<longrightarrow> last_state (wc_convid (obj s i)) (out s) = wc_state (obj s i)) \<and>
     (\<forall>c. (\<forall>i. in_list s i \<longrightarrow> wc_convid (obj s i) \<noteq> c) \<longrightarrow> last_state c (out s) = WCALL_STATE_NONE)"

text \<open>Without calls the media manager was last told to be normal.\<close>

definition mm_inv :: "('m, 'x) wsys \<Rightarrow> bool" where
  "mm_inv s \<longleftrightarrow> (ca_mm (ws_calling s) \<longrightarrow> (\<exists>i. in_list s i) \<or> mm_told (ws_calling s) = MEDIAMGR_STATE_NORMAL)"

lemma wsys_invD:
  assumes "wsys_inv s"
  shows "i < length (ws_objs s) \<Longrightarrow> wc_derefs (obj s i) \<le> 1"
    and "i < length (ws_objs s) \<Longrightarrow> ws_em s = None \<Longrightarrow> wc_derefs (obj s i) = 1"
    and "i < length (ws_objs s) \<Longrightarrow> ws_em s \<noteq> None \<Longrightarrow>
      wc_derefs (obj s i) + of_bool (el_closeh (snd (ws_objs s ! i))) = 1"
    and "in_list s i \<Longrightarrow> in_list s j \<Longrightarrow> wc_convid (obj s i) = wc_convid (obj s j) \<Longrightarrow> i = j"
    and "ws_em s = None \<Longrightarrow> \<not> ca_config (ws_calling s)"
    and "n_wcloses (out s) \<le> n_freed s"
  using assms unfolding wsys_inv_def by (metis (lifting))+

lemma told_invD:
  assumes "told_inv s"
  shows "wh_stateh (ca_h (ws_calling s))"
    and "in_list s i \<Longrightarrow> last_state (wc_convid (obj s i)) (out s) = wc_state (obj s i)"
    and "(\<And>i. in_list s i \<Longrightarrow> wc_convid (obj s i) \<noteq> c) \<Longrightarrow> last_state c (out s) = WCALL_STATE_NONE"
  using assms unfolding told_inv_def by blast+

lemma call_lookup_SomeD:
  "call_lookup convid s = Some i \<Longrightarrow> in_list s i \<and> convid = Some (wc_convid (obj s i))"
  by (auto simp: call_lookup_def find_Some_iff split: option.splits)

lemma call_lookup_NoneD:
  "call_lookup (Some c) s = None \<Longrightarrow> in_list s i \<Longrightarrow> wc_convid (obj s i) \<noteq> c"
  by (auto simp: call_lookup_def find_None_iff in_list_def)

lemma in_list_length: "in_list s i \<Longrightarrow> i < length (ws_objs s)"
  by (simp add: in_list_def)

lemma sum_list_map_update:
  "i < length xs \<Longrightarrow> sum_list (map f (xs[i := x])) + f (xs ! i) = sum_list (map f xs) + (f x :: nat)"
  by (induction xs arbitrary: i) (auto split: nat.split)

lemma n_freed_update:
  "i < length (ws_objs s) \<Longrightarrow>
   n_freed (s\<lparr>ws_objs := (ws_objs s)[i := (c, e)], ws_calling := ca, ws_ub := u\<rparr>) + wc_derefs (obj s i) =
   n_freed s + wc_derefs c"
  using sum_list_map_update [of i "ws_objs s" "\<lambda>(c, e). wc_derefs c" "(c, e)"]
  by (simp add: n_freed_def case_prod_beta)

text \<open>Working on an object keeps the invariants, by the law of the callbacks.\<close>

lemma on_obj_inv:
  assumes f: "\<And>e w. wc_derefs (ww_call w) = wc_derefs (obj s i) \<Longrightarrow> wcall_law (user_view (e, w)) (user_view (f (e, w)))"
    and inv: "wsys_inv s" and exists: "ws_em s \<noteq> None \<or> in_list s i"
  shows "wsys_inv (on_obj i f s) \<and> (told_inv s \<longrightarrow> told_inv (on_obj i f s)) \<and>
    (mm_inv s \<longrightarrow> mm_inv (on_obj i f s)) \<and> (\<exists>xs. out (on_obj i f s) = out s @ xs) \<and>
    ca_mm (ws_calling (on_obj i f s)) = ca_mm (ws_calling s)"
proof (cases "i < length (ws_objs s)")
  case False
  then show ?thesis using inv by (simp add: on_obj_def)
next
  case i: True
  obtain c e where o: "ws_objs s ! i = (c, e)" by fastforce
  let ?w = "\<lparr>ww_call = c, ww_others = other_calls s i, ww_calling = ws_calling s, ww_ub = ws_ub s\<rparr>"
  obtain e' w' where f': "f (e, ?w) = (e', w')" by (cases "f (e, ?w)") simp
  let ?t = "s\<lparr>ws_objs := (ws_objs s)[i := (ww_call w', e')], ws_calling := ww_calling w', ws_ub := ww_ub w'\<rparr>"
  have t: "on_obj i f s = ?t" using i o f' by (simp add: on_obj_def)
  have law: "wcall_law (el_closeh e, ?w) (el_closeh e', w')"
    using f [of ?w e] o unfolding f' by (simp add: user_view_def)
  have em: "ws_em s \<noteq> None"
    using exists wsys_invD(2) [OF inv i] by (metis in_list_def zero_neq_one)
  have budget: "wc_derefs c + of_bool (el_closeh e) = 1"
    using wsys_invD(3) [OF inv i em] o by simp
  have convid: "wc_convid (ww_call w') = wc_convid c" and same: "same_setup (ws_calling s) (ww_calling w')"
    and d: "wc_derefs (ww_call w') + of_bool (el_closeh e') = 1" "wc_derefs c \<le> wc_derefs (ww_call w')"
    and cl: "n_wcloses (ca_out (ww_calling w')) + wc_derefs c \<le> n_wcloses (out s) + wc_derefs (ww_call w')"
    and other: "\<And>d. d \<noteq> wc_convid c \<Longrightarrow> last_state d (ca_out (ww_calling w')) = last_state d (out s)"
    and dead: "0 < wc_derefs c \<Longrightarrow> last_state (wc_convid c) (ca_out (ww_calling w')) = last_state (wc_convid c) (out s)"
    and alive: "wc_derefs c = 0 \<Longrightarrow> wh_stateh (ca_h (ws_calling s)) \<Longrightarrow> last_state (wc_convid c) (out s) = wc_state c \<Longrightarrow>
      last_state (wc_convid c) (ca_out (ww_calling w')) =
        (if wc_derefs (ww_call w') = 0 then wc_state (ww_call w') else WCALL_STATE_NONE)"
    and grows: "\<exists>xs. ca_out (ww_calling w') = out s @ xs"
    and mm: "ca_mm (ww_calling w') = ca_mm (ws_calling s)"
      "ca_mm (ws_calling s) \<Longrightarrow> \<not> other_calls s i \<Longrightarrow> 0 < wc_derefs (ww_call w') \<Longrightarrow>
        mm_told (ww_calling w') = MEDIAMGR_STATE_NORMAL \<or>
        0 < wc_derefs c \<and> mm_told (ww_calling w') = mm_told (ws_calling s)"
    using law budget by (auto simp: wcall_law_def told_def)
  have mono: "in_list ?t j \<Longrightarrow> in_list s j" for j
    using i o d(2) by (cases "j = i") (auto simp: in_list_def)
  have conv: "wc_convid (obj ?t j) = wc_convid (obj s j)" for j
    using i o convid by (cases "j = i") auto
  have inv': "wsys_inv ?t"
    unfolding wsys_inv_def
  proof (intro conjI allI impI)
    fix j assume j: "j < length (ws_objs ?t)"
    show "wc_derefs (obj ?t j) \<le> 1" using wsys_invD(1) [OF inv, of j] i j d(1) by (cases "j = i") auto
    show "if ws_em ?t = None then wc_derefs (obj ?t j) = 1
        else wc_derefs (obj ?t j) + of_bool (el_closeh (snd (ws_objs ?t ! j))) = 1"
      using wsys_invD(3) [OF inv, of j] i j d(1) em by (cases "j = i") auto
  next
    fix j k assume "in_list ?t j \<and> in_list ?t k \<and> wc_convid (obj ?t j) = wc_convid (obj ?t k)"
    then show "j = k" using wsys_invD(4) [OF inv, of j k] mono conv by metis
  next
    assume "ws_em ?t = None" then show "\<not> ca_config (ws_calling ?t)" using em by simp
  next
    have "n_freed ?t + wc_derefs c = n_freed s + wc_derefs (ww_call w')"
      using n_freed_update [OF i, where c = "ww_call w'"] o by simp
    then show "n_wcloses (out ?t) \<le> n_freed ?t" using wsys_invD(6) [OF inv] cl by simp
  qed
  have "told_inv ?t" if told: "told_inv s"
    unfolding told_inv_def
  proof (intro conjI allI impI)
    show "wh_stateh (ca_h (ws_calling ?t))" using told_invD(1) [OF told] same by (simp add: same_setup_def)
  next
    fix j assume j: "in_list ?t j"
    show "last_state (wc_convid (obj ?t j)) (out ?t) = wc_state (obj ?t j)"
    proof (cases "j = i")
      case True
      then have "in_list s i" "wc_derefs (ww_call w') = 0" using j mono i by (auto simp: in_list_def)
      then show ?thesis
        using True i o told_invD(1) [OF told] told_invD(2) [OF told, of i] alive convid by (auto simp: in_list_def)
    next
      case False
      then have *: "obj ?t j = obj s j" by simp
      have "in_list s j" using j mono by blast
      then have s: "last_state (wc_convid (obj s j)) (out s) = wc_state (obj s j)" by (rule told_invD(2) [OF told])
      have "wc_convid (obj s j) = wc_convid c \<Longrightarrow> 0 < wc_derefs c"
        using wsys_invD(4) [OF inv \<open>in_list s j\<close>, of i] False i o by (auto simp: in_list_def)
      then have "last_state (wc_convid (obj s j)) (ca_out (ww_calling w')) = last_state (wc_convid (obj s j)) (out s)"
        using dead other by (cases "wc_convid (obj s j) = wc_convid c") auto
      then show ?thesis using s * by simp
    qed
  next
    fix d assume none: "\<forall>j. in_list ?t j \<longrightarrow> wc_convid (obj ?t j) \<noteq> d"
    show "last_state d (out ?t) = WCALL_STATE_NONE"
    proof (cases "d = wc_convid c \<and> wc_derefs c = 0")
      case True
      then have "in_list s i" "\<not> in_list ?t i" using i o none conv [of i] by (auto simp: in_list_def)
      then show ?thesis
        using True i o told_invD(1) [OF told] told_invD(2) [OF told, of i] alive by (auto simp: in_list_def)
    next
      case False
      have "wc_convid (obj s j) \<noteq> d" if "in_list s j" for j
        using that False none [rule_format, of j] i o conv [of j] by (cases "j = i") (auto simp: in_list_def)
      then have "last_state d (out s) = WCALL_STATE_NONE" by (rule told_invD(3) [OF told])
      then show ?thesis using False dead other by (cases "d = wc_convid c") auto
    qed
  qed
  moreover have "mm_inv ?t" if old: "mm_inv s"
    unfolding mm_inv_def
  proof (intro impI disjCI)
    assume ca: "ca_mm (ws_calling ?t)" and some: "mm_told (ws_calling ?t) \<noteq> MEDIAMGR_STATE_NORMAL"
    show "\<exists>j. in_list ?t j"
    proof (rule ccontr)
      assume none: "\<nexists>j. in_list ?t j"
      have others: "\<not> in_list s j" if "j \<noteq> i" for j
        using none that by (auto simp: in_list_def)
      then have "\<not> other_calls s i" by (auto simp: other_calls_def list_ex_iff)
      moreover have "0 < wc_derefs (ww_call w')" using none i by (auto simp: in_list_def)
      ultimately have "0 < wc_derefs c" "mm_told (ws_calling s) \<noteq> MEDIAMGR_STATE_NORMAL"
        using mm ca some by auto
      moreover have "\<not> in_list s i" using \<open>0 < wc_derefs c\<close> i o by (simp add: in_list_def)
      then have "\<not> in_list s j" for j using others by (cases "j = i") simp_all
      ultimately show False using old mm(1) ca by (simp add: mm_inv_def)
    qed
  qed
  ultimately show ?thesis using inv' t grows mm(1) by simp
qed

section \<open>Steps keep the invariant\<close>

definition keeps :: "('m, 'x) wsys \<Rightarrow> ('m, 'x) wsys \<Rightarrow> bool" where
  "keeps s t \<longleftrightarrow>
     (wsys_inv s \<longrightarrow> wsys_inv t \<and> (told_inv s \<longrightarrow> told_inv t) \<and> (mm_inv s \<longrightarrow> mm_inv t) \<and>
        (\<exists>xs. out t = out s @ xs) \<and> ca_mm (ws_calling t) = ca_mm (ws_calling s))"

lemma keeps_refl [simp]: "keeps s s"
  by (simp add: keeps_def)

lemma keeps_trans [trans]: "keeps s t \<Longrightarrow> keeps t u \<Longrightarrow> keeps s u"
  by (auto simp: keeps_def)

text \<open>A step that changes no object, reports no state and no end of a call.\<close>

definition unreported :: "'x calling \<Rightarrow> 'x calling \<Rightarrow> bool" where
  "unreported ca ca' \<longleftrightarrow> wh_stateh (ca_h ca') = wh_stateh (ca_h ca) \<and>
     n_wcloses (ca_out ca') = n_wcloses (ca_out ca) \<and>
     (\<forall>c. last_state c (ca_out ca') = last_state c (ca_out ca)) \<and> ca_mm ca' = ca_mm ca \<and>
     (\<exists>xs. ca_out ca' = ca_out ca @ xs)"

lemma unreported_refl [simp]: "unreported ca ca"
  by (simp add: unreported_def)

lemma same_objs_inv:
  assumes objs: "ws_objs t = ws_objs s" and em: "ws_em t = None \<longleftrightarrow> ws_em s = None"
    and closes: "n_wcloses (out t) = n_wcloses (out s)"
    and config: "ws_em s = None \<Longrightarrow> ca_config (ws_calling t) = ca_config (ws_calling s)"
    and inv: "wsys_inv s"
  shows "wsys_inv t"
proof -
  have same: "in_list t = in_list s" "n_freed t = n_freed s"
    using objs by (auto simp: in_list_def n_freed_def)
  show ?thesis using inv config unfolding wsys_inv_def same objs em closes by blast
qed

lemma quiet_keeps:
  assumes "ws_objs t = ws_objs s" "ws_em t = None \<longleftrightarrow> ws_em s = None"
    and "unreported (ws_calling s) (ws_calling t)"
    and "ws_em s = None \<Longrightarrow> ca_config (ws_calling t) = ca_config (ws_calling s)"
    and "mm_told (ws_calling t) \<in> {mm_told (ws_calling s), MEDIAMGR_STATE_NORMAL} \<or> (\<exists>i. in_list s i)"
  shows "keeps s t"
proof -
  have "told_inv t" if "told_inv s"
    using that assms(1,3) unfolding told_inv_def by (simp add: unreported_def in_list_def)
  moreover have "mm_inv t" if "mm_inv s"
    using that assms(1,3,5) by (auto simp: mm_inv_def unreported_def in_list_def)
  ultimately show ?thesis
    using same_objs_inv [OF assms(1,2) _ assms(4)] assms(3) by (auto simp: keeps_def unreported_def)
qed

lemma marshal_keeps:
  assumes "\<And>em. snd (f em) = None \<longleftrightarrow> em = None"
  shows "keeps s (snd (marshal f s))"
  using assms [of "ws_em s"] by (intro quiet_keeps) (auto simp: marshal_def split: prod.splits)

lemma request_none [simp]: "snd (marshal_request ev i em) = None \<longleftrightarrow> em = None"
  by (auto simp: marshal_request_def split: option.splits prod.splits)

lemma msg_recv_none [simp]: "snd (marshal_ecall_msg_recv i ct mt c u cl m em) = None \<longleftrightarrow> em = None"
  by (auto simp: marshal_ecall_msg_recv_def split: option.splits prod.splits)

lemma request_keeps [simp]: "keeps s (snd (marshal (marshal_request ev i) s))"
  by (rule marshal_keeps) simp

lemma marshal_in_list [simp]:
  "in_list (snd (marshal f s)) = in_list s" "ws_objs (snd (marshal f s)) = ws_objs s"
  "ws_calling (snd (marshal f s)) = ws_calling s"
  by (auto simp: marshal_def in_list_def fun_eq_iff split: prod.splits)

lemma mm_keeps:
  "st = MEDIAMGR_STATE_NORMAL \<or> in_list s i \<Longrightarrow>
   keeps s (s\<lparr>ws_calling := mediamgr_set_call_state st (ws_calling s)\<rparr>)"
  by (rule quiet_keeps) (auto simp: mediamgr_set_call_state_def tell_def unreported_def)

lemma on_wcall_keeps:
  assumes "in_list s i" "\<And>b w. wc_derefs (ww_call w) = 0 \<Longrightarrow> wcall_law (b, w) (b, g w)"
  shows "keeps s (on_wcall i g s)"
  unfolding keeps_def on_wcall_def
  using assms by (intro impI on_obj_inv) (auto simp: user_view_def in_list_def)

lemma on_wcall_update_keeps:
  "in_list s i \<Longrightarrow> (\<And>w. wc_convid (f w) = wc_convid (ww_call w)) \<Longrightarrow>
   (\<And>w. wc_derefs (f w) = wc_derefs (ww_call w)) \<Longrightarrow> (\<And>w. wc_state (f w) = wc_state (ww_call w)) \<Longrightarrow>
   keeps s (on_wcall i (\<lambda>w. w\<lparr>ww_call := f w\<rparr>) s)"
  by (rule on_wcall_keeps) (auto intro: upd_law [where f = "\<lambda>_. f _"])

lemma set_state_keeps: "in_list s i \<Longrightarrow> keeps s (on_wcall i (set_state st) s)"
  by (rule on_wcall_keeps) (simp_all add: set_state_law)

lemma dispatch_keeps: "keeps s (wcall_dispatch P s)"
proof (cases "\<exists>mq i ev mq'. ws_em s = Some mq \<and> mqueue_read mq = Some ((i, ev), mq')")
  case True
  then obtain mq i ev mq' where eq: "ws_em s = Some mq" "mqueue_read mq = Some ((i, ev), mq')" by blast
  let ?s = "s\<lparr>ws_em := Some mq'\<rparr>"
  have "keeps s ?s" by (rule quiet_keeps) (auto simp: eq)
  also have "keeps ?s (on_obj i (mqueue_handler P (wcall_ecall_h P) ev) ?s)"
    unfolding keeps_def
    by (intro impI on_obj_inv wcall_law_run)
       (use wc.mqueue_handler_rel in \<open>auto simp: ecall_rel_def\<close>)
  finally show ?thesis by (simp add: wcall_dispatch_def eq)
next
  case False
  then show ?thesis by (auto simp: wcall_dispatch_def split: option.splits)
qed

lemma media_keeps: "ecall_exists s i \<Longrightarrow> keeps s (on_obj i (ecall_step P (wcall_ecall_h P) ev) s)"
  unfolding keeps_def
  by (intro impI on_obj_inv wcall_law_run)
     (use wc.ecall_step_rel in \<open>auto simp: ecall_rel_def ecall_exists_def split: option.splits\<close>)

lemma drop_new_call_keeps: "keeps s (drop_new_call s)"
  by (simp add: drop_new_call_def mm_keeps)

text \<open>A new object holds its close handler and is alone in its conversation.\<close>

lemma new_object_keeps:
  assumes em: "ws_em s \<noteq> None" and none: "call_lookup (Some c) s = None" and e: "el_closeh e"
  shows "keeps s (s\<lparr>ws_objs := ws_objs s @ [(new_wcall c, e)]\<rparr>)" (is "keeps s ?t")
proof -
  let ?n = "length (ws_objs s)"
  have in_t: "in_list ?t j \<longleftrightarrow> in_list s j \<or> j = ?n" for j
    by (auto simp: in_list_def nth_append new_wcall_def)
  have old: "j < ?n \<Longrightarrow> ws_objs ?t ! j = ws_objs s ! j" for j by (simp add: nth_append)
  have new: "ws_objs ?t ! ?n = (new_wcall c, e)" by simp
  have other: "in_list s j \<Longrightarrow> wc_convid (obj s j) \<noteq> c" for j by (rule call_lookup_NoneD [OF none])
  have n: "wc_convid (new_wcall c) = c" "wc_derefs (new_wcall c) = 0" "wc_state (new_wcall c) = WCALL_STATE_NONE"
    by (simp_all add: new_wcall_def)
  have "wsys_inv ?t" if inv: "wsys_inv s"
    unfolding wsys_inv_def
  proof (intro conjI allI impI)
    fix j assume "j < length (ws_objs ?t)"
    then consider "j < ?n" | "j = ?n" by fastforce
    note cases = this
    show "wc_derefs (obj ?t j) \<le> 1"
      by (rule cases) (use wsys_invD(1) [OF inv, of j] old [of j] new n in simp_all)
    show "if ws_em ?t = None then wc_derefs (obj ?t j) = 1
        else wc_derefs (obj ?t j) + of_bool (el_closeh (snd (ws_objs ?t ! j))) = 1"
      by (rule cases) (use wsys_invD(3) [OF inv, of j] old [of j] new n em e in auto)
  next
    fix j k assume "in_list ?t j \<and> in_list ?t k \<and> wc_convid (obj ?t j) = wc_convid (obj ?t k)"
    then show "j = k"
      using wsys_invD(4) [OF inv, of j k] other [of j] other [of k] old [of j] old [of k] new n
        in_list_length [of s j] in_list_length [of s k] unfolding in_t by (metis fst_conv)
  next
    assume "ws_em ?t = None" then show "\<not> ca_config (ws_calling ?t)" using em by simp
  next
    show "n_wcloses (out ?t) \<le> n_freed ?t" using wsys_invD(6) [OF inv] by (simp add: n_freed_def)
  qed
  moreover have "told_inv ?t" if told: "told_inv s"
    unfolding told_inv_def
  proof (intro conjI allI impI)
    show "wh_stateh (ca_h (ws_calling ?t))" using told_invD(1) [OF told] by simp
  next
    fix j assume "in_list ?t j"
    then consider "in_list s j" | "j = ?n" unfolding in_t by blast
    then show "last_state (wc_convid (obj ?t j)) (out ?t) = wc_state (obj ?t j)"
    proof cases
      case 1
      then show ?thesis using told_invD(2) [OF told 1] old [OF in_list_length [OF 1]] by simp
    next
      case 2
      then show ?thesis using told_invD(3) [OF told other] new n by simp
    qed
  next
    fix d assume none: "\<forall>j. in_list ?t j \<longrightarrow> wc_convid (obj ?t j) \<noteq> d"
    have "wc_convid (obj s j) \<noteq> d" if "in_list s j" for j
      using none [rule_format, of j] that old [OF in_list_length [OF that]] unfolding in_t by simp
    then show "last_state d (out ?t) = WCALL_STATE_NONE" using told_invD(3) [OF told] by simp
  qed
  moreover have "mm_inv ?t" unfolding mm_inv_def using in_t [of ?n] by blast
  ultimately show ?thesis by (simp add: keeps_def)
qed

lemma call_add_keeps:
  assumes em: "ws_em s \<noteq> None" and add: "call_add convid s = (r, t)"
  shows "keeps s t" and "r = Inr i \<Longrightarrow> in_list t i"
proof -
  have "keeps s t \<and> (r = Inr i \<longrightarrow> in_list t i)"
  proof (cases "\<exists>c. convid = Some c \<and> call_lookup convid s = None")
    case False
    then show ?thesis using add by (auto simp: call_add_def split: option.splits if_splits)
  next
    case True
    then obtain c where c: "convid = Some c" "call_lookup (Some c) s = None" by blast
    consider (err) x where "r = Inl x" "t = s \<or> t = drop_new_call s"
      | (new) e where "r = Inr (length (ws_objs s))" "t = s\<lparr>ws_objs := ws_objs s @ [(new_wcall c, e)]\<rparr>" "el_closeh e"
      using add c
      by (fastforce simp: call_add_def ecall_alloc_def ecall_set_turnserver_def Let_def split: if_splits)
    then show ?thesis
    proof cases
      case err
      then show ?thesis using drop_new_call_keeps by auto
    next
      case new
      then show ?thesis
        using new_object_keeps [OF em c(2) new(3)] by (auto simp: in_list_def new_wcall_def)
    qed
  qed
  then show "keeps s t" and "r = Inr i \<Longrightarrow> in_list t i" by auto
qed

lemma call_lookup_in_list: "call_lookup convid s = Some i \<Longrightarrow> in_list s i"
  by (simp add: call_lookup_SomeD)

lemma on_wcall_simps [simp]: "ws_em (on_wcall i g s) = ws_em s"
  by (simp add: on_wcall_def on_obj_def case_prod_beta Let_def)

lemma on_wcall_in_list:
  "(\<And>w. wc_derefs (ww_call (g w)) = wc_derefs (ww_call w)) \<Longrightarrow> in_list (on_wcall i g s) = in_list s"
  by (auto simp: on_wcall_def on_obj_def in_list_def fun_eq_iff case_prod_beta Let_def nth_list_update)

lemma wcall_start_keeps: "keeps s (snd (wcall_start convid v s))"
proof (cases "convid = None \<or> \<not> ca_config (ws_calling s)")
  case True
  then show ?thesis by (auto simp: wcall_start_def)
next
  case ready: False
  have "keeps s (snd (wcall_start convid v s))" if em: "ws_em s \<noteq> None"
  proof (cases "call_lookup convid s")
    case (Some i)
    let ?s1 = "snd (marshal (marshal_request (ECALL_MEV_VIDEO_SEND_ACTIVE v) i) s)"
    let ?s2 = "snd (marshal (marshal_request ECALL_MEV_ANSWER i) ?s1)"
    have "keeps s ?s1" by simp
    moreover have k2: "keeps ?s1 ?s2" by simp
    moreover have "keeps ?s2 (on_wcall i (set_state WCALL_STATE_ANSWERED) ?s2)"
      using call_lookup_in_list [OF Some] by (intro set_state_keeps) simp
    ultimately show ?thesis
      using ready Some keeps_trans [of s ?s1 ?s2] keeps_trans [of s ?s2]
      by (auto simp: wcall_start_def marshal_defs case_prod_beta Let_def)
  next
    case None
    obtain r t where add: "call_add convid s = (r, t)" by fastforce
    have kt: "keeps s t" by (rule call_add_keeps(1) [OF em add])
    show ?thesis
    proof (cases r)
      case (Inl err)
      then show ?thesis using kt add None ready by (simp add: wcall_start_def)
    next
      case (Inr i)
      let ?s1 = "on_wcall i (set_state WCALL_STATE_OUTGOING) t"
      let ?s2 = "snd (marshal (marshal_request (ECALL_MEV_VIDEO_SEND_ACTIVE v) i) ?s1)"
      let ?s3 = "snd (marshal (marshal_request ECALL_MEV_START i) ?s2)"
      let ?g = "\<lambda>w. mm_set MEDIAMGR_STATE_SETUP_AUDIO_PERMISSIONS (w\<lparr>ww_call := (ww_call w)\<lparr>wc_video_call := v\<rparr>\<rparr>)"
      have i: "in_list t i" by (rule call_add_keeps(2) [OF em add Inr])
      note kt
      also have "keeps t ?s1" by (rule set_state_keeps [OF i])
      also have "keeps ?s1 ?s2" by simp
      also have "keeps ?s2 ?s3" by simp
      finally have k3: "keeps s ?s3" .
      have "in_list ?s3 i" using i by (simp add: on_wcall_in_list)
      then have "keeps ?s3 (on_wcall i ?g ?s3)"
        by (rule on_wcall_keeps) (rule wcall_law_trans [OF upd_law [where f = "wc_video_call_update (\<lambda>_. v)"] mm_set_law]; simp)
      then have "keeps s (on_wcall i ?g ?s3)" by (rule keeps_trans [OF k3])
      then show ?thesis
        using k3 add None ready Inr by (auto simp: wcall_start_def marshal_defs case_prod_beta Let_def)
    qed
  qed
  then show ?thesis using ready wsys_invD(5) [of s] by (auto simp: keeps_def)
qed

lemma wcall_answer_keeps: "keeps s (snd (wcall_answer convid s))"
proof (cases "call_lookup convid s")
  case (Some i)
  let ?s1 = "on_wcall i (set_state WCALL_STATE_ANSWERED) s"
  let ?s2 = "snd (marshal (marshal_request ECALL_MEV_ANSWER i) ?s1)"
  have "keeps s ?s1" by (rule set_state_keeps [OF call_lookup_in_list [OF Some]])
  also have "keeps ?s1 ?s2" by simp
  also have "keeps ?s2 (?s2\<lparr>ws_calling := mediamgr_set_call_state MEDIAMGR_STATE_SETUP_AUDIO_PERMISSIONS (ws_calling ?s2)\<rparr>)"
    using call_lookup_in_list [OF Some] by (intro mm_keeps) (simp add: on_wcall_in_list)
  finally show ?thesis by (simp add: wcall_answer_def Some marshal_defs case_prod_beta Let_def)
qed (simp add: wcall_answer_def)

lemma wcall_reject_keeps: "keeps s (snd (wcall_reject convid s))"
  by (auto simp: wcall_reject_def call_lookup_in_list set_state_keeps split: option.split)

lemma wcall_end_keeps: "keeps s (wcall_end convid s)"
proof (cases "call_lookup convid s")
  case (Some i)
  let ?s1 = "if wc_state (obj s i) \<noteq> WCALL_STATE_TERM_REMOTE then on_wcall i (set_state WCALL_STATE_TERM_LOCAL) s else s"
  have "keeps s ?s1" using set_state_keeps [OF call_lookup_in_list [OF Some]] by simp
  also have "keeps ?s1 (snd (marshal (marshal_request ECALL_MEV_END i) ?s1))" by simp
  finally show ?thesis by (simp add: wcall_end_def Some marshal_defs)
qed (simp add: wcall_end_def)

lemma wcall_video_keeps: "keeps s (wcall_set_video_send_active convid a s)"
proof (cases "call_lookup convid s")
  case (Some i)
  let ?s1 = "on_wcall i (\<lambda>w. w\<lparr>ww_call := (ww_call w)\<lparr>wc_send_active := a\<rparr>\<rparr>) s"
  have "keeps s ?s1" by (rule on_wcall_update_keeps [OF call_lookup_in_list [OF Some]]) simp_all
  also have "keeps ?s1 (snd (marshal (marshal_request (ECALL_MEV_VIDEO_SEND_ACTIVE a) i) ?s1))" by simp
  finally show ?thesis by (simp add: wcall_set_video_send_active_def Some marshal_defs)
qed (simp add: wcall_set_video_send_active_def)

lemma wcall_recv_msg_keeps: "keeps s (wcall_recv_msg ld buf ct mt convid us cl s)"
proof (cases "buf = None \<or> ws_em s = None")
  case True
  then show ?thesis by (auto simp: wcall_recv_msg_def)
next
  case ok: False
  show ?thesis
  proof (cases "econn_message_decode ld (ucast ct) (ucast mt) buf")
    case (Inl err)
    then show ?thesis by (simp add: wcall_recv_msg_def)
  next
    case (Inr msg)
    define g where "g = (\<lambda>w :: 'b wworld. if wc_userid (ww_call w) = None then w\<lparr>ww_call := (ww_call w)\<lparr>wc_userid := us\<rparr>\<rparr> else w)"
    define deliver where "deliver = (\<lambda>i s :: ('a, 'b) wsys.
      snd (marshal (marshal_ecall_msg_recv i (ucast ct) (ucast mt) convid us cl (Some msg)) (on_wcall i g s)))"
    have g: "wcall_law (b, w) (b, g w)" for b w
      using upd_law [of "wc_userid_update (\<lambda>_. us)" w b] by (simp add: g_def wcall_law_refl)
    have dk: "keeps t (deliver i t)" if "in_list t i" for i t
    proof -
      have "keeps t (on_wcall i g t)" using that g by (rule on_wcall_keeps)
      also have "keeps (on_wcall i g t) (deliver i t)" unfolding deliver_def by (rule marshal_keeps) simp
      finally show ?thesis .
    qed
    have eq: "wcall_recv_msg ld buf ct mt convid us cl s =
        (case call_lookup convid s of
           Some i \<Rightarrow> deliver i s
         | None \<Rightarrow> if econn_is_creator (ca_userid (ws_calling s)) us (Some msg)
                   then (case call_add convid s of (Inl _, s) \<Rightarrow> s | (Inr i, s) \<Rightarrow> deliver i s)
                   else s)"
      using ok by (simp only: wcall_recv_msg_def Let_def Inr sum.case deliver_def g_def if_False)
    obtain r t where add: "call_add convid s = (r, t)" by fastforce
    have "keeps s t" "\<And>i. r = Inr i \<Longrightarrow> keeps s (deliver i t)"
      using call_add_keeps [OF _ add] ok dk keeps_trans by blast+
    then show ?thesis
      unfolding eq using dk call_lookup_in_list [of convid s]
      by (auto simp: add split: option.split sum.split)
  qed
qed

lemma marshal_each_keeps: "(\<And>i. f i = marshal_request ev i) \<Longrightarrow> keeps s (marshal_each f s)"
proof -
  assume "\<And>i. f i = marshal_request ev i"
  then have "keeps s (fold (\<lambda>i s. snd (marshal (f i) s)) xs s)" for xs
    by (induction xs arbitrary: s) (simp, simp, rule keeps_trans [OF request_keeps])
  then show ?thesis by (simp add: marshal_each_def)
qed

lemma mcat_keeps: "keeps s (mm_mcat_changed st s)"
  by (cases st) (auto simp: mm_mcat_changed_def marshal_defs intro: marshal_each_keeps)

lemma propsync_request_keeps: "keeps s (wcall_propsync_request P convid s)"
proof (cases "call_lookup convid s")
  case (Some i)
  have "wcall_law (user_view (e, w)) (user_view (snd (ecall_propsync_request P (wcall_ecall_h P) (e, w))))" for e and w :: "'b wworld"
    using wc.ecall_step_rel [of "(e, w)" P L_propsync_request]
    by (intro wcall_law_run) (simp add: ecall_rel_def)
  then show ?thesis
    using call_lookup_in_list [OF Some]
    by (auto simp: wcall_propsync_request_def Some keeps_def on_obj_inv)
qed (simp add: wcall_propsync_request_def)

lemma config_unreported: "unreported ca (call_config_handler ud ss srvv ca)"
  by (auto simp: call_config_handler_def wcall_set_ice_servers_def Let_def tell_def unreported_def
      split: list.splits sum.splits prod.splits)

lemmas config_told [simp] =
  config_unreported [unfolded unreported_def, THEN conjunct2, THEN conjunct2, THEN conjunct1, rule_format]

lemma config_mm [simp]: "mm_told (call_config_handler ud ss srvv ca) = mm_told ca"
  by (auto simp: call_config_handler_def wcall_set_ice_servers_def Let_def tell_def
      split: list.splits sum.splits prod.splits)

text \<open>Closing releases every object in the list.\<close>

lemma release_fold:
  assumes "distinct xs" "\<forall>i \<in> set xs. i < length (ws_objs s)"
  defines "g \<equiv> \<lambda>w :: 'x wworld. w\<lparr>ww_call := (ww_call w)\<lparr>wc_derefs := Suc (wc_derefs (ww_call w))\<rparr>\<rparr>"
  defines "t \<equiv> fold (\<lambda>i s. on_wcall i g s) xs (s :: ('m, 'x) wsys)"
  shows "ws_calling t = ws_calling s \<and> length (ws_objs t) = length (ws_objs s) \<and>
    (\<forall>j < length (ws_objs s). wc_derefs (obj t j) = wc_derefs (obj s j) + of_bool (j \<in> set xs)) \<and>
    n_freed t = n_freed s + length xs"
  using assms(1,2) unfolding t_def
proof (induction xs arbitrary: s)
  case (Cons i xs)
  let ?s = "on_wcall i g s"
  have i: "i < length (ws_objs s)" using Cons.prems by simp
  obtain c e where o: "ws_objs s ! i = (c, e)" by fastforce
  have s: "?s = s\<lparr>ws_objs := (ws_objs s)[i := (c\<lparr>wc_derefs := Suc (wc_derefs c)\<rparr>, e)], ws_calling := ws_calling s, ws_ub := ws_ub s\<rparr>"
    using i o by (simp add: on_wcall_def on_obj_def g_def)
  have n: "n_freed ?s = Suc (n_freed s)"
    using n_freed_update [OF i, where c = "c\<lparr>wc_derefs := Suc (wc_derefs c)\<rparr>" and e = e and ca = "ws_calling s" and u = "ws_ub s"]
      o unfolding s by simp
  have d: "wc_derefs (obj ?s j) = wc_derefs (obj s j) + of_bool (j = i)" for j
    unfolding s using i o by (cases "j = i") auto
  have "length (ws_objs ?s) = length (ws_objs s)" "ws_calling ?s = ws_calling s" unfolding s by simp_all
  then show ?case using Cons.IH [of ?s] Cons.prems n d by auto
qed simp

lemma wcall_close_inv:
  assumes inv: "wsys_inv s"
  shows "wsys_inv (wcall_close s)"
proof -
  let ?xs = "filter (in_list s) [0..<length (ws_objs s)]"
  define t where "t = fold (\<lambda>i s. on_wcall i (\<lambda>w. w\<lparr>ww_call := (ww_call w)\<lparr>wc_derefs := Suc (wc_derefs (ww_call w))\<rparr>\<rparr>) s) ?xs s"
  have "distinct ?xs" "\<forall>i \<in> set ?xs. i < length (ws_objs s)" by simp_all
  note fold = release_fold [OF this, folded t_def]
  have t: "ws_calling t = ws_calling s" "length (ws_objs t) = length (ws_objs s)" "n_freed t = n_freed s + length ?xs"
    "\<forall>j < length (ws_objs s). wc_derefs (obj t j) = wc_derefs (obj s j) + of_bool (j \<in> set ?xs)"
    using fold by blast+
  have one: "wc_derefs (obj t j) = 1" if "j < length (ws_objs s)" for j
    using t(4) [rule_format, OF that] wsys_invD(1) [OF inv that] that by (cases "in_list s j") (simp_all add: in_list_def)
  have objs: "ws_objs (wcall_close s) = ws_objs t" "ws_em (wcall_close s) = None" "out (wcall_close s) = out s"
    "\<not> ca_config (ws_calling (wcall_close s))" "n_freed (wcall_close s) = n_freed t"
    using t(1) by (simp_all add: wcall_close_def t_def [symmetric] Let_def n_freed_def)
  have none: "\<not> in_list (wcall_close s) j" for j
    using one [of j] t(2) by (auto simp: in_list_def objs)
  show ?thesis
    unfolding wsys_inv_def objs(1,2,3,5) t(2,3) using one none objs(4) wsys_invD(6) [OF inv] by simp
qed

lemma wcall_init_inv:
  assumes "wsys_inv s"
  shows "wsys_inv (snd (wcall_init ud ss us cl h e1 e2 cfg s))"
proof -
  have fresh: "wsys_inv t" if "ws_objs t = []" "n_wcloses (out t) = 0" "ws_em t = None \<Longrightarrow> \<not> ca_config (ws_calling t)"
    for t :: "('a, 'b) wsys"
    using that by (simp add: wsys_inv_def in_list_def)
  show ?thesis
    using assms
    by (auto simp: wcall_init_def Let_def ecall_marshal_alloc_def intro!: fresh wcall_close_inv
        simp: config_unreported [unfolded unreported_def] split: option.splits)
qed

end
