(* ===== verification/Wcall_Correct.thy ===== *)
theory Wcall_Correct
  imports Wcall_Inv Ecall_Correct
begin

text \<open>
  What the application can rely on, and what it cannot: properties of every run of the calling
  interface from the zeroed static state, and of a run with given events.
\<close>

section \<open>Runs\<close>

lemma wcall_step_keeps:
  assumes "case ev of W_set_handlers a b c \<Rightarrow> False | W_init a b c d e f \<Rightarrow> False | W_close \<Rightarrow> False | _ \<Rightarrow> True"
  shows "keeps s (wcall_step P ud ss ev s)"
proof (cases ev)
  case (W_config srvv)
  have "ws_em s \<noteq> None \<Longrightarrow> keeps s (s\<lparr>ws_calling := call_config_handler ud ss srvv (ws_calling s)\<rparr>)"
    by (rule quiet_keeps) (simp_all add: config_unreported)
  then show ?thesis using W_config by simp
next
  case (W_set_nat d)
  then show ?thesis by (auto simp: wcall_set_nat_def unreported_def intro: quiet_keeps)
next
  case (W_resp ctx)
  then show ?thesis by (auto simp: wcall_resp_def unreported_def intro: quiet_keeps)
next
  case (W_env x err)
  then show ?thesis by (auto simp: unreported_def intro: quiet_keeps)
next
  case W_network_changed
  then show ?thesis by (auto simp: wcall_network_changed_def marshal_defs intro: marshal_each_keeps)
qed (use assms in \<open>simp_all add: wcall_start_keeps wcall_answer_keeps wcall_reject_keeps wcall_end_keeps
    wcall_recv_msg_keeps wcall_video_keeps mcat_keeps propsync_request_keeps dispatch_keeps media_keeps\<close>)

lemma handlers_inv: "wsys_inv s \<Longrightarrow> wsys_inv (wcall_step P ud ss (W_set_handlers a b c) s)"
  by (rule same_objs_inv [of _ s]) simp_all

lemma wcall_step_inv: "wsys_inv s \<Longrightarrow> wsys_inv (wcall_step P ud ss ev s)"
proof (cases ev)
  case (W_set_handlers a b c)
  then show "wsys_inv s \<Longrightarrow> ?thesis" by (simp only: handlers_inv)
next
  case (W_init a b c d e f)
  then show "wsys_inv s \<Longrightarrow> ?thesis" by (simp add: wcall_init_inv)
next
  case W_close
  then show "wsys_inv s \<Longrightarrow> ?thesis" by (simp add: wcall_close_inv)
qed (use wcall_step_keeps [of ev s P ud ss] in \<open>auto simp: keeps_def\<close>)

interpretation wsystem: event_system "wcall_step P ud ss" wsys_inv for P ud ss
  by unfold_locales (rule wcall_step_inv)

text \<open>The static state before the first \<^verbatim>\<open>wcall_init\<close>.\<close>

definition wsys0 :: "bool \<Rightarrow> 'x \<Rightarrow> ('m, 'x) wsys" where
  "wsys0 msys x =
     \<lparr>ws_calling = \<lparr>ca_mm = False, ca_userid = None, ca_clientid = None,
        ca_conf = \<lparr>econf = \<lparr>timeout_setup = 30000, timeout_term = 5000\<rparr>, nat_dualstack = True\<rparr>,
        ca_turn_addr = None, ca_turn_username = None, ca_turn_credential = None, ca_h = no_handlers,
        ca_config = False, ca_msys = msys, ca_ctxl = [], ca_nctx = 0, ca_out = [], ca_env = x\<rparr>,
      ws_objs = [], ws_em = None, ws_ub = False\<rparr>"

lemma wsys0_inv: "wsys_inv (wsys0 msys x)"
  by (simp add: wsys_inv_def wsys0_def in_list_def)

lemma reach_inv: "wsys_inv (run (wcall_step P ud ss) evs (wsys0 msys x))"
  by (rule wsystem.inv_run [OF wsys0_inv])

text \<open>A concrete run: every callback is set, the configuration comes without servers.\<close>

definition all_handlers :: wcall_handlers where
  "all_handlers = \<lparr>wh_readyh = True, wh_sendh = Some (\<lambda>_. 0), wh_incomingh = True, wh_missedh = True,
     wh_answerh = True, wh_estabh = True, wh_closeh = True, wh_stateh = True, wh_vstateh = True,
     wh_acbrh = True\<rparr>"

definition init0 :: "(nat, unit) wevent" where
  "init0 = W_init (Some ''me'') (Some ''dev'') all_handlers 0 0 (Some [])"

definition wstep0 :: "(nat, unit) wevent \<Rightarrow> (nat, unit) wsys \<Rightarrow> (nat, unit) wsys" where
  "wstep0 = wcall_step (media_ok (\<lambda>w. Some ''10.0.0.1'')) (\<lambda>_. Inl EINVAL) (\<lambda>_ _. Inl EINVAL)"

definition wsys1 :: "(nat, unit) wsys" where
  "wsys1 = run wstep0 [init0, W_set_handlers True True True] (wsys0 True ())"

lemma wsys1_eq:
  "wsys1 = (wsys0 True ())\<lparr>ws_calling := (ws_calling (wsys0 True () :: (nat, unit) wsys))\<lparr>ca_mm := True,
     ca_userid := Some ''me'', ca_clientid := Some ''dev'', ca_h := all_handlers, ca_config := True,
     ca_conf := \<lparr>econf = \<lparr>timeout_setup = 30000, timeout_term = 5000\<rparr>, nat_dualstack = True\<rparr>,
     ca_out := [Wo_ready]\<rparr>, ws_em := Some mqueue_alloc\<rparr>"
  by (simp add: wsys1_def wstep0_def init0_def wsys0_def wcall_init_def str_isset_def all_handlers_def
      call_config_handler_def wcall_set_ice_servers_def tell_def ecall_marshal_alloc_def)

section \<open>Call objects\<close>

text \<open>
  C2. Whatever the application, the network, the media engine and the timers do, no call object is
  released twice. While the interface is open an object has been released exactly when its call has
  called the close handler, once it is closed all objects have been released, and the application is
  told of at most one end of a call per released object.
\<close>

theorem wcall_released_once:
  fixes P :: "('m, 'x wworld, 'f) media"
  assumes "s = run (wcall_step P ud ss) evs (wsys0 msys x)" and "i < length (ws_objs s)"
  shows "wc_derefs (obj s i) \<le> 1 \<and>
     (ws_em s \<noteq> None \<longrightarrow> (wc_derefs (obj s i) = 1 \<longleftrightarrow> \<not> el_closeh (snd (ws_objs s ! i)))) \<and>
     (ws_em s = None \<longrightarrow> wc_derefs (obj s i) = 1) \<and> n_wcloses (out s) \<le> n_freed s"
proof -
  have inv: "wsys_inv s" unfolding assms(1) by (rule reach_inv)
  have "ws_em s \<noteq> None \<Longrightarrow> wc_derefs (obj s i) = 1 \<longleftrightarrow> \<not> el_closeh (snd (ws_objs s ! i))"
    using wsys_invD(3) [OF inv assms(2)] by (cases "el_closeh (snd (ws_objs s ! i))") simp_all
  then show ?thesis
    using wsys_invD(1,2) [OF inv assms(2)] wsys_invD(6) [OF inv] by blast
qed

theorem wcall_released_once_witness:
  "let s = run wstep0 [init0, W_set_handlers True True True, W_start (Some ''conv'') False] (wsys0 True ())
   in length (ws_objs s) = 1 \<and> wc_derefs (obj s 0) \<le> 1"
proof -
  define s where "s = run wstep0 [init0, W_set_handlers True True True, W_start (Some ''conv'') False] (wsys0 True ())"
  have "s = snd (wcall_start (Some ''conv'') False wsys1)"
    by (simp add: s_def wsys1_def wstep0_def)
  then have len: "length (ws_objs s) = 1"
    by (simp add: wcall_start_def wsys1_eq wsys0_def call_lookup_def call_add_def ecall_alloc_def str_isset_def
        on_wcall_def on_obj_def case_prod_beta marshal_def Let_def)
  then have "wc_derefs (obj s 0) \<le> 1"
    using wcall_released_once [OF s_def [unfolded wstep0_def], of 0] by simp
  with len show ?thesis unfolding s_def by (simp add: Let_def)
qed


section \<open>What the application was told\<close>

text \<open>After a successful initialisation with the state handler set, until handlers change or it is closed.\<close>

definition steady :: "('m, 'x) wevent \<Rightarrow> bool" where
  "steady ev = (case ev of W_set_handlers a b c \<Rightarrow> False | W_init a b c d e f \<Rightarrow> False
                | W_close \<Rightarrow> False | _ \<Rightarrow> True)"

lemma steady_run_keeps: "list_all steady evs \<Longrightarrow> keeps s (run (wcall_step P ud ss) evs s)"
proof (induction evs arbitrary: s)
  case (Cons ev evs)
  then show ?case
    using keeps_trans [OF wcall_step_keeps [of ev s P ud ss]] by (simp add: steady_def)
qed simp

lemma init_told:
  assumes "wcall_init ud ss us cl h e1 e2 cfg s = (0, t)"
  shows "told_inv (wcall_step P ud ss (W_set_handlers True b c) t)"
proof -
  have "ws_objs t = [] \<and> (\<forall>c. last_state c (out t) = WCALL_STATE_NONE)"
    using assms by (auto simp: wcall_init_def Let_def split: if_splits option.splits)
  then show ?thesis by (simp add: told_inv_def in_list_def)
qed

lemma iterate_state_iff:
  assumes "wsys_inv s" "told_inv s"
  shows "(c, st) \<in> set (wcall_iterate_state s) \<longleftrightarrow> st \<noteq> WCALL_STATE_NONE \<and> last_state c (out s) = st"
proof
  assume "(c, st) \<in> set (wcall_iterate_state s)"
  then show "st \<noteq> WCALL_STATE_NONE \<and> last_state c (out s) = st"
    using told_invD(2) [OF assms(2)] by (auto simp: wcall_iterate_state_def)
next
  assume st: "st \<noteq> WCALL_STATE_NONE \<and> last_state c (out s) = st"
  then obtain i where "in_list s i" "wc_convid (obj s i) = c" using told_invD(3) [OF assms(2)] by blast
  then show "(c, st) \<in> set (wcall_iterate_state s)"
    using st told_invD(2) [OF assms(2), of i] in_list_length [of s i]
    by (auto simp: wcall_iterate_state_def intro!: image_eqI [of _ _ i])
qed

text \<open>
  C3. The application that only listens to the state callback knows what the interface would answer:
  after any events the conversations that \<^verbatim>\<open>wcall_iterate_state\<close> visits, with their states, are those
  whose last reported state is not NONE, and \<^verbatim>\<open>wcall_get_state\<close> answers the last reported state of a
  conversation that has a call.
\<close>

theorem wcall_states_told:
  assumes "wcall_init ud ss us cl h e1 e2 cfg (run (wcall_step P ud ss) evs0 (wsys0 msys x)) = (0, t)"
    and "list_all steady evs"
    and "s = run (wcall_step P ud ss) (W_set_handlers True b b' # evs) t"
  shows "((c, st) \<in> set (wcall_iterate_state s) \<longleftrightarrow> st \<noteq> WCALL_STATE_NONE \<and> last_state c (out s) = st) \<and>
     wcall_get_state (Some c) s =
       (if call_lookup (Some c) s = None then WCALL_STATE_UNKNOWN else last_state c (out s))"
proof -
  let ?t = "wcall_step P ud ss (W_set_handlers True b b') t"
  have s: "s = run (wcall_step P ud ss) evs ?t" using assms(3) by simp
  have "wsys_inv t" using wcall_init_inv [OF reach_inv, of ud ss us cl h e1 e2 cfg P] assms(1) by (metis snd_conv)
  then have "wsys_inv ?t" by (rule handlers_inv)
  then have inv: "wsys_inv s" "told_inv s"
    using steady_run_keeps [OF assms(2), of ?t P ud ss] init_told [OF assms(1)] unfolding s keeps_def by blast+
  have "wcall_get_state (Some c) s = last_state c (out s)" if "call_lookup (Some c) s = Some i" for i
    using told_invD(2) [OF inv(2), of i] call_lookup_SomeD [OF that] that by (simp add: wcall_get_state_def)
  then show ?thesis using iterate_state_iff [OF inv] by (auto simp: wcall_get_state_def)
qed

theorem wcall_states_told_witness:
  "let s = run wstep0 [W_set_handlers True True True, W_start (Some ''conv'') False, W_end (Some ''conv'')]
       (snd (wcall_init (\<lambda>_. Inl EINVAL) (\<lambda>_ _. Inl EINVAL) (Some ''me'') (Some ''dev'') all_handlers 0 0 (Some []) (wsys0 True ())))
   in (''conv'', WCALL_STATE_TERM_LOCAL) \<in> set (wcall_iterate_state s) \<longleftrightarrow>
     last_state ''conv'' (out s) = WCALL_STATE_TERM_LOCAL"
proof -
  define t :: "(nat, unit) wsys" where "t = snd (wcall_init (\<lambda>_. Inl EINVAL) (\<lambda>_ _. Inl EINVAL) (Some ''me'') (Some ''dev'') all_handlers 0 0 (Some []) (wsys0 True ()))"
  have "wcall_init (\<lambda>_. Inl EINVAL) (\<lambda>_ _. Inl EINVAL) (Some ''me'') (Some ''dev'') all_handlers 0 0 (Some [])
      (run (wcall_step (media_ok (\<lambda>w. Some ''10.0.0.1'')) (\<lambda>_. Inl EINVAL) (\<lambda>_ _. Inl EINVAL)) [] (wsys0 True ())) = (0, t)"
    by (simp add: t_def wcall_init_def str_isset_def Let_def)
  from wcall_states_told [OF this, of "[W_start (Some ''conv'') False, W_end (Some ''conv'')]" _ True True "''conv''" WCALL_STATE_TERM_LOCAL]
  show ?thesis unfolding t_def [symmetric] wstep0_def by (simp add: steady_def Let_def)
qed

section \<open>Calls that cannot start\<close>

text \<open>A call without connection and TURN server ignores the requests to start and to end it.\<close>

definition stuck_call :: "'m ecall \<Rightarrow> bool" where
  "stuck_call e \<longleftrightarrow> el_econn e = None \<and> el_turn_srv e = None \<and> el_mf e = None"

lemma stuck_request:
  assumes "stuck_call e" "ev \<in> {ECALL_MEV_START, ECALL_MEV_END, ECALL_MEV_VIDEO_SEND_ACTIVE a}"
  obtains e' where "stuck_call e'" "\<And>w. mqueue_handler P H ev (e, w) = (e', w)"
proof (cases "ev = ECALL_MEV_VIDEO_SEND_ACTIVE a")
  case True
  obtain err e' where upd: "props_local_update ''videosend'' (if a then ''true'' else ''false'') e = (err, e')"
    by (cases "props_local_update ''videosend'' (if a then ''true'' else ''false'') e") simp
  have "stuck_call e'"
    using upd assms(1) by (auto simp: props_local_update_def stuck_call_def split: option.splits prod.splits)
  moreover from this have "mqueue_handler P H ev (e, w) = (e', w)" for w
    using True upd
    by (auto simp: ecall_set_video_send_active_def stuck_call_def mf_ask_def econn_can_send_propsync_def)
  ultimately show thesis by (rule that)
next
  case False
  then have "mqueue_handler P H ev (e, w) = (e, w)" for w
    using assms
    by (auto simp: stuck_call_def ecall_start_def ecall_end_def on_econn_def with_econn_def mf_upd_def)
  with assms(1) show thesis by (rule that)
qed

text \<open>The state with one more call, the requests \<open>q\<close> for it in the queue.\<close>

definition add_call ::
  "('m, 'x) wsys \<Rightarrow> ecall_marshal \<Rightarrow> 'x calling \<Rightarrow> wcall \<Rightarrow> 'm ecall \<Rightarrow> mq_data list \<Rightarrow> ('m, 'x) wsys" where
  "add_call s mq ca wc e q =
     s\<lparr>ws_calling := ca, ws_objs := ws_objs s @ [(wc, e)],
       ws_em := Some (mq\<lparr>mq_msgs := map (Pair (length (ws_objs s))) q\<rparr>)\<rparr>"

lemma stuck_dispatch:
  assumes "stuck_call e" "ev \<in> {ECALL_MEV_START, ECALL_MEV_END, ECALL_MEV_VIDEO_SEND_ACTIVE a}"
  obtains e' where "stuck_call e'"
    "wcall_dispatch P (add_call s mq ca wc e (ev # q)) = add_call s mq ca wc e' q"
proof -
  obtain e' where e': "stuck_call e'" "\<And>w. mqueue_handler P (wcall_ecall_h P) ev (e, w) = (e', w)"
    using stuck_request [OF assms] by metis
  have "wcall_dispatch P (add_call s mq ca wc e (ev # q)) = add_call s mq ca wc e' q"
    using e'(2) by (simp add: wcall_dispatch_def mqueue_read_def on_obj_def add_call_def)
  with e'(1) show thesis by (rule that)
qed

lemma lookup_unique:
  assumes "wsys_inv s" "in_list s i" "wc_convid (obj s i) = c"
  shows "call_lookup (Some c) s = Some i"
proof (cases "call_lookup (Some c) s")
  case None
  then show ?thesis using call_lookup_NoneD [OF None assms(2)] assms(3) by simp
next
  case (Some j)
  then have "in_list s j" "wc_convid (obj s j) = c" using call_lookup_SomeD by force+
  then have "j = i" using wsys_invD(4) [OF assms(1)] assms(2,3) by blast
  then show ?thesis using Some by simp
qed

text \<open>A new outgoing call when there is no TURN server.\<close>

lemma start_no_turn:
  fixes s :: "('m, 'x) wsys"
  assumes "ca_config (ws_calling s)" "ca_turn_addr (ws_calling s) = None" "ca_msys (ws_calling s)"
    and "ca_userid (ws_calling s) \<noteq> None" "ca_clientid (ws_calling s) \<noteq> None" "c \<noteq> []"
    and "call_lookup (Some c) s = None" "ws_em s = Some mq" "mq_msgs mq = []" "mq_err mq = 0"
  obtains e ca where "stuck_call e" "n_wcloses (ca_out ca) = n_wcloses (out s)" "ca_config ca"
    "wcall_start (Some c) v s =
      (0, add_call s mq ca ((new_wcall c)\<lparr>wc_state := WCALL_STATE_OUTGOING, wc_video_call := v\<rparr>) e
            [ECALL_MEV_VIDEO_SEND_ACTIVE v, ECALL_MEV_START])"
proof -
  let ?n = "length (ws_objs s)" and ?ca = "ws_calling s"
  obtain e :: "'m ecall" where e: "ecall_alloc (Some (ca_conf ?ca)) True (Some c) (ca_userid ?ca) (ca_clientid ?ca) = Inr e" "stuck_call e"
    using assms(4-6) by (simp add: ecall_alloc_def str_isset_def stuck_call_def)
  have add: "call_add (Some c) s = (Inr ?n, s\<lparr>ws_objs := ws_objs s @ [(new_wcall c, e)]\<rparr>)"
    using assms(2,3,7) e(1) by (simp add: call_add_def Let_def)
  let ?ca1 = "if wh_stateh (ca_h ?ca) then tell (Wo_state c WCALL_STATE_OUTGOING) ?ca else ?ca"
  let ?ca2 = "mediamgr_set_call_state MEDIAMGR_STATE_SETUP_AUDIO_PERMISSIONS ?ca1"
  have new: "wc_convid (new_wcall c) = c" "wc_state (new_wcall c) = WCALL_STATE_NONE" by (simp_all add: new_wcall_def)
  have "wcall_start (Some c) v s =
      (0, add_call s mq ?ca2 ((new_wcall c)\<lparr>wc_state := WCALL_STATE_OUTGOING, wc_video_call := v\<rparr>) e
            [ECALL_MEV_VIDEO_SEND_ACTIVE v, ECALL_MEV_START])"
    using assms(1,7-10) new
    by (simp add: wcall_start_def add on_wcall_def on_obj_def marshal_def marshal_defs marshal_request_def
        mqueue_push_def set_state_def tell_if_def mm_set_def add_call_def)
  moreover have "n_wcloses (ca_out ?ca2) = n_wcloses (out s)" "ca_config ?ca2"
    using assms(1) by (simp_all add: mediamgr_set_call_state_def tell_def)
  ultimately show thesis using that e(2) by blast
qed



section \<open>Declining a call\<close>

lemma end_ringing:
  assumes "el_econn e = Some x" "ec_state x = ECONN_PENDING_INCOMING"
  shows "ecall_end P H (e, w) =
    (mf_upd (mediaflow_stop_media P)
       (e\<lparr>el_econn := Some ((econn_set_state ECONN_TERMINATING x)\<lparr>ec_tmr := tmr_start 1 Tmr_cancel\<rparr>)\<rparr>), w)"
  using assms by (simp add: ecall_end_def on_econn_def with_econn_def econn_end_def)

lemma cancel_timer_closes:
  assumes "el_econn e = Some x" "ec_state x = ECONN_TERMINATING" "ec_tmr x = tmr_start n Tmr_cancel"
    and "ec_closeh x" "el_closeh e"
  obtains e' js where "el_closeh e' = False"
    "\<And>w. ecall_step P H L_tmr_econn (e, w) = (e', lh_closeh H (ec_err x) js e' w)"
proof -
  define x' where "x' = x\<lparr>ec_tmr := None, ec_setup_err := ec_err x, ec_state := ECONN_TERMINATING, ec_closeh := False\<rparr>"
  define js where "js = (case ecall_stats_prepare P (e\<lparr>el_econn := Some x'\<rparr>) (ODICT_OBJECT []) (ec_err x) of
                       (False, _) \<Rightarrow> None
                     | (True, jobj) \<Rightarrow>
                         (case jzon_encode (mo_ld P) (Some jobj) of
                            Inl _ \<Rightarrow> None
                          | Inr s \<Rightarrow> Some s))"
  define e' where "e' = e\<lparr>el_econn := Some x', el_mf := None, el_closeh := False\<rparr>"
  have "econn_tmr_fire (ecall_econn_h P H) (x, e, w) = (x', e', lh_closeh H (ec_err x) js e' w)" for w
    using assms
    by (simp add: econn_tmr_fire_def tmr_start_def tmr_cancel_handler_def econn_close_def Let_def
        ecall_econn_h_def in_ecall_def econn_close_handler_def ecall_close_def tmr_cancel_def
        x'_def [symmetric] js_def [symmetric] e'_def [symmetric])
       (simp add: e'_def)
  then have "ecall_step P H L_tmr_econn (e, w) = (e', lh_closeh H (ec_err x) js e' w)" for w
    using assms(1) by (simp add: on_econn_def with_econn_def) (simp add: e'_def)
  then show thesis by (rule that [rotated]) (simp add: e'_def)
qed

text \<open>
  C26. Declining works to the end: when the application ends a call that rings, the request is taken
  from the queue and the timer of the connection fires, the application is told TERM_LOCAL, then
  NONE, then that the call ended normally by its own user, in this order; and the conversation is
  free again.
\<close>

theorem wcall_declined:
  fixes P :: "('m, 'x wworld, 'f) media"
  assumes inv: "wsys_inv s"
    and "call_lookup (Some c) s = Some i" "ws_objs s ! i = (wc, e)" "wc_state wc = WCALL_STATE_INCOMING"
    and "el_econn e = Some x" "ec_state x = ECONN_PENDING_INCOMING" "ec_closeh x" "ec_err x = 0"
    and "ws_em s = Some mq" "mq_msgs mq = []" "mq_err mq = 0"
    and "wh_stateh (ca_h (ws_calling s))" "wh_closeh (ca_h (ws_calling s))"
    and "t = run (wcall_step P ud ss) [W_end (Some c), W_dispatch, W_media i L_tmr_econn] s"
  shows "\<exists>js mm. out t = out s @ [Wo_state c WCALL_STATE_TERM_LOCAL, Wo_state c WCALL_STATE_NONE,
            Wo_close WCALL_REASON_NORMAL c (ca_userid (ws_calling s)) js] @ mm \<and>
         set mm \<subseteq> {Wo_mm MEDIAMGR_STATE_NORMAL} \<and> call_lookup (Some c) t = None"
proof -
  have li: "in_list s i" "wc_convid wc = c" using call_lookup_SomeD [OF assms(2)] assms(3) by simp_all
  then have i: "i < length (ws_objs s)" "wc_derefs wc = 0" using assms(3) by (simp_all add: in_list_def)
  have closeh: "el_closeh e"
    using wsys_invD(3) [OF inv i(1)] assms(3,9) i(2) by (cases "el_closeh e") simp_all
  let ?ca1 = "tell (Wo_state c WCALL_STATE_TERM_LOCAL) (ws_calling s)"
  let ?c1 = "wc\<lparr>wc_state := WCALL_STATE_TERM_LOCAL\<rparr>"
  have s1: "wcall_end (Some c) s = s\<lparr>ws_objs := (ws_objs s)[i := (?c1, e)], ws_calling := ?ca1,
      ws_em := Some (mq\<lparr>mq_msgs := [(i, ECALL_MEV_END)]\<rparr>)\<rparr>"
    using assms(2-4,9-12) li(2) i
    by (simp add: wcall_end_def on_wcall_def on_obj_def marshal_def marshal_defs marshal_request_def
        mqueue_push_def set_state_def tell_if_def)
  define x1 where "x1 = (econn_set_state ECONN_TERMINATING x)\<lparr>ec_tmr := tmr_start 1 Tmr_cancel\<rparr>"
  define e1 where "e1 = mf_upd (mediaflow_stop_media P) (e\<lparr>el_econn := Some x1\<rparr>)"
  have e1: "el_econn e1 = Some x1" "el_closeh e1" using closeh by (simp_all add: e1_def mf_upd_def split: option.split)
  have x1: "ec_state x1 = ECONN_TERMINATING" "ec_closeh x1" "ec_err x1 = 0" "ec_tmr x1 = tmr_start 1 Tmr_cancel"
    using assms(7,8) by (simp_all add: x1_def econn_set_state_def)
  have s2: "wcall_dispatch P (wcall_end (Some c) s) = s\<lparr>ws_objs := (ws_objs s)[i := (?c1, e1)], ws_calling := ?ca1,
      ws_em := Some (mq\<lparr>mq_msgs := []\<rparr>)\<rparr>" (is "_ = ?s2")
    using i
    by (simp add: s1 wcall_dispatch_def mqueue_read_def on_obj_def end_ringing [OF assms(5,6), folded x1_def] e1_def)
  obtain e2 js where e2: "el_closeh e2 = False"
      "\<And>w. ecall_step P (wcall_ecall_h P) L_tmr_econn (e1, w) = (e2, lh_closeh (wcall_ecall_h P) (ec_err x1) js e2 w)"
    using cancel_timer_closes [OF e1(1) x1(1,4,2) e1(2), of P "wcall_ecall_h P"] by blast
  let ?ca2 = "tell (Wo_close WCALL_REASON_NORMAL c (ca_userid (ws_calling s)) js) (tell (Wo_state c WCALL_STATE_NONE) ?ca1)"
  let ?w = "\<lparr>ww_call = ?c1, ww_others = other_calls ?s2 i, ww_calling = ?ca1, ww_ub = ws_ub s\<rparr>"
  define w2 where "w2 = lh_closeh (wcall_ecall_h P) 0 js e2 ?w"
  have w2: "ww_call w2 = ?c1\<lparr>wc_state := WCALL_STATE_NONE, wc_derefs := 1\<rparr>"
      "\<exists>mm. ca_out (ww_calling w2) = ca_out ?ca2 @ mm \<and> set mm \<subseteq> {Wo_mm MEDIAMGR_STATE_NORMAL}"
    using i(2) li(2) assms(12,13)
    by (auto simp: w2_def wcall_ecall_h_def ecall_close_handler_def set_state_def tell_if_def tell_def
        err2reason_def wcall_destructor_def mm_set_def mediamgr_set_call_state_def Let_def)
  have ex: "ecall_exists ?s2 i" using i by (simp add: ecall_exists_def in_list_def)
  have t: "t = ?s2\<lparr>ws_objs := (ws_objs s)[i := (ww_call w2, e2)], ws_calling := ww_calling w2, ws_ub := ww_ub w2\<rparr>"
    using assms(14) s2 ex i(1) e2(2) x1(3) by (simp add: on_obj_def w2_def)
  have "\<not> (in_list t j \<and> wc_convid (obj t j) = c)" for j
  proof (cases "j = i")
    case True
    then show ?thesis using i(1) w2(1) by (simp add: t in_list_def)
  next
    case False
    then show ?thesis using wsys_invD(4) [OF inv _ li(1), of j] li(2) assms(3) by (auto simp: t in_list_def)
  qed
  then have "call_lookup (Some c) t = None" by (simp add: call_lookup_def find_None_iff)
  then show ?thesis using w2(2) by (auto simp: t tell_def)
qed

text \<open>A call of conversation \<^verbatim>\<open>conv\<close> that rings.\<close>

definition ringing :: "(nat, unit) wsys" where
  "ringing = wsys1\<lparr>ws_objs := [((new_wcall ''conv'')\<lparr>wc_state := WCALL_STATE_INCOMING\<rparr>,
     call0\<lparr>el_econn := Some ((econn0 ''me'' ''dev'' ''s1'')\<lparr>ec_state := ECONN_PENDING_INCOMING\<rparr>)\<rparr>)]\<rparr>"

theorem wcall_declined_witness:
  "call_lookup (Some ''conv'') (run wstep0 [W_end (Some ''conv''), W_dispatch, W_media 0 L_tmr_econn] ringing) = None"
proof -
  let ?x = "(econn0 ''me'' ''dev'' ''s1'')\<lparr>ec_state := ECONN_PENDING_INCOMING\<rparr>"
  have inv: "wsys_inv ringing"
    using ecall_alloc_fields(1) [OF call0]
    by (simp add: wsys_inv_def ringing_def wsys1_eq wsys0_def in_list_def n_freed_def new_wcall_def mqueue_alloc_def)
  have lookup: "call_lookup (Some ''conv'') ringing = Some 0"
    by (simp add: call_lookup_def ringing_def in_list_def new_wcall_def)
  have obj: "ws_objs ringing ! 0 = ((new_wcall ''conv'')\<lparr>wc_state := WCALL_STATE_INCOMING\<rparr>, call0\<lparr>el_econn := Some ?x\<rparr>)"
    by (simp add: ringing_def)
  have sys: "ws_em ringing = Some mqueue_alloc" "ca_h (ws_calling ringing) = all_handlers"
    by (simp_all add: ringing_def wsys1_eq)
  show ?thesis
    using wcall_declined [OF inv lookup obj, where x = ?x and mq = mqueue_alloc,
        OF _ _ _ _ _ _ _ _ _ _ wstep0_def [THEN arg_cong, of "\<lambda>f. run f [W_end (Some ''conv''), W_dispatch, W_media 0 L_tmr_econn] ringing"]] sys
    by (auto simp add: econn0_def mqueue_alloc_def all_handlers_def simp del: run.simps)
qed

end
