(* ===== verification/Dict.thy ===== *)
theory Dict
  imports Hash
begin

text \<open>
  The string dictionary of \<^verbatim>\<open>src/dict/dict.c\<close>: 32 buckets, hashed on the lower-case key but compared
  exactly. Values are pointers, \<open>None\<close> is \<^verbatim>\<open>NULL\<close>. The contract locale \<open>map_store\<close> is interpreted on
  these operations, which gives the refinement to finite maps.
\<close>

section \<open>Operations\<close>

record 'v dict =
  hmap :: "(string \<times> 'v option) hash"
  flushing :: bool

definition hmap_handler :: "string \<Rightarrow> string \<times> 'v option \<Rightarrow> bool" where
  "hmap_handler key entry \<longleftrightarrow> str_cmp (Some (fst entry)) (Some key) = 0"

definition entry_lookup :: "'v dict \<Rightarrow> cptr \<Rightarrow> (string \<times> 'v option) option" where
  "entry_lookup d key =
     (case key of
        None \<Rightarrow> None
      | Some key \<Rightarrow> hash_lookup (hmap d) (hash_joaat_str_ci key) (hmap_handler key))"

definition dict_alloc :: "int + 'v dict" where
  "dict_alloc =
     (case hash_alloc 32 of
        Inl err \<Rightarrow> Inl err
      | Inr h \<Rightarrow> Inr \<lparr>hmap = h, flushing = False\<rparr>)"

definition dict_lookup :: "'v dict option \<Rightarrow> cptr \<Rightarrow> 'v option" where
  "dict_lookup d key =
     (case (d, key) of
        (Some d, Some key) \<Rightarrow>
          (case entry_lookup d (Some key) of None \<Rightarrow> None | Some entry \<Rightarrow> snd entry)
      | _ \<Rightarrow> None)"

definition dict_add :: "'v dict \<Rightarrow> cptr \<Rightarrow> 'v option \<Rightarrow> int \<times> 'v dict" where
  "dict_add d key val =
     (case key of
        None \<Rightarrow> (EINVAL, d)
      | Some key \<Rightarrow>
          if entry_lookup d (Some key) \<noteq> None then (EADDRINUSE, d)
          else
            (let hkey = hash_joaat_str_ci key
             in (0, d\<lparr>hmap := hash_append (hmap d) hkey (key, val)\<rparr>)))"

definition dict_remove :: "'v dict \<Rightarrow> cptr \<Rightarrow> 'v dict" where
  "dict_remove d key =
     (if flushing d then d
      else case entry_lookup d key of
             None \<Rightarrow> d
           | Some entry \<Rightarrow>
               d\<lparr>hmap := hash_unlink (hmap d) (hash_joaat_str_ci (fst entry))
                           (hmap_handler (fst entry))\<rparr>)"

definition dict_apply :: "'v dict option \<Rightarrow> (string \<Rightarrow> 'v option \<Rightarrow> bool) option \<Rightarrow> 'v option" where
  "dict_apply d h =
     (case (d, h) of
        (Some d, Some h) \<Rightarrow>
          (case hash_apply (hmap d) (\<lambda>e. h (fst e) (snd e)) of None \<Rightarrow> None | Some e \<Rightarrow> snd e)
      | _ \<Rightarrow> None)"

definition dict_flush :: "'v dict \<Rightarrow> 'v dict" where
  "dict_flush d = d\<lparr>hmap := hash_flush (hmap d), flushing := False\<rparr>"

definition dict_count :: "'v dict option \<Rightarrow> u32" where
  "dict_count d =
     (case d of
        None \<Rightarrow> 0
      | Some d \<Rightarrow>
          fold (\<lambda>i count. count + of_nat (length (hash_list (hmap d) (of_nat i))))
            [0..<unat (hash_bsize (Some (hmap d)))] 0)"

section \<open>Invariant and contract\<close>

definition dict_key :: "string \<times> 'v option \<Rightarrow> u32" where
  "dict_key e = hash_joaat_str_ci (fst e)"

text \<open>There are 32 buckets, every entry is in its bucket, no key is there twice, and no flush is running.\<close>

definition dict_wf :: "'v dict \<Rightarrow> bool" where
  "dict_wf d \<longleftrightarrow>
     hash_wf dict_key (hmap d) \<and> ht_bsize (hmap d) = 32 \<and> \<not> flushing d \<and>
     (\<forall>i < length (ht_bucket (hmap d)). distinct (map fst (ht_bucket (hmap d) ! i)))"

definition dict_entry :: "'v dict \<Rightarrow> string \<Rightarrow> 'v option option" where
  "dict_entry d key = map_option snd (entry_lookup d (Some key))"

lemma hmap_handler_eq [simp]: "hmap_handler key = (\<lambda>e. fst e = key)"
  by (auto simp: fun_eq_iff hmap_handler_def str_cmp_def)

lemma dict_wf_hash: "dict_wf d \<Longrightarrow> hash_wf dict_key (hmap d)"
  by (simp add: dict_wf_def)

lemma entry_lookup_Some:
  "entry_lookup d (Some k) = Some e \<Longrightarrow> fst e = k"
  by (auto simp: entry_lookup_def hash_lookup_def dest: list_apply_Some)

lemma entry_lookup_None:
  "entry_lookup d (Some k) = None \<longleftrightarrow>
     k \<notin> fst ` set (ht_bucket (hmap d) ! hash_slot (hmap d) (hash_joaat_str_ci k))"
  by (auto simp: entry_lookup_def hash_lookup_def list_apply_None)

lemma dict_alloc_wf: "dict_alloc = Inr d \<Longrightarrow> dict_wf d \<and> dict_entry d = Map.empty"
  using hash_alloc_wf [of 32 "hmap d" dict_key] hash_alloc_empty [of 32 "hmap d"]
  by (auto simp: dict_alloc_def dict_wf_def dict_entry_def entry_lookup_def hash_alloc_def fun_eq_iff
      split: sum.splits)

lemma dict_alloc_ok: "\<exists>d. dict_alloc = Inr d"
  by (simp add: dict_alloc_def hash_alloc_def)

lemma dict_wf_bucket:
  assumes "dict_wf d" and "hash_wf dict_key (hmap d\<lparr>ht_bucket := (ht_bucket (hmap d))[i := xs]\<rparr>)"
    and "distinct (map fst xs)"
  shows "dict_wf (d\<lparr>hmap := hmap d\<lparr>ht_bucket := (ht_bucket (hmap d))[i := xs]\<rparr>\<rparr>)"
  using assms unfolding dict_wf_def by simp (metis nth_list_update_eq nth_list_update_neq)

lemma distinct_list_unlink: "distinct (map f xs) \<Longrightarrow> distinct (map f (list_unlink P xs))"
  using set_list_unlink by (induction xs) fastforce+

lemma dict_add_wf:
  assumes "dict_wf d"
  shows "dict_wf (snd (dict_add d (Some k) v))"
proof (cases "entry_lookup d (Some k)")
  case None
  let ?i = "hash_slot (hmap d) (hash_joaat_str_ci k)"
  have "distinct (map fst (ht_bucket (hmap d) ! ?i @ [(k, v)]))"
    using None hash_wf_slot [OF dict_wf_hash [OF assms]] assms
    by (auto simp: entry_lookup_None dict_wf_def)
  moreover have "hash_wf dict_key (hash_append (hmap d) (dict_key (k, v)) (k, v))"
    by (rule hash_append_wf [OF dict_wf_hash [OF assms]])
  ultimately show ?thesis
    using None dict_wf_bucket [OF assms]
    by (simp add: dict_add_def hash_append_def Let_def dict_key_def)
qed (use assms in \<open>simp add: dict_add_def\<close>)

lemma dict_remove_wf:
  assumes "dict_wf d"
  shows "dict_wf (dict_remove d (Some k))"
proof (cases "entry_lookup d (Some k)")
  case (Some e)
  have "hash_wf dict_key (hash_unlink (hmap d) (hash_joaat_str_ci (fst e)) (hmap_handler (fst e)))"
    by (rule hash_unlink_wf [OF dict_wf_hash [OF assms]])
  moreover have "distinct (map fst (list_unlink (hmap_handler (fst e))
      (ht_bucket (hmap d) ! hash_slot (hmap d) (hash_joaat_str_ci (fst e)))))"
    using assms hash_wf_slot [OF dict_wf_hash [OF assms]]
    by (intro distinct_list_unlink) (simp add: dict_wf_def)
  ultimately show ?thesis
    using Some dict_wf_bucket [OF assms] assms
    by (simp add: dict_remove_def hash_unlink_def Let_def)
qed (use assms in \<open>simp add: dict_remove_def\<close>)

lemma dict_flush_wf: "dict_wf d \<Longrightarrow> dict_wf (dict_flush d)"
  using hash_flush_wf [of dict_key "hmap d"]
  by (auto simp: dict_wf_def dict_flush_def hash_flush_def)

lemma dict_entry_add:
  assumes "dict_wf d"
  shows "dict_entry (snd (dict_add d (Some k) v)) k' =
    (case dict_entry d k' of Some x \<Rightarrow> Some x | None \<Rightarrow> if k' = k then Some v else None)"
  using hash_lookup_append [OF dict_wf_hash [OF assms]]
  by (auto simp: dict_add_def dict_entry_def entry_lookup_def Let_def split: option.split)

text \<open>After unlinking the only entry of a key none is left.\<close>

lemma list_unlink_same:
  "distinct (map fst xs) \<Longrightarrow> list_apply (\<lambda>e. fst e = k) (list_unlink (\<lambda>e. fst e = k) xs) = None"
  by (induction xs) (auto simp: list_apply_None image_iff)

lemma dict_entry_remove:
  assumes "dict_wf d"
  shows "dict_entry (dict_remove d (Some k)) k' = (if k' = k then None else dict_entry d k')"
proof (cases "entry_lookup d (Some k)")
  case None
  then show ?thesis by (simp add: dict_remove_def dict_entry_def)
next
  case (Some e)
  note wf = dict_wf_hash [OF assms]
  have e: "fst e = k" using Some by (rule entry_lookup_Some)
  show ?thesis
  proof (cases "k' = k")
    case True
    have "list_apply (hmap_handler k) (list_unlink (hmap_handler k)
        (ht_bucket (hmap d) ! hash_slot (hmap d) (hash_joaat_str_ci k))) = None"
      using assms hash_wf_slot [OF wf] by (simp add: dict_wf_def list_unlink_same)
    then show ?thesis
      using True Some e hash_wf_slot [OF wf] assms
      by (simp add: dict_remove_def dict_entry_def entry_lookup_def hash_lookup_def hash_unlink_def
          Let_def dict_wf_def)
  next
    case False
    then have "hash_lookup (hash_unlink (hmap d) (hash_joaat_str_ci k) (hmap_handler k))
        (hash_joaat_str_ci k') (hmap_handler k') =
        hash_lookup (hmap d) (hash_joaat_str_ci k') (hmap_handler k')"
      by (intro hash_lookup_unlink_other [OF _ wf]) simp
    then show ?thesis
      using False Some e assms by (simp add: dict_remove_def dict_entry_def entry_lookup_def dict_wf_def)
  qed
qed

interpretation dict_store: map_store dict_wf dict_entry
  "\<lambda>k v d. snd (dict_add d (Some k) v)" "\<lambda>k d. dict_remove d (Some k)"
  by unfold_locales (auto simp: dict_add_wf dict_entry_add dict_remove_wf dict_entry_remove)

section \<open>Counting\<close>

definition dict_entries :: "'v dict \<Rightarrow> (string \<times> 'v option) list" where
  "dict_entries d = concat (ht_bucket (hmap d))"

lemma dict_bucket_index: "i < 32 \<Longrightarrow> unat (of_nat i AND 31 :: u32) = i"
proof -
  assume i: "i < 32"
  have "(of_nat i AND 31 :: u32) = take_bit 5 (of_nat i)"
    by (simp add: take_bit_eq_mask mask_numeral)
  then show ?thesis using i by (simp add: unsigned_take_bit_eq unsigned_of_nat take_bit_nat_eq_self)
qed

lemma dict_wf_buckets:
  assumes "dict_wf d"
  shows "length (ht_bucket (hmap d)) = 32"
    and "i < 32 \<Longrightarrow> hash_list (hmap d) (of_nat i) = ht_bucket (hmap d) ! i"
  using assms
  by (auto simp: dict_wf_def hash_wf_def hash_list_def hash_slot_def dict_bucket_index)

lemma fold_lengths:
  "fold (\<lambda>i count. count + of_nat (length (f i))) is (n :: u32) =
     n + of_nat (length (concat (map f is)))"
  by (induction "is" arbitrary: n) (auto simp: add.assoc)

lemma dict_count_entries:
  assumes "dict_wf d"
  shows "dict_count (Some d) = of_nat (length (dict_entries d))"
proof -
  have "map (\<lambda>i. hash_list (hmap d) (of_nat i)) [0..<32] = ht_bucket (hmap d)"
    by (rule nth_equalityI) (auto simp: dict_wf_buckets [OF assms])
  then show ?thesis
    using assms fold_lengths [of "\<lambda>i. hash_list (hmap d) (of_nat i)" "[0..<32]" 0]
    by (simp add: dict_count_def dict_entries_def hash_bsize_def dict_wf_def)
qed

lemma distinct_concat_tagged:
  assumes "\<And>b. b \<in> set bs \<Longrightarrow> distinct b"
    and "\<And>i x. i < length bs \<Longrightarrow> x \<in> set (bs ! i) \<Longrightarrow> g x = i + (n :: nat)"
  shows "distinct (concat bs)"
  using assms
proof (induction bs arbitrary: n)
  case (Cons b bs)
  have "g x = n" if "x \<in> set b" for x using Cons.prems(2) [of 0 x] that by simp
  moreover have rest: "g x = i + Suc n" if "i < length bs" "x \<in> set (bs ! i)" for i x
    using Cons.prems(2) [of "Suc i" x] that by simp
  have "g x \<noteq> n" if x: "x \<in> set (concat bs)" for x
  proof -
    obtain i where "i < length bs" "x \<in> set (bs ! i)"
      using x by (auto simp: in_set_conv_nth [of _ bs])
    then show ?thesis using rest [of i x] by simp
  qed
  moreover have "distinct (concat bs)" using Cons.IH [of "Suc n"] Cons.prems(1) rest by simp
  ultimately show ?case using Cons.prems(1) [of b] by auto
qed simp

lemma dict_entries_slot:
  assumes "dict_wf d" and "i < 32" and "e \<in> set (ht_bucket (hmap d) ! i)"
  shows "hash_slot (hmap d) (hash_joaat_str_ci (fst e)) = i"
  using assms dict_wf_buckets(1) [OF assms(1)]
  by (auto simp: dict_wf_def hash_wf_def dict_key_def)

lemma dict_entries_distinct:
  assumes "dict_wf d"
  shows "distinct (map fst (dict_entries d))"
  unfolding dict_entries_def map_concat
proof (rule distinct_concat_tagged [where n = 0])
  fix b assume "b \<in> set (map (map fst) (ht_bucket (hmap d)))"
  then show "distinct b" using assms by (auto simp: dict_wf_def in_set_conv_nth)
next
  fix i x
  assume "i < length (map (map fst) (ht_bucket (hmap d)))"
    and "x \<in> set (map (map fst) (ht_bucket (hmap d)) ! i)"
  then show "hash_slot (hmap d) (hash_joaat_str_ci x) = i + 0"
    using dict_wf_buckets(1) [OF assms] dict_entries_slot [OF assms] by auto
qed

lemma dict_entries_dom:
  assumes "dict_wf d"
  shows "fst ` set (dict_entries d) = dom (dict_entry d)"
proof -
  let ?slot = "\<lambda>k. hash_slot (hmap d) (hash_joaat_str_ci k)"
  have "fst e \<in> fst ` set (ht_bucket (hmap d) ! ?slot (fst e))" if e: "e \<in> set (dict_entries d)" for e
  proof -
    obtain i where "i < 32" "e \<in> set (ht_bucket (hmap d) ! i)"
      using e dict_wf_buckets(1) [OF assms]
      by (auto simp: dict_entries_def in_set_conv_nth [of _ "ht_bucket (hmap d)"])
    then show ?thesis using dict_entries_slot [OF assms] by auto
  qed
  moreover have "set (ht_bucket (hmap d) ! ?slot k) \<subseteq> set (dict_entries d)" for k
    using nth_mem [OF hash_wf_slot [OF dict_wf_hash [OF assms]]] by (auto simp: dict_entries_def)
  ultimately have "k \<in> fst ` set (dict_entries d) \<longleftrightarrow>
      k \<in> fst ` set (ht_bucket (hmap d) ! ?slot k)" for k
    by blast
  then show ?thesis
    using entry_lookup_None [of d] by (auto simp: dict_entry_def dom_def)
qed

section \<open>Properties\<close>

fun dict_step :: "'v option store_op \<Rightarrow> 'v dict \<Rightarrow> 'v dict" where
  "dict_step (Store_add k v) d = snd (dict_add d (Some k) v)"
| "dict_step (Store_del k) d = dict_remove d (Some k)"

lemma dict_step_run:
  "dict_wf d \<Longrightarrow> dict_wf (run dict_step ops d) \<and>
     dict_entry (run dict_step ops d) = run map_op ops (dict_entry d)"
proof -
  assume wf: "dict_wf d"
  have step: "dict_step = (\<lambda>e. case e of Store_add k v \<Rightarrow> \<lambda>d. snd (dict_add d (Some k) v)
      | Store_del k \<Rightarrow> \<lambda>d. dict_remove d (Some k))"
    by (auto simp: fun_eq_iff split: store_op.split)
  have "dict_wf (run dict_step ops d)"
    using wf by (induction ops arbitrary: d) (auto simp: step dict_add_wf dict_remove_wf
        split: store_op.split)
  then show ?thesis using dict_store.look_run [OF wf, of ops] by (simp add: step)
qed

text \<open>
  C29. A dictionary is a finite map from strings to pointers: after any additions and removals a
  lookup returns what the map holds, an addition fails with \<^verbatim>\<open>EADDRINUSE\<close> exactly when the key is
  there, and the count is the number of keys. Keys differ when their spelling does, although they
  are hashed without regard to case.
\<close>

theorem dict_refines_map:
  assumes "dict_alloc = Inr d"
  shows "let d' = run dict_step ops d; m = run map_op ops Map.empty
    in dict_lookup (Some d') (Some k) = Option.bind (m k) id \<and>
       fst (dict_add d' (Some k) v) = (if m k = None then 0 else EADDRINUSE) \<and>
       dict_count (Some d') = of_nat (card (dom m))"
proof -
  let ?d = "run dict_step ops d" and ?m = "run map_op ops Map.empty :: string \<rightharpoonup> 'a option"
  have wf: "dict_wf ?d" and m: "dict_entry ?d = ?m"
    using dict_step_run [of d ops] dict_alloc_wf [OF assms] by auto
  have "card (dom ?m) = length (dict_entries ?d)"
    using dict_entries_dom [OF wf] distinct_card [OF dict_entries_distinct [OF wf]] m by simp
  moreover have "dict_lookup (Some ?d) (Some k) = Option.bind (dict_entry ?d k) id"
    by (simp add: dict_lookup_def dict_entry_def split: option.split)
  moreover have "fst (dict_add ?d (Some k) v) = (if dict_entry ?d k = None then 0 else EADDRINUSE)"
    by (simp add: dict_add_def dict_entry_def Let_def)
  ultimately show ?thesis using dict_count_entries [OF wf] m by (simp add: Let_def)
qed

theorem dict_refines_map_witness:
  "\<exists>d :: nat dict. dict_alloc = Inr d \<and>
     dict_lookup (Some (run dict_step [Store_add ''a'' (Some 1), Store_add ''A'' (Some 2)] d))
       (Some ''A'') = Some 2"
proof -
  obtain d :: "nat dict" where d: "dict_alloc = Inr d" using dict_alloc_ok by blast
  then show ?thesis
    using dict_refines_map [OF d, of "[Store_add ''a'' (Some 1), Store_add ''A'' (Some 2)]" "''A''"]
    by (auto simp: Let_def)
qed

end
