(* ===== verification/Mediamgr.thy ===== *)
theory Mediamgr
  imports Wcall Dict
begin

text \<open>
  The media manager, \<^verbatim>\<open>src/mediamgr/mediamgr.c\<close>: it follows the states of calls, decides where audio is
  played and which sounds may play, and tells its users when the media category changes. Its
  functions put messages into a queue that one thread reads. The audio functions of the platform,
  \<^verbatim>\<open>mm_platform.h\<close>, are a parameter; the platform without audio, \<^verbatim>\<open>mm_platform_dummy.c\<close>, is an instance.
\<close>

section \<open>State\<close>

datatype mediamgr_auplay =
    MEDIAMGR_AUPLAY_EARPIECE | MEDIAMGR_AUPLAY_SPEAKER | MEDIAMGR_AUPLAY_HEADSET | MEDIAMGR_AUPLAY_BT
  | MEDIAMGR_AUPLAY_LINEOUT | MEDIAMGR_AUPLAY_SPDIF | MEDIAMGR_AUPLAY_UNKNOWN

datatype mm_route_update_event =
    MM_HEADSET_PLUGGED | MM_HEADSET_UNPLUGGED | MM_BT_DEVICE_CONNECTED | MM_BT_DEVICE_DISCONNECTED
  | MM_SPEAKER_ENABLE_REQUEST | MM_SPEAKER_DISABLE_REQUEST | MM_CALL_START | MM_CALL_STOP
  | MM_VIDEO_CALL_START | MM_VIDEO_CALL_STOP

datatype mm_playback_mode = MM_PLAYBACK_NONE | MM_PLAYBACK_MIXING | MM_PLAYBACK_EXCLUSIVE

datatype mediamgr_sound_mode =
    MEDIAMGR_SOUND_MODE_ALL | MEDIAMGR_SOUND_MODE_SOME | MEDIAMGR_SOUND_MODE_NONE

record mm_route_state_machine =
  prefer_loudspeaker :: bool
  bt_device_is_connected :: bool
  wired_hs_is_connected :: bool
  cur_route :: mediamgr_auplay
  route_before_call :: mediamgr_auplay

record sound =
  snd_mixing :: bool
  snd_incall :: bool
  snd_intensity :: int
  snd_priority :: int
  snd_is_call_media :: bool
  snd_arg :: nat

text \<open>The messages of the queue, \<^verbatim>\<open>mm_marshal_id\<close> with its part of \<^verbatim>\<open>struct mm_message\<close>.\<close>

datatype mm_message =
    MM_MARSHAL_PLAY_MEDIA string
  | MM_MARSHAL_PAUSE_MEDIA string
  | MM_MARSHAL_STOP_MEDIA string
  | MM_MARSHAL_CALL_STATE mediamgr_state
  | MM_MARSHAL_ENABLE_SPEAKER bool
  | MM_MARSHAL_HEADSET_CONNECTED bool
  | MM_MARSHAL_BT_DEVICE_CONNECTED bool
  | MM_MARSHAL_REGISTER_MEDIA string nat bool bool int int bool
  | MM_MARSHAL_DEREGISTER_MEDIA string
  | MM_MARSHAL_SET_INTENSITY int
  | MM_MARSHAL_SET_USER_START_AUDIO bool

text \<open>\<^verbatim>\<open>mm_platform.h\<close> on a platform with state \<open>'p\<close>.\<close>

record 'p platform =
  pf_init :: "sound dict \<times> 'p \<Rightarrow> int \<times> sound dict \<times> 'p"
  pf_free :: "'p \<Rightarrow> 'p"
  pf_play_sound :: "sound \<Rightarrow> 'p \<Rightarrow> 'p"
  pf_pause_sound :: "sound \<Rightarrow> 'p \<Rightarrow> 'p"
  pf_stop_sound :: "sound \<Rightarrow> 'p \<Rightarrow> 'p"
  pf_is_sound_playing :: "sound \<Rightarrow> 'p \<Rightarrow> bool"
  pf_enable_speaker :: "'p \<Rightarrow> int \<times> 'p"
  pf_enable_bt_sco :: "'p \<Rightarrow> int \<times> 'p"
  pf_enable_earpiece :: "'p \<Rightarrow> int \<times> 'p"
  pf_enable_headset :: "'p \<Rightarrow> int \<times> 'p"
  pf_get_route :: "'p \<Rightarrow> mediamgr_auplay"
  pf_registerMedia :: "string \<Rightarrow> nat \<Rightarrow> bool \<Rightarrow> bool \<Rightarrow> int \<Rightarrow> int \<Rightarrow> bool \<Rightarrow> sound dict \<times> 'p \<Rightarrow> sound dict \<times> 'p"
  pf_unregisterMedia :: "string \<Rightarrow> sound dict \<times> 'p \<Rightarrow> sound dict \<times> 'p"
  pf_enter_call :: "'p \<Rightarrow> 'p"
  pf_exit_call :: "'p \<Rightarrow> 'p"
  pf_set_active :: "'p \<Rightarrow> 'p"

text \<open>What the users of the media manager are told; users are numbered.\<close>

datatype mm_out =
    Mm_route nat mediamgr_auplay
  | Mm_mcat nat mediamgr_state

text \<open>
  \<^verbatim>\<open>struct mm\<close>; \<open>mm_mml\<close> has for every user whether it set a route handler (its category handler always
  is set). The fields \<open>mm_plat\<close> and \<open>mm_out\<close> are the platform and the record of what was told.
\<close>

record 'p mm =
  mm_mq :: "mm_message mqueue"
  mm_sounds :: "sound dict"
  mm_prev_call_state :: mediamgr_state
  mm_call_state :: mediamgr_state
  mm_started :: bool
  mm_router :: mm_route_state_machine
  mm_intensity_thres :: int
  mm_user_starts_audio :: bool
  mm_mml :: "(nat \<times> bool) list"
  mm_plat :: 'p
  mm_out :: "mm_out list"

abbreviation mm_incall :: "'p mm \<Rightarrow> bool" where
  "mm_incall m \<equiv> mm_call_state m \<in> {MEDIAMGR_STATE_INCALL, MEDIAMGR_STATE_INVIDEOCALL}"

definition on_plat :: "('p \<Rightarrow> 'p) \<Rightarrow> 'p mm \<Rightarrow> 'p mm" where
  "on_plat f m = m\<lparr>mm_plat := f (mm_plat m)\<rparr>"

section \<open>Routes\<close>

text \<open>The route that is wanted after an event when \<open>cur\<close> is the route, and the new router.\<close>

definition device_route :: "mm_route_state_machine \<Rightarrow> mediamgr_auplay \<Rightarrow> mediamgr_auplay" where
  "device_route r other =
     (if wired_hs_is_connected r then MEDIAMGR_AUPLAY_HEADSET
      else if bt_device_is_connected r then MEDIAMGR_AUPLAY_BT
      else other)"

definition loud_route :: "mm_route_state_machine \<Rightarrow> mediamgr_auplay" where
  "loud_route r = (if prefer_loudspeaker r then MEDIAMGR_AUPLAY_SPEAKER else MEDIAMGR_AUPLAY_EARPIECE)"

definition route_event ::
  "mediamgr_state \<Rightarrow> mediamgr_auplay \<Rightarrow> mm_route_update_event \<Rightarrow> mm_route_state_machine \<Rightarrow>
     mediamgr_auplay \<times> mm_route_state_machine" where
  "route_event st cur ev r =
     (case ev of
        MM_HEADSET_PLUGGED \<Rightarrow>
          (MEDIAMGR_AUPLAY_HEADSET, r\<lparr>wired_hs_is_connected := True, prefer_loudspeaker := False\<rparr>)
      | MM_HEADSET_UNPLUGGED \<Rightarrow>
          let r = (if st = MEDIAMGR_STATE_INVIDEOCALL then r\<lparr>prefer_loudspeaker := True\<rparr> else r)
          in (if cur = MEDIAMGR_AUPLAY_SPEAKER then MEDIAMGR_AUPLAY_SPEAKER
              else if bt_device_is_connected r then MEDIAMGR_AUPLAY_BT
              else loud_route r,
              r\<lparr>wired_hs_is_connected := False\<rparr>)
      | MM_BT_DEVICE_CONNECTED \<Rightarrow>
          (if st \<in> {MEDIAMGR_STATE_INCALL, MEDIAMGR_STATE_INVIDEOCALL} then MEDIAMGR_AUPLAY_BT else cur,
           r\<lparr>bt_device_is_connected := True\<rparr>)
      | MM_BT_DEVICE_DISCONNECTED \<Rightarrow>
          (if wired_hs_is_connected r then MEDIAMGR_AUPLAY_HEADSET else loud_route r,
           r\<lparr>bt_device_is_connected := False\<rparr>)
      | MM_SPEAKER_ENABLE_REQUEST \<Rightarrow> (MEDIAMGR_AUPLAY_SPEAKER, r\<lparr>prefer_loudspeaker := True\<rparr>)
      | MM_SPEAKER_DISABLE_REQUEST \<Rightarrow>
          (device_route r MEDIAMGR_AUPLAY_EARPIECE, r\<lparr>prefer_loudspeaker := False\<rparr>)
      | MM_CALL_START \<Rightarrow> (device_route r (loud_route r), r\<lparr>route_before_call := cur\<rparr>)
      | MM_VIDEO_CALL_START \<Rightarrow>
          (device_route r MEDIAMGR_AUPLAY_SPEAKER,
           r\<lparr>route_before_call := cur, prefer_loudspeaker := True\<rparr>)
      | MM_CALL_STOP \<Rightarrow> (MEDIAMGR_AUPLAY_EARPIECE, r\<lparr>prefer_loudspeaker := False\<rparr>)
      | MM_VIDEO_CALL_STOP \<Rightarrow> (MEDIAMGR_AUPLAY_EARPIECE, r\<lparr>prefer_loudspeaker := False\<rparr>))"

definition enable_route :: "'p platform \<Rightarrow> mediamgr_auplay \<Rightarrow> 'p \<Rightarrow> int \<times> 'p" where
  "enable_route F route p =
     (case route of
        MEDIAMGR_AUPLAY_HEADSET \<Rightarrow> pf_enable_headset F p
      | MEDIAMGR_AUPLAY_EARPIECE \<Rightarrow> pf_enable_earpiece F p
      | MEDIAMGR_AUPLAY_SPEAKER \<Rightarrow> pf_enable_speaker F p
      | MEDIAMGR_AUPLAY_BT \<Rightarrow> pf_enable_bt_sco F p
      | _ \<Rightarrow> (0, p))"

definition update_route :: "'p platform \<Rightarrow> mm_route_update_event \<Rightarrow> 'p mm \<Rightarrow> 'p mm" where
  "update_route F event m =
     (let cur = pf_get_route F (mm_plat m);
          (wanted, r) = route_event (mm_call_state m) cur event (mm_router m);
          (ret, p) = (if wanted \<noteq> cur then enable_route F wanted (mm_plat m) else (0, mm_plat m));
          m = m\<lparr>mm_router := r, mm_plat := p\<rparr>;
          cur = pf_get_route F p;
          cur = (if wanted \<noteq> cur \<and> ret \<ge> 0 \<and> \<not> mm_incall m then wanted else cur)
      in m\<lparr>mm_out := mm_out m @ map (\<lambda>(i, h). Mm_route i cur) (filter snd (mm_mml m))\<rparr>)"

section \<open>Sounds\<close>

text \<open>\<^verbatim>\<open>dict_apply\<close> with a handler that works on the platform and never stops.\<close>

definition each_sound :: "(sound \<Rightarrow> 'p mm \<Rightarrow> 'p mm) \<Rightarrow> 'p mm \<Rightarrow> 'p mm" where
  "each_sound f m =
     fold (\<lambda>(key, val) m. case val of None \<Rightarrow> m | Some sd \<Rightarrow> f sd m) (dict_entries (mm_sounds m)) m"

definition stop_playing_during_call :: "'p platform \<Rightarrow> sound \<Rightarrow> 'p mm \<Rightarrow> 'p mm" where
  "stop_playing_during_call F sd m =
     (if \<not> snd_incall sd \<and> pf_is_sound_playing F sd (mm_plat m)
      then on_plat (pf_stop_sound F sd) m else m)"

definition mediamgr_enter_call :: "'p platform \<Rightarrow> 'p mm \<Rightarrow> 'p mm" where
  "mediamgr_enter_call F m = on_plat (pf_enter_call F) (each_sound (stop_playing_during_call F) m)"

definition mediamgr_exit_call :: "'p platform \<Rightarrow> 'p mm \<Rightarrow> 'p mm" where
  "mediamgr_exit_call F m = on_plat (pf_exit_call F) m"

text \<open>\<^verbatim>\<open>check_play_mode\<close> stops at the first sound that plays and does not mix.\<close>

fun check_play_mode ::
  "'p platform \<Rightarrow> 'p \<Rightarrow> (string \<times> sound option) list \<Rightarrow> mm_playback_mode \<Rightarrow> mm_playback_mode" where
  "check_play_mode F p [] mode = mode"
| "check_play_mode F p ((key, None) # es) mode = check_play_mode F p es mode"
| "check_play_mode F p ((key, Some sd) # es) mode =
     (if pf_is_sound_playing F sd p then
        if snd_mixing sd then check_play_mode F p es MM_PLAYBACK_MIXING else MM_PLAYBACK_EXCLUSIVE
      else check_play_mode F p es mode)"

definition stop_play :: "'p platform \<Rightarrow> sound \<Rightarrow> 'p mm \<Rightarrow> 'p mm" where
  "stop_play F sd m =
     (if pf_is_sound_playing F sd (mm_plat m) then on_plat (pf_stop_sound F sd) m else m)"

definition mediamgr_can_play_sound :: "'p platform \<Rightarrow> sound \<Rightarrow> 'p mm \<Rightarrow> bool" where
  "mediamgr_can_play_sound F to_play m =
     (if snd_intensity to_play > mm_intensity_thres m then False
      else if \<not> snd_incall to_play \<and> mm_incall m then False
      else if snd_priority to_play > 0 then True
      else case check_play_mode F (mm_plat m) (dict_entries (mm_sounds m)) MM_PLAYBACK_NONE of
             MM_PLAYBACK_NONE \<Rightarrow> True
           | MM_PLAYBACK_EXCLUSIVE \<Rightarrow> False
           | MM_PLAYBACK_MIXING \<Rightarrow> snd_mixing to_play)"

section \<open>The handler of the queue\<close>

text \<open>
  What a message does to the state of the call: the new states \<^verbatim>\<open>call_state\<close> and \<^verbatim>\<open>prev_call_state\<close>, and
  what else is to be done: work on the platform before the route is updated, the event for the
  route, and whether the users are told in any case.
\<close>

datatype mm_work = Mm_none | Mm_enter | Mm_exit | Mm_active

definition call_state_step ::
  "bool \<Rightarrow> mediamgr_state \<Rightarrow> mediamgr_state \<Rightarrow> mediamgr_state \<Rightarrow>
     mediamgr_state \<times> mediamgr_state \<times> mm_work \<times> mm_route_update_event option \<times> bool" where
  "call_state_step user_starts_audio prev cur st =
     (case st of
        MEDIAMGR_STATE_SETUP_AUDIO_PERMISSIONS \<Rightarrow>
          (if user_starts_audio then MEDIAMGR_STATE_SETUP_AUDIO_PERMISSIONS
           else MEDIAMGR_STATE_AUDIO_PERMISSIONS_READY, prev, Mm_enter, None, False)
      | MEDIAMGR_STATE_AUDIO_PERMISSIONS_READY \<Rightarrow>
          (case cur of
             MEDIAMGR_STATE_SETUP_AUDIO_PERMISSIONS \<Rightarrow> MEDIAMGR_STATE_AUDIO_PERMISSIONS_READY
           | MEDIAMGR_STATE_CALL_ESTABLISHED \<Rightarrow> MEDIAMGR_STATE_INCALL
           | MEDIAMGR_STATE_VIDEOCALL_ESTABLISHED \<Rightarrow> MEDIAMGR_STATE_INVIDEOCALL
           | _ \<Rightarrow> cur, prev, Mm_none, None, False)
      | MEDIAMGR_STATE_CALL_ESTABLISHED \<Rightarrow>
          if cur = MEDIAMGR_STATE_AUDIO_PERMISSIONS_READY
          then (MEDIAMGR_STATE_INCALL, prev, Mm_none, Some MM_CALL_START, False)
          else if cur = MEDIAMGR_STATE_INCALL \<or> cur = MEDIAMGR_STATE_INVIDEOCALL
          then (MEDIAMGR_STATE_INCALL, prev, Mm_none, Some MM_CALL_START, True)
          else (MEDIAMGR_STATE_CALL_ESTABLISHED, prev, Mm_active, Some MM_CALL_START, False)
      | MEDIAMGR_STATE_VIDEOCALL_ESTABLISHED \<Rightarrow>
          if cur = MEDIAMGR_STATE_AUDIO_PERMISSIONS_READY
          then (MEDIAMGR_STATE_INVIDEOCALL, prev, Mm_none, Some MM_VIDEO_CALL_START, False)
          else if cur = MEDIAMGR_STATE_INCALL
          then (MEDIAMGR_STATE_INVIDEOCALL, prev, Mm_none, Some MM_VIDEO_CALL_START, False)
          else if cur = MEDIAMGR_STATE_INVIDEOCALL
          then (MEDIAMGR_STATE_INVIDEOCALL, prev, Mm_none, Some MM_VIDEO_CALL_START, True)
          else (MEDIAMGR_STATE_VIDEOCALL_ESTABLISHED, prev, Mm_active, Some MM_VIDEO_CALL_START, False)
      | MEDIAMGR_STATE_INCALL \<Rightarrow>
          if cur = MEDIAMGR_STATE_AUDIO_PERMISSIONS_READY
          then (MEDIAMGR_STATE_INCALL, prev, Mm_none, Some MM_CALL_START, False)
          else if cur = MEDIAMGR_STATE_NORMAL
          then (MEDIAMGR_STATE_INCALL, prev, Mm_enter, Some MM_CALL_START, False)
          else (cur, prev, Mm_none, Some MM_CALL_START, False)
      | MEDIAMGR_STATE_INVIDEOCALL \<Rightarrow>
          if cur = MEDIAMGR_STATE_AUDIO_PERMISSIONS_READY
          then (MEDIAMGR_STATE_INVIDEOCALL, prev, Mm_none, Some MM_VIDEO_CALL_START, False)
          else if cur = MEDIAMGR_STATE_NORMAL
          then (MEDIAMGR_STATE_INVIDEOCALL, prev, Mm_enter, Some MM_VIDEO_CALL_START, False)
          else if cur = MEDIAMGR_STATE_INCALL
          then (MEDIAMGR_STATE_INVIDEOCALL, prev, Mm_none, Some MM_VIDEO_CALL_START, False)
          else (cur, prev, Mm_none, Some MM_VIDEO_CALL_START, False)
      | MEDIAMGR_STATE_ROAMING \<Rightarrow>
          (if cur = MEDIAMGR_STATE_INCALL \<or> cur = MEDIAMGR_STATE_INVIDEOCALL
           then MEDIAMGR_STATE_AUDIO_PERMISSIONS_READY else cur, prev, Mm_none, None, False)
      | MEDIAMGR_STATE_NORMAL \<Rightarrow> (MEDIAMGR_STATE_NORMAL, prev, Mm_exit, Some MM_CALL_STOP, True)
      | MEDIAMGR_STATE_HOLD \<Rightarrow>
          if cur = MEDIAMGR_STATE_INCALL \<or> cur = MEDIAMGR_STATE_INVIDEOCALL
          then (MEDIAMGR_STATE_HOLD, cur, Mm_none, Some MM_CALL_STOP, True)
          else (cur, prev, Mm_none, None, False)
      | MEDIAMGR_STATE_RESUME \<Rightarrow>
          if cur = MEDIAMGR_STATE_HOLD then (prev, prev, Mm_enter, Some MM_CALL_START, True)
          else (cur, prev, Mm_none, None, False))"

definition mm_call_state_handler :: "'p platform \<Rightarrow> mediamgr_state \<Rightarrow> 'p mm \<Rightarrow> 'p mm" where
  "mm_call_state_handler F st m =
     (let old_state = mm_call_state m;
          (cur, prev, work, event, fire_callback) =
            call_state_step (mm_user_starts_audio m) (mm_prev_call_state m) (mm_call_state m) st;
          m = m\<lparr>mm_call_state := cur, mm_prev_call_state := prev\<rparr>;
          m = (case work of
                 Mm_none \<Rightarrow> m
               | Mm_enter \<Rightarrow> mediamgr_enter_call F m
               | Mm_exit \<Rightarrow> mediamgr_exit_call F m
               | Mm_active \<Rightarrow> on_plat (pf_set_active F) m);
          m = (case event of None \<Rightarrow> m | Some ev \<Rightarrow> update_route F ev m)
      in if fire_callback \<or> old_state \<noteq> mm_call_state m
         then m\<lparr>mm_out := mm_out m @ map (\<lambda>(i, h). Mm_mcat i (mm_call_state m)) (mm_mml m)\<rparr>
         else m)"

fun mm_mqueue_handler :: "'p platform \<Rightarrow> mm_message \<Rightarrow> 'p mm \<Rightarrow> 'p mm" where
  "mm_mqueue_handler F (MM_MARSHAL_PLAY_MEDIA mname) m =
     (case dict_lookup (Some (mm_sounds m)) (Some mname) of
        None \<Rightarrow> m
      | Some curr_sound \<Rightarrow>
          if mediamgr_can_play_sound F curr_sound m then
            let m = (if snd_priority curr_sound > 0 then each_sound (stop_play F) m else m);
                m = (if snd_is_call_media curr_sound \<and> \<not> mm_incall m
                     then update_route F MM_CALL_START (on_plat (pf_enter_call F) m) else m)
            in on_plat (pf_play_sound F curr_sound) m
          else m)"
| "mm_mqueue_handler F (MM_MARSHAL_PAUSE_MEDIA mname) m =
     (case dict_lookup (Some (mm_sounds m)) (Some mname) of
        None \<Rightarrow> m
      | Some curr_sound \<Rightarrow> on_plat (pf_pause_sound F curr_sound) m)"
| "mm_mqueue_handler F (MM_MARSHAL_STOP_MEDIA mname) m =
     (case dict_lookup (Some (mm_sounds m)) (Some mname) of
        None \<Rightarrow> m
      | Some curr_sound \<Rightarrow>
          let m = on_plat (pf_stop_sound F curr_sound) m
          in if snd_is_call_media curr_sound \<and> mm_call_state m = MEDIAMGR_STATE_NORMAL
             then update_route F MM_CALL_STOP (on_plat (pf_exit_call F) m) else m)"
| "mm_mqueue_handler F (MM_MARSHAL_CALL_STATE st) m = mm_call_state_handler F st m"
| "mm_mqueue_handler F (MM_MARSHAL_ENABLE_SPEAKER enable) m =
     update_route F (if enable then MM_SPEAKER_ENABLE_REQUEST else MM_SPEAKER_DISABLE_REQUEST) m"
| "mm_mqueue_handler F (MM_MARSHAL_HEADSET_CONNECTED conn) m =
     update_route F (if conn then MM_HEADSET_PLUGGED else MM_HEADSET_UNPLUGGED) m"
| "mm_mqueue_handler F (MM_MARSHAL_BT_DEVICE_CONNECTED conn) m =
     update_route F (if conn then MM_BT_DEVICE_CONNECTED else MM_BT_DEVICE_DISCONNECTED) m"
| "mm_mqueue_handler F (MM_MARSHAL_REGISTER_MEDIA mname mobject mixing incall intensity priority is_call_media) m =
     (let (sounds, p) = pf_registerMedia F mname mobject mixing incall intensity priority is_call_media
                          (mm_sounds m, mm_plat m)
      in m\<lparr>mm_sounds := sounds, mm_plat := p\<rparr>)"
| "mm_mqueue_handler F (MM_MARSHAL_DEREGISTER_MEDIA mname) m =
     (let (sounds, p) = pf_unregisterMedia F mname (mm_sounds m, mm_plat m)
      in m\<lparr>mm_sounds := sounds, mm_plat := p\<rparr>)"
| "mm_mqueue_handler F (MM_MARSHAL_SET_INTENSITY intensity) m = m\<lparr>mm_intensity_thres := intensity\<rparr>"
| "mm_mqueue_handler F (MM_MARSHAL_SET_USER_START_AUDIO enable) m = m\<lparr>mm_user_starts_audio := enable\<rparr>"

section \<open>The functions of the interface\<close>

text \<open>
  The media manager exists while it has users: \<open>sy_mm\<close> is \<^verbatim>\<open>g_mm\<close>, with the platform when there is none.
  \<open>sy_nmgr\<close> numbers the users.
\<close>

record 'p mmsys =
  sy_mm :: "'p mm option"
  sy_plat :: 'p
  sy_nmgr :: nat

definition mm_alloc :: "'p platform \<Rightarrow> 'p \<Rightarrow> 'p mm" where
  "mm_alloc F p =
     (let sounds = (case dict_alloc of Inr d \<Rightarrow> d);
          (err, sounds, p) = pf_init F (sounds, p)
      in \<lparr>mm_mq = mqueue_alloc, mm_sounds = sounds, mm_prev_call_state = MEDIAMGR_STATE_NORMAL,
          mm_call_state = MEDIAMGR_STATE_NORMAL, mm_started = (err = 0),
          mm_router = \<lparr>prefer_loudspeaker = False, bt_device_is_connected = False,
                       wired_hs_is_connected = False, cur_route = MEDIAMGR_AUPLAY_UNKNOWN,
                       route_before_call = MEDIAMGR_AUPLAY_EARPIECE\<rparr>,
          mm_intensity_thres = 100, mm_user_starts_audio = False, mm_mml = [], mm_plat = p,
          mm_out = []\<rparr>)"

text \<open>A new user, numbered \<open>sy_nmgr\<close>.\<close>

definition mediamgr_alloc :: "'p platform \<Rightarrow> 'p mmsys \<Rightarrow> 'p mmsys" where
  "mediamgr_alloc F s =
     (let m = (case sy_mm s of Some m \<Rightarrow> m | None \<Rightarrow> mm_alloc F (sy_plat s))
      in s\<lparr>sy_mm := Some (m\<lparr>mm_mml := mm_mml m @ [(sy_nmgr s, False)]\<rparr>), sy_nmgr := Suc (sy_nmgr s)\<rparr>)"

text \<open>The last user goes: the thread works off the queue before it exits.\<close>

definition mm_destructor :: "'p platform \<Rightarrow> 'p mm \<Rightarrow> 'p" where
  "mm_destructor F m =
     pf_free F (mm_plat (if mm_started m then fold (mm_mqueue_handler F) (mq_msgs (mm_mq m)) m else m))"

definition mediamgr_destructor :: "'p platform \<Rightarrow> nat \<Rightarrow> 'p mmsys \<Rightarrow> 'p mmsys" where
  "mediamgr_destructor F i s =
     (case sy_mm s of
        None \<Rightarrow> s
      | Some m \<Rightarrow>
          if i \<in> fst ` set (mm_mml m) then
            let m = m\<lparr>mm_mml := filter (\<lambda>(j, h). j \<noteq> i) (mm_mml m)\<rparr>
            in if mm_mml m = [] then s\<lparr>sy_mm := None, sy_plat := mm_destructor F m\<rparr>
               else s\<lparr>sy_mm := Some m\<rparr>
          else s)"

text \<open>A user puts a message into the queue.\<close>

definition mm_post :: "nat option \<Rightarrow> mm_message \<Rightarrow> 'p mmsys \<Rightarrow> 'p mmsys" where
  "mm_post mediamgr msg s =
     (case (mediamgr, sy_mm s) of
        (Some i, Some m) \<Rightarrow> s\<lparr>sy_mm := Some (m\<lparr>mm_mq := snd (mqueue_push msg (mm_mq m))\<rparr>)\<rparr>
      | _ \<Rightarrow> s)"

text \<open>Names are cut to the 127 characters that fit into a message.\<close>

definition mediamgr_play_media :: "nat option \<Rightarrow> string \<Rightarrow> 'p mmsys \<Rightarrow> 'p mmsys" where
  "mediamgr_play_media mgr media_name = mm_post mgr (MM_MARSHAL_PLAY_MEDIA (take 127 media_name))"

definition mediamgr_pause_media :: "nat option \<Rightarrow> string \<Rightarrow> 'p mmsys \<Rightarrow> 'p mmsys" where
  "mediamgr_pause_media mgr media_name = mm_post mgr (MM_MARSHAL_PAUSE_MEDIA (take 127 media_name))"

definition mediamgr_stop_media :: "nat option \<Rightarrow> string \<Rightarrow> 'p mmsys \<Rightarrow> 'p mmsys" where
  "mediamgr_stop_media mgr media_name = mm_post mgr (MM_MARSHAL_STOP_MEDIA (take 127 media_name))"

definition mm_set_call_state :: "nat option \<Rightarrow> mediamgr_state \<Rightarrow> 'p mmsys \<Rightarrow> 'p mmsys" where
  "mm_set_call_state mgr st = mm_post mgr (MM_MARSHAL_CALL_STATE st)"

definition mediamgr_register_route_change_h :: "nat option \<Rightarrow> bool \<Rightarrow> 'p mmsys \<Rightarrow> 'p mmsys" where
  "mediamgr_register_route_change_h mgr h s =
     (case (mgr, sy_mm s) of
        (Some i, Some m) \<Rightarrow>
          s\<lparr>sy_mm := Some (m\<lparr>mm_mml := map (\<lambda>(j, g). (j, if j = i then h else g)) (mm_mml m)\<rparr>)\<rparr>
      | _ \<Rightarrow> s)"

definition mediamgr_enable_speaker :: "nat option \<Rightarrow> bool \<Rightarrow> 'p mmsys \<Rightarrow> 'p mmsys" where
  "mediamgr_enable_speaker mgr enable = mm_post mgr (MM_MARSHAL_ENABLE_SPEAKER enable)"

definition mediamgr_register_media ::
  "nat option \<Rightarrow> string \<Rightarrow> nat \<Rightarrow> bool \<Rightarrow> bool \<Rightarrow> int \<Rightarrow> int \<Rightarrow> bool \<Rightarrow> 'p mmsys \<Rightarrow> 'p mmsys" where
  "mediamgr_register_media mgr media_name media_object mixing incall intensity priority is_call_media =
     mm_post mgr (MM_MARSHAL_REGISTER_MEDIA (take 127 media_name) media_object mixing incall intensity
                    priority is_call_media)"

definition mediamgr_unregister_media :: "nat option \<Rightarrow> string \<Rightarrow> 'p mmsys \<Rightarrow> 'p mmsys" where
  "mediamgr_unregister_media mgr media_name =
     mm_post mgr (MM_MARSHAL_DEREGISTER_MEDIA (take 127 media_name))"

definition mediamgr_set_sound_mode :: "nat option \<Rightarrow> mediamgr_sound_mode \<Rightarrow> 'p mmsys \<Rightarrow> 'p mmsys" where
  "mediamgr_set_sound_mode mgr mode =
     mm_post mgr (MM_MARSHAL_SET_INTENSITY
       (case mode of
          MEDIAMGR_SOUND_MODE_ALL \<Rightarrow> 100 | MEDIAMGR_SOUND_MODE_SOME \<Rightarrow> 50 | MEDIAMGR_SOUND_MODE_NONE \<Rightarrow> 0))"

definition mediamgr_set_user_starts_audio :: "nat option \<Rightarrow> bool \<Rightarrow> 'p mmsys \<Rightarrow> 'p mmsys" where
  "mediamgr_set_user_starts_audio mgr enable = mm_post mgr (MM_MARSHAL_SET_USER_START_AUDIO enable)"

text \<open>The platform reports its devices.\<close>

definition mediamgr_headset_connected :: "bool \<Rightarrow> 'p mmsys \<Rightarrow> 'p mmsys" where
  "mediamgr_headset_connected conn = mm_post (Some 0) (MM_MARSHAL_HEADSET_CONNECTED conn)"

definition mediamgr_bt_device_connected :: "bool \<Rightarrow> 'p mmsys \<Rightarrow> 'p mmsys" where
  "mediamgr_bt_device_connected conn = mm_post (Some 0) (MM_MARSHAL_BT_DEVICE_CONNECTED conn)"

text \<open>The thread takes the next message.\<close>

definition mm_dispatch :: "'p platform \<Rightarrow> 'p mmsys \<Rightarrow> 'p mmsys" where
  "mm_dispatch F s =
     (case sy_mm s of
        None \<Rightarrow> s
      | Some m \<Rightarrow>
          (case mqueue_read (mm_mq m) of
             Some (msg, mq) \<Rightarrow>
               if mm_started m then s\<lparr>sy_mm := Some (mm_mqueue_handler F msg (m\<lparr>mm_mq := mq\<rparr>))\<rparr> else s
           | None \<Rightarrow> s))"

section \<open>The platform without audio\<close>

definition mm_platform_registerMedia ::
  "string \<Rightarrow> nat \<Rightarrow> bool \<Rightarrow> bool \<Rightarrow> int \<Rightarrow> int \<Rightarrow> bool \<Rightarrow> sound dict \<Rightarrow> sound dict" where
  "mm_platform_registerMedia name mediaObj mixing incall intensity priority is_call_media sounds =
     snd (dict_add sounds (Some name)
       (Some \<lparr>snd_mixing = mixing, snd_incall = incall, snd_intensity = intensity,
              snd_priority = priority, snd_is_call_media = is_call_media, snd_arg = mediaObj\<rparr>))"

definition mm_platform_unregisterMedia :: "string \<Rightarrow> sound dict \<Rightarrow> sound dict" where
  "mm_platform_unregisterMedia name sounds = dict_remove sounds (Some name)"

definition dummy_platform :: "mediamgr_auplay platform" where
  "dummy_platform =
     \<lparr>pf_init = (\<lambda>(sounds, p). (0, sounds, p)), pf_free = (\<lambda>p. p), pf_play_sound = (\<lambda>sd p. p),
      pf_pause_sound = (\<lambda>sd p. p), pf_stop_sound = (\<lambda>sd p. p), pf_is_sound_playing = (\<lambda>sd p. False),
      pf_enable_speaker = (\<lambda>p. (0, MEDIAMGR_AUPLAY_SPEAKER)),
      pf_enable_bt_sco = (\<lambda>p. (0, MEDIAMGR_AUPLAY_BT)),
      pf_enable_earpiece = (\<lambda>p. (0, MEDIAMGR_AUPLAY_EARPIECE)),
      pf_enable_headset = (\<lambda>p. (0, MEDIAMGR_AUPLAY_HEADSET)), pf_get_route = (\<lambda>p. p),
      pf_registerMedia = (\<lambda>n obj mi inc it pr cm (sounds, p).
        (mm_platform_registerMedia n obj mi inc it pr cm sounds, p)),
      pf_unregisterMedia = (\<lambda>n (sounds, p). (mm_platform_unregisterMedia n sounds, p)),
      pf_enter_call = (\<lambda>p. p), pf_exit_call = (\<lambda>p. p), pf_set_active = (\<lambda>p. p)\<rparr>"

section \<open>The media manager as an event system\<close>

text \<open>A user comes or goes or sets its route handler, anyone posts a message, or the thread takes one.\<close>

datatype mm_event =
    M_alloc
  | M_free nat
  | M_route_h nat bool
  | M_post mm_message
  | M_dispatch

fun mm_step :: "'p platform \<Rightarrow> mm_event \<Rightarrow> 'p mmsys \<Rightarrow> 'p mmsys" where
  "mm_step F M_alloc s = mediamgr_alloc F s"
| "mm_step F (M_free i) s = mediamgr_destructor F i s"
| "mm_step F (M_route_h i h) s = mediamgr_register_route_change_h (Some i) h s"
| "mm_step F (M_post msg) s = mm_post (Some 0) msg s"
| "mm_step F M_dispatch s = mm_dispatch F s"

definition mmsys0 :: "'p \<Rightarrow> 'p mmsys" where
  "mmsys0 p = \<lparr>sy_mm = None, sy_plat = p, sy_nmgr = 0\<rparr>"

end
