(* ===== verification/Mediamgr_Correct.thy ===== *)
theory Mediamgr_Correct
  imports Mediamgr
begin

text \<open>
  The states of the media manager, what its users know, and the routes of audio on a platform that
  does what it is asked to.
\<close>

section \<open>What a message changes\<close>

text \<open>Work on the platform and on the route leaves the rest alone and tells about routes only.\<close>

definition is_route :: "mm_out \<Rightarrow> bool" where
  "is_route x = (case x of Mm_route i r \<Rightarrow> True | Mm_mcat i st \<Rightarrow> False)"

definition mm_same :: "'p mm \<Rightarrow> 'p mm \<Rightarrow> bool" where
  "mm_same m m' \<longleftrightarrow>
     m' = m\<lparr>mm_router := mm_router m', mm_plat := mm_plat m', mm_out := mm_out m'\<rparr> \<and>
     (\<exists>xs. mm_out m' = mm_out m @ xs \<and> list_all is_route xs)"

lemma mm_same_refl [simp]: "mm_same m m"
  by (simp add: mm_same_def)

lemma mm_same_trans [trans]: "mm_same m m' \<Longrightarrow> mm_same m' m'' \<Longrightarrow> mm_same m m''"
  by (cases m; cases m'; cases m'') (auto simp: mm_same_def)

lemma mm_sameD:
  assumes "mm_same m m'"
  shows "mm_call_state m' = mm_call_state m" "mm_prev_call_state m' = mm_prev_call_state m"
    "mm_user_starts_audio m' = mm_user_starts_audio m" "mm_mml m' = mm_mml m" "mm_mq m' = mm_mq m"
    "mm_started m' = mm_started m" "mm_sounds m' = mm_sounds m"
  using assms by (cases m; cases m'; simp add: mm_same_def)+

lemma on_plat_same [simp]: "mm_same m (on_plat f m)"
  by (simp add: mm_same_def on_plat_def)

lemma each_sound_same:
  assumes "\<And>sd m. mm_same m (f sd m)"
  shows "mm_same m (each_sound f m)"
proof -
  have "mm_same m (fold (\<lambda>(key, val) m. case val of None \<Rightarrow> m | Some sd \<Rightarrow> f sd m) es m)" for es
  proof (induction es arbitrary: m)
    case (Cons e es)
    show ?case
      using Cons.IH mm_same_trans [OF assms Cons.IH] by (cases e; cases "snd e") simp_all
  qed simp
  then show ?thesis by (simp add: each_sound_def)
qed

lemma update_route_same: "mm_same m (update_route F ev m)"
  by (cases m) (auto simp: update_route_def mm_same_def Let_def is_route_def list_all_iff split: prod.split)

lemma enter_call_same: "mm_same m (mediamgr_enter_call F m)"
  unfolding mediamgr_enter_call_def
  by (rule mm_same_trans [OF each_sound_same on_plat_same]) (simp add: stop_playing_during_call_def)

lemma route_same: "mm_same m (update_route F ev (on_plat f m))"
  by (rule mm_same_trans [OF on_plat_same update_route_same])

lemmas plat_same = on_plat_same update_route_same enter_call_same

definition mm_work_done :: "'p platform \<Rightarrow> mm_work \<Rightarrow> mm_route_update_event option \<Rightarrow> 'p mm \<Rightarrow> 'p mm" where
  "mm_work_done F work event m =
     (let m = (case work of
                 Mm_none \<Rightarrow> m
               | Mm_enter \<Rightarrow> mediamgr_enter_call F m
               | Mm_exit \<Rightarrow> mediamgr_exit_call F m
               | Mm_active \<Rightarrow> on_plat (pf_set_active F) m)
      in case event of None \<Rightarrow> m | Some ev \<Rightarrow> update_route F ev m)"

lemma work_done_same: "mm_same m (mm_work_done F work event m)"
  by (auto simp: mm_work_done_def Let_def mediamgr_exit_call_def plat_same
      intro: mm_same_trans [OF _ update_route_same] split: mm_work.split option.split)

lemma call_state_handler_eq:
  fixes F :: "'p platform"
  assumes "call_state_step (mm_user_starts_audio m) (mm_prev_call_state m) (mm_call_state m) st =
    (cur, prev, work, event, fire)"
  defines "m' \<equiv> mm_work_done F work event (m\<lparr>mm_call_state := cur, mm_prev_call_state := prev\<rparr>)"
  shows "mm_call_state_handler F st m =
    (if fire \<or> mm_call_state m \<noteq> cur then m'\<lparr>mm_out := mm_out m' @ map (\<lambda>(i, h). Mm_mcat i cur) (mm_mml m)\<rparr> else m')"
proof -
  have "mm_call_state m' = cur" "mm_mml m' = mm_mml m"
    using mm_sameD [OF work_done_same, of F work event "m\<lparr>mm_call_state := cur, mm_prev_call_state := prev\<rparr>"]
    by (simp_all add: m'_def)
  then show ?thesis
    using assms(1) unfolding mm_call_state_handler_def m'_def mm_work_done_def Let_def by simp
qed

text \<open>What the other messages leave alone.\<close>

definition mm_keep :: "'p mm \<Rightarrow> 'p mm \<Rightarrow> bool" where
  "mm_keep m m' \<longleftrightarrow>
     mm_call_state m' = mm_call_state m \<and> mm_prev_call_state m' = mm_prev_call_state m \<and>
     mm_mml m' = mm_mml m \<and> mm_mq m' = mm_mq m \<and> mm_started m' = mm_started m \<and>
     (\<exists>xs. mm_out m' = mm_out m @ xs \<and> list_all is_route xs)"

lemma mm_same_keep: "mm_same m m' \<Longrightarrow> mm_keep m m'"
  using mm_sameD [of m m'] unfolding mm_keep_def mm_same_def by blast

lemma stop_play_same: "mm_same m (stop_play F sd m)"
  by (simp add: stop_play_def)

lemma play_same: "mm_same m (mm_mqueue_handler F (MM_MARSHAL_PLAY_MEDIA n) m)"
proof (cases "dict_lookup (Some (mm_sounds m)) (Some n)")
  case (Some sd)
  define m1 where "m1 = (if snd_priority sd > 0 then each_sound (stop_play F) m else m)"
  define m2 where "m2 = (if snd_is_call_media sd \<and> \<not> mm_incall m1
    then update_route F MM_CALL_START (on_plat (pf_enter_call F) m1) else m1)"
  have "mm_same m m1"
    by (simp add: m1_def each_sound_same stop_play_same)
  also have "mm_same m1 m2"
    by (simp add: m2_def route_same)
  also have "mm_same m2 (on_plat (pf_play_sound F sd) m2)" by simp
  finally have "mm_same m (on_plat (pf_play_sound F sd) m2)" .
  moreover have "mm_mqueue_handler F (MM_MARSHAL_PLAY_MEDIA n) m =
      (if mediamgr_can_play_sound F sd m then on_plat (pf_play_sound F sd) m2 else m)"
    by (simp only: mm_mqueue_handler.simps Let_def Some option.case m2_def m1_def)
  ultimately show ?thesis by (metis mm_same_refl)
qed simp

lemma stop_same: "mm_same m (mm_mqueue_handler F (MM_MARSHAL_STOP_MEDIA n) m)"
proof (cases "dict_lookup (Some (mm_sounds m)) (Some n)")
  case (Some sd)
  let ?m = "on_plat (pf_stop_sound F sd) m"
  have "mm_same ?m (update_route F MM_CALL_STOP (on_plat (pf_exit_call F) ?m))" by (rule route_same)
  then have "mm_same m (update_route F MM_CALL_STOP (on_plat (pf_exit_call F) ?m))"
    by (rule mm_same_trans [OF on_plat_same])
  then show ?thesis using Some by (simp add: Let_def)
qed simp

lemma other_message:
  assumes "\<And>st. msg \<noteq> MM_MARSHAL_CALL_STATE st"
  shows "mm_keep m (mm_mqueue_handler F msg m)"
proof (cases msg)
  case (MM_MARSHAL_PAUSE_MEDIA n)
  then show ?thesis by (auto simp: mm_same_keep split: option.split)
qed (use assms in \<open>simp_all add: mm_same_keep play_same stop_same update_route_same del: mm_mqueue_handler.simps(1,3)\<close>,
     simp_all add: mm_keep_def split: prod.split)

lemma call_state_message:
  assumes "call_state_step (mm_user_starts_audio m) (mm_prev_call_state m) (mm_call_state m) st =
    (cur, prev, work, event, fire)"
  obtains m' xs where "mm_call_state_handler F st m = m'" "mm_call_state m' = cur" "mm_prev_call_state m' = prev"
    "mm_mml m' = mm_mml m" "mm_mq m' = mm_mq m" "mm_started m' = mm_started m"
    "mm_user_starts_audio m' = mm_user_starts_audio m" "list_all is_route xs"
    "mm_out m' = mm_out m @ xs @
       (if fire \<or> mm_call_state m \<noteq> cur then map (\<lambda>(i, h). Mm_mcat i cur) (mm_mml m) else [])"
proof -
  let ?m = "m\<lparr>mm_call_state := cur, mm_prev_call_state := prev\<rparr>"
  let ?m' = "mm_work_done F work event ?m"
  have s: "mm_same ?m ?m'" by (rule work_done_same)
  obtain xs where xs: "mm_out ?m' = mm_out m @ xs" "list_all is_route xs"
    using s unfolding mm_same_def by auto
  show thesis
    by (rule that [OF call_state_handler_eq [OF assms] _ _ _ _ _ _ xs(2)])
       (use mm_sameD [OF s] xs(1) in \<open>simp_all split: if_split\<close>)
qed

section \<open>What users know\<close>

text \<open>The category a user was told last.\<close>

fun last_mcat :: "nat \<Rightarrow> mediamgr_state \<Rightarrow> mm_out list \<Rightarrow> mediamgr_state" where
  "last_mcat i st [] = st"
| "last_mcat i st (Mm_mcat j st' # xs) = last_mcat i (if j = i then st' else st) xs"
| "last_mcat i st (Mm_route j r # xs) = last_mcat i st xs"

lemma last_mcat_append [simp]: "last_mcat i st (xs @ ys) = last_mcat i (last_mcat i st xs) ys"
  by (induction i st xs rule: last_mcat.induct) auto

lemma last_mcat_routes [simp]: "list_all is_route xs \<Longrightarrow> last_mcat i st xs = st"
  by (induction i st xs rule: last_mcat.induct) (auto simp: is_route_def)

lemma last_mcat_all: "i \<in> fst ` set us \<Longrightarrow> last_mcat i st (map (\<lambda>(i, h). Mm_mcat i cur) us) = cur"
proof (induction us arbitrary: st)
  case (Cons u us)
  have "last_mcat i cur (map (\<lambda>(i, h). Mm_mcat i cur) us) = cur"
    by (induction us) auto
  then show ?case using Cons by (cases u) (auto split: if_split)
qed simp

text \<open>User \<open>i\<close> stays, and knows the new state from the old one and what it was told.\<close>

definition user_told :: "nat \<Rightarrow> 'p mmsys \<Rightarrow> 'p mmsys \<Rightarrow> bool" where
  "user_told i s t \<longleftrightarrow>
     (\<exists>m m' xs. sy_mm s = Some m \<and> sy_mm t = Some m' \<and> i \<in> fst ` set (mm_mml m) \<and> i \<in> fst ` set (mm_mml m') \<and>
        mm_out m' = mm_out m @ xs \<and> mm_call_state m' = last_mcat i (mm_call_state m) xs)"

lemma user_told_trans: "user_told i s t \<Longrightarrow> user_told i t u \<Longrightarrow> user_told i s u"
  by (fastforce simp: user_told_def)

lemma handler_told:
  assumes "i \<in> fst ` set (mm_mml m)"
  shows "mm_mml (mm_mqueue_handler F msg m) = mm_mml m \<and>
    (\<exists>xs. mm_out (mm_mqueue_handler F msg m) = mm_out m @ xs \<and>
      mm_call_state (mm_mqueue_handler F msg m) = last_mcat i (mm_call_state m) xs)"
proof (cases "\<exists>st. msg = MM_MARSHAL_CALL_STATE st")
  case True
  then obtain st where msg: "msg = MM_MARSHAL_CALL_STATE st" by blast
  obtain cur prev work event fire where step:
    "call_state_step (mm_user_starts_audio m) (mm_prev_call_state m) (mm_call_state m) st = (cur, prev, work, event, fire)"
    by (metis prod_cases5)
  obtain m' xs where m': "mm_call_state_handler F st m = m'" "mm_call_state m' = cur" "mm_mml m' = mm_mml m"
      "list_all is_route xs" "mm_out m' = mm_out m @ xs @
         (if fire \<or> mm_call_state m \<noteq> cur then map (\<lambda>(i, h). Mm_mcat i cur) (mm_mml m) else [])"
    by (rule call_state_message [OF step])
  have "cur = last_mcat i (mm_call_state m)
      (xs @ (if fire \<or> mm_call_state m \<noteq> cur then map (\<lambda>(i, h). Mm_mcat i cur) (mm_mml m) else []))"
    using m'(4) last_mcat_all [OF assms] by auto
  then show ?thesis using m' by (metis msg mm_mqueue_handler.simps(4))
next
  case False
  then show ?thesis
    using other_message [of msg m F] last_mcat_routes unfolding mm_keep_def by metis
qed

lemma post_told: "sy_mm s = Some m \<Longrightarrow> i \<in> fst ` set (mm_mml m) \<Longrightarrow> user_told i s (mm_post mgr msg s)"
  by (auto simp: user_told_def mm_post_def split: option.split)

lemma step_told:
  assumes "sy_mm s = Some m" "i \<in> fst ` set (mm_mml m)" "ev \<noteq> M_free i"
  shows "user_told i s (mm_step F ev s)"
proof (cases ev)
  case M_alloc
  then show ?thesis using assms by (auto simp: user_told_def mediamgr_alloc_def)
next
  case (M_free j)
  then have "i \<in> fst ` set (filter (\<lambda>(k, h). k \<noteq> j) (mm_mml m))" using assms by force
  then show ?thesis
    using M_free assms by (auto simp: user_told_def mediamgr_destructor_def Let_def filter_empty_conv)
next
  case (M_route_h j h)
  then show ?thesis
    using assms by (force simp: user_told_def mediamgr_register_route_change_h_def)
next
  case (M_post msg)
  then show ?thesis using post_told [OF assms(1,2)] by simp
next
  case M_dispatch
  show ?thesis
  proof (cases "mm_started m \<and> mq_msgs (mm_mq m) \<noteq> []")
    case True
    then obtain msg q where "mq_msgs (mm_mq m) = msg # q" by (cases "mq_msgs (mm_mq m)") auto
    then have "mm_step F ev s = s\<lparr>sy_mm := Some (mm_mqueue_handler F msg (m\<lparr>mm_mq := (mm_mq m)\<lparr>mq_msgs := q\<rparr>\<rparr>))\<rparr>"
      using True assms(1) M_dispatch by (simp add: mm_dispatch_def mqueue_read_def)
    then show ?thesis
      using handler_told [of i "m\<lparr>mm_mq := (mm_mq m)\<lparr>mq_msgs := q\<rparr>\<rparr>" F msg] assms(1,2) by (auto simp: user_told_def)
  next
    case False
    then show ?thesis
      using M_dispatch assms by (auto simp: user_told_def mm_dispatch_def mqueue_read_def split: list.split)
  qed
qed

lemma run_told:
  assumes "sy_mm s = Some m" "i \<in> fst ` set (mm_mml m)" "M_free i \<notin> set evs"
  shows "user_told i s (run (mm_step F) evs s)"
  using assms
proof (induction evs arbitrary: s m)
  case Nil
  then show ?case by (auto simp: user_told_def)
next
  case (Cons ev evs)
  have step: "user_told i s (mm_step F ev s)" by (rule step_told) (use Cons.prems in auto)
  then obtain m' where "sy_mm (mm_step F ev s) = Some m'" "i \<in> fst ` set (mm_mml m')"
    unfolding user_told_def by blast
  then have "user_told i (mm_step F ev s) (run (mm_step F) evs (mm_step F ev s))"
    by (rule Cons.IH) (use Cons.prems in simp)
  then show ?case using user_told_trans [OF step] by simp
qed


definition mm1 :: "mediamgr_auplay mmsys" where
  "mm1 = mediamgr_alloc dummy_platform (mmsys0 MEDIAMGR_AUPLAY_EARPIECE)"

lemma mm1_eq: "\<exists>m. sy_mm mm1 = Some m \<and> mm_mml m = [(0, False)] \<and> mm_call_state m = MEDIAMGR_STATE_NORMAL"
  by (simp add: mm1_def mediamgr_alloc_def mmsys0_def mm_alloc_def dummy_platform_def)


section \<open>Routes\<close>

text \<open>Audio may go to a device that is there, and to the loudspeaker only if it is preferred.\<close>

definition usable :: "mm_route_state_machine \<Rightarrow> mediamgr_auplay \<Rightarrow> bool" where
  "usable r route =
     (case route of
        MEDIAMGR_AUPLAY_HEADSET \<Rightarrow> wired_hs_is_connected r
      | MEDIAMGR_AUPLAY_BT \<Rightarrow> bt_device_is_connected r
      | MEDIAMGR_AUPLAY_SPEAKER \<Rightarrow> prefer_loudspeaker r
      | MEDIAMGR_AUPLAY_EARPIECE \<Rightarrow> True
      | _ \<Rightarrow> False)"

lemma route_event_usable:
  "usable r cur \<Longrightarrow> usable (snd (route_event st cur ev r)) (fst (route_event st cur ev r))"
  by (auto simp: route_event_def usable_def device_route_def loud_route_def Let_def
      split: mm_route_update_event.splits mediamgr_auplay.splits if_splits)

text \<open>A platform that does what it is asked to and changes the route on nothing else.\<close>

locale audio_platform =
  fixes F :: "'p platform"
  assumes enable: "pf_get_route F (snd (pf_enable_speaker F p)) = MEDIAMGR_AUPLAY_SPEAKER"
      "pf_get_route F (snd (pf_enable_bt_sco F p)) = MEDIAMGR_AUPLAY_BT"
      "pf_get_route F (snd (pf_enable_earpiece F p)) = MEDIAMGR_AUPLAY_EARPIECE"
      "pf_get_route F (snd (pf_enable_headset F p)) = MEDIAMGR_AUPLAY_HEADSET"
    and sounds: "pf_get_route F (pf_play_sound F sd p) = pf_get_route F p"
      "pf_get_route F (pf_pause_sound F sd p) = pf_get_route F p"
      "pf_get_route F (pf_stop_sound F sd p) = pf_get_route F p"
      "pf_get_route F (snd (pf_registerMedia F n ob mi inc it pr cm (d, p))) = pf_get_route F p"
      "pf_get_route F (snd (pf_unregisterMedia F n (d, p))) = pf_get_route F p"
    and calls: "pf_get_route F (pf_enter_call F p) = pf_get_route F p"
      "pf_get_route F (pf_exit_call F p) = pf_get_route F p"
      "pf_get_route F (pf_set_active F p) = pf_get_route F p"
      "pf_get_route F (snd (snd (pf_init F (d, p)))) = pf_get_route F p"
begin

definition route :: "'p mm \<Rightarrow> mediamgr_auplay" where
  "route m = pf_get_route F (mm_plat m)"

lemma enable_route: "usable r w \<Longrightarrow> pf_get_route F (snd (enable_route F w p)) = w"
  by (auto simp: usable_def enable_route_def enable split: mediamgr_auplay.splits)

lemma update_route_wanted:
  assumes "route_event (mm_call_state m) (route m) ev (mm_router m) = (w, r)" "usable (mm_router m) (route m)"
  shows "route (update_route F ev m) = w \<and> mm_router (update_route F ev m) = r"
proof -
  have "usable r w"
    using route_event_usable [OF assms(2), of "mm_call_state m" ev] assms(1) by simp
  then have "pf_get_route F (snd (enable_route F w (mm_plat m))) = w" by (rule enable_route)
  then show ?thesis
    using assms(1) by (cases "enable_route F w (mm_plat m)") (auto simp: update_route_def route_def Let_def)
qed

definition route_ok :: "'p mm \<Rightarrow> bool" where
  "route_ok m \<longleftrightarrow> usable (mm_router m) (route m)"

lemma update_route_ok: "route_ok m \<Longrightarrow> route_ok (update_route F ev m)"
  using update_route_wanted [of m ev] route_event_usable [of "mm_router m" "route m" "mm_call_state m" ev]
  unfolding route_ok_def by (metis fst_conv snd_conv surj_pair)

lemma on_plat_ok: "(\<And>p. pf_get_route F (f p) = pf_get_route F p) \<Longrightarrow> route_ok (on_plat f m) = route_ok m"
  by (simp add: route_ok_def route_def on_plat_def)

lemma each_sound_ok:
  assumes "\<And>sd m. route_ok m \<Longrightarrow> route_ok (f sd m)" "route_ok m"
  shows "route_ok (each_sound f m)"
proof -
  have "route_ok (fold (\<lambda>(key, val) m. case val of None \<Rightarrow> m | Some sd \<Rightarrow> f sd m) es m)" for es
    using assms(2)
  proof (induction es arbitrary: m)
    case (Cons e es)
    show ?case
      using Cons.IH [OF Cons.prems] Cons.IH [OF assms(1) [OF Cons.prems]] by (cases e; cases "snd e") simp_all
  qed simp
  then show ?thesis by (simp add: each_sound_def)
qed

lemma work_done_ok: "route_ok m \<Longrightarrow> route_ok (mm_work_done F work event m)"
proof -
  assume ok: "route_ok m"
  have "route_ok (each_sound (stop_playing_during_call F) m)"
    by (rule each_sound_ok [OF _ ok]) (simp add: stop_playing_during_call_def on_plat_ok sounds)
  then show ?thesis
    using ok update_route_ok
    by (auto simp: mm_work_done_def Let_def mediamgr_exit_call_def mediamgr_enter_call_def on_plat_ok calls
        split: mm_work.split option.split)
qed

lemma each_sound_route:
  assumes "\<And>sd m. route (f sd m) = route m \<and> mm_router (f sd m) = mm_router m"
  shows "route (each_sound f m) = route m \<and> mm_router (each_sound f m) = mm_router m"
proof -
  have "route (fold (\<lambda>(key, val) m. case val of None \<Rightarrow> m | Some sd \<Rightarrow> f sd m) es m) = route m \<and>
      mm_router (fold (\<lambda>(key, val) m. case val of None \<Rightarrow> m | Some sd \<Rightarrow> f sd m) es m) = mm_router m" for es
  proof (induction es arbitrary: m)
    case (Cons e es)
    show ?case using Cons.IH [of m] Cons.IH [of "f (the (snd e)) m"] assms by (cases e; cases "snd e") simp_all
  qed simp
  then show ?thesis by (simp add: each_sound_def)
qed

lemma enter_call_route:
  "route (mediamgr_enter_call F m) = route m \<and> mm_router (mediamgr_enter_call F m) = mm_router m"
proof -
  have "route (each_sound (stop_playing_during_call F) m) = route m \<and>
      mm_router (each_sound (stop_playing_during_call F) m) = mm_router m"
    by (rule each_sound_route) (simp add: stop_playing_during_call_def on_plat_def route_def sounds)
  then show ?thesis by (simp add: mediamgr_enter_call_def on_plat_def route_def calls)
qed

text \<open>A message about the call moves audio to the wanted route.\<close>

lemma call_state_route:
  assumes step: "call_state_step (mm_user_starts_audio m) (mm_prev_call_state m) (mm_call_state m) st =
      (cur, prev, work, Some ev, fire)"
    and ok: "route_ok m"
    and wanted: "route_event cur (route m) ev (mm_router m) = (w, r)"
  shows "route (mm_call_state_handler F st m) = w \<and> mm_router (mm_call_state_handler F st m) = r"
proof -
  let ?m = "m\<lparr>mm_call_state := cur, mm_prev_call_state := prev\<rparr>"
  define m1 where "m1 = (case work of Mm_none \<Rightarrow> ?m | Mm_enter \<Rightarrow> mediamgr_enter_call F ?m
    | Mm_exit \<Rightarrow> mediamgr_exit_call F ?m | Mm_active \<Rightarrow> on_plat (pf_set_active F) ?m)"
  have m1: "route m1 = route m" "mm_router m1 = mm_router m" "mm_call_state m1 = cur"
    using enter_call_route [of ?m] mm_sameD(1) [OF enter_call_same, of F ?m]
    by (simp_all add: m1_def mediamgr_exit_call_def on_plat_def route_def calls split: mm_work.split)
  have "mm_work_done F work (Some ev) ?m = update_route F ev m1"
    by (simp add: mm_work_done_def m1_def Let_def)
  then have "route (mm_work_done F work (Some ev) ?m) = w \<and> mm_router (mm_work_done F work (Some ev) ?m) = r"
    using update_route_wanted [of m1 ev w r] wanted ok m1 by (simp add: route_ok_def)
  then show ?thesis by (simp add: call_state_handler_eq [OF step] route_def)
qed

lemma call_state_ok: "route_ok m \<Longrightarrow> route_ok (mm_call_state_handler F st m)"
proof -
  assume ok: "route_ok m"
  obtain cur prev work event fire where step:
    "call_state_step (mm_user_starts_audio m) (mm_prev_call_state m) (mm_call_state m) st = (cur, prev, work, event, fire)"
    by (metis prod_cases5)
  have "route_ok (mm_work_done F work event (m\<lparr>mm_call_state := cur, mm_prev_call_state := prev\<rparr>))"
    by (rule work_done_ok) (use ok in \<open>simp add: route_ok_def route_def\<close>)
  then show ?thesis by (simp add: call_state_handler_eq [OF step] route_ok_def route_def)
qed

lemma handler_ok:
  assumes ok: "route_ok m"
  shows "route_ok (mm_mqueue_handler F msg m)"
proof (cases msg)
  case (MM_MARSHAL_PLAY_MEDIA n)
  have "route_ok (each_sound (stop_play F) m)"
    by (rule each_sound_ok [OF _ ok]) (simp add: stop_play_def on_plat_ok sounds)
  then show ?thesis
    using ok MM_MARSHAL_PLAY_MEDIA by (auto simp: Let_def on_plat_ok sounds calls update_route_ok split: option.split)
next
  case (MM_MARSHAL_STOP_MEDIA n)
  then show ?thesis using ok by (auto simp: Let_def on_plat_ok sounds calls update_route_ok split: option.split)
next
  case (MM_MARSHAL_PAUSE_MEDIA n)
  then show ?thesis using ok by (auto simp: on_plat_ok sounds split: option.split)
next
  case (MM_MARSHAL_REGISTER_MEDIA n ob mi inc it pr cm)
  then show ?thesis
    using ok sounds(4) [of n ob mi inc it pr cm "mm_sounds m" "mm_plat m"] by (auto simp: route_ok_def route_def split: prod.split)
next
  case (MM_MARSHAL_DEREGISTER_MEDIA n)
  then show ?thesis
    using ok sounds(5) [of n "mm_sounds m" "mm_plat m"] by (auto simp: route_ok_def route_def split: prod.split)
qed (use ok in \<open>simp_all add: call_state_ok update_route_ok\<close>, simp_all add: route_ok_def route_def)

end

interpretation dummy: audio_platform dummy_platform
  by unfold_locales (simp_all add: dummy_platform_def)

context audio_platform
begin

definition sys_ok :: "'p mmsys \<Rightarrow> bool" where
  "sys_ok s \<longleftrightarrow> (case sy_mm s of None \<Rightarrow> True | Some m \<Rightarrow> route_ok m)"

lemma step_sys_ok:
  assumes ok: "sys_ok s" and alloc: "sy_mm s = None \<Longrightarrow> ev \<noteq> M_alloc"
  shows "sys_ok (mm_step F ev s)"
proof (cases ev)
  case M_alloc
  then show ?thesis
    using ok alloc by (auto simp: sys_ok_def mediamgr_alloc_def route_ok_def route_def split: option.splits)
next
  case (M_free i)
  then show ?thesis
    using ok by (auto simp: sys_ok_def mediamgr_destructor_def Let_def route_ok_def route_def split: option.splits)
next
  case (M_route_h i h)
  then show ?thesis
    using ok by (auto simp: sys_ok_def mediamgr_register_route_change_h_def route_ok_def route_def split: option.splits)
next
  case (M_post msg)
  then show ?thesis
    using ok by (auto simp: sys_ok_def mm_post_def route_ok_def route_def split: option.splits)
next
  case M_dispatch
  have "route_ok m \<Longrightarrow> route_ok (mm_mqueue_handler F msg (m\<lparr>mm_mq := mq\<rparr>))" for m msg mq
    by (rule handler_ok) (simp add: route_ok_def route_def)
  then show ?thesis
    using ok M_dispatch by (auto simp: sys_ok_def mm_dispatch_def split: option.splits)
qed

lemma run_sys_ok:
  assumes "sys_ok s" "sy_mm s = Some m" "i \<in> fst ` set (mm_mml m)" "M_free i \<notin> set evs"
  shows "sys_ok (run (mm_step F) evs s)"
  using assms
proof (induction evs arbitrary: s m)
  case (Cons ev evs)
  have "user_told i s (mm_step F ev s)" by (rule step_told) (use Cons.prems in auto)
  then obtain m' where "sy_mm (mm_step F ev s) = Some m'" "i \<in> fst ` set (mm_mml m')"
    unfolding user_told_def by blast
  moreover have "sys_ok (mm_step F ev s)" by (rule step_sys_ok) (use Cons.prems in simp_all)
  ultimately show ?case using Cons.IH [of "mm_step F ev s" m'] Cons.prems by simp
qed simp

end

lemma mm_alloc_fields:
  "mm_mml (mm_alloc F p) = []" "mm_call_state (mm_alloc F p) = MEDIAMGR_STATE_NORMAL" "mm_out (mm_alloc F p) = []"
  "mm_mq (mm_alloc F p) = mqueue_alloc"
  "mm_plat (mm_alloc F p) = snd (snd (pf_init F (case dict_alloc of Inr d \<Rightarrow> d, p)))"
  by (simp_all add: mm_alloc_def Let_def case_prod_beta)

text \<open>
  C7. On a platform that does what it is asked to, audio never goes to a headset or a Bluetooth
  device that is not connected, and to the loudspeaker only when it is preferred, whatever happens
  after the first user of the media manager came and until it goes.
\<close>

theorem mm_route_connected:
  assumes "audio_platform F" "pf_get_route F p = MEDIAMGR_AUPLAY_EARPIECE"
    and "M_free 0 \<notin> set evs" and "sy_mm (run (mm_step F) (M_alloc # evs) (mmsys0 p)) = Some m"
  shows "usable (mm_router m) (pf_get_route F (mm_plat m))"
proof -
  let ?s = "mm_step F M_alloc (mmsys0 p)"
  obtain m0 where m0: "sy_mm ?s = Some m0" "mm_mml m0 = [(0, False)]" "pf_get_route F (mm_plat m0) = MEDIAMGR_AUPLAY_EARPIECE"
    using audio_platform.calls(4) [OF assms(1), of _ p] assms(2)
    by (simp add: mediamgr_alloc_def mmsys0_def mm_alloc_fields)
  have "audio_platform.sys_ok F ?s"
    using m0 by (simp add: audio_platform.sys_ok_def [OF assms(1)] audio_platform.route_ok_def [OF assms(1)]
        audio_platform.route_def [OF assms(1)] usable_def)
  from audio_platform.run_sys_ok [OF assms(1) this m0(1), of 0 evs] show ?thesis
    using assms(3,4) m0(2)
    by (simp add: audio_platform.sys_ok_def [OF assms(1)] audio_platform.route_ok_def [OF assms(1)]
        audio_platform.route_def [OF assms(1)])
qed

theorem mm_route_connected_witness:
  "\<exists>m. sy_mm (run (mm_step dummy_platform) [M_alloc, M_post (MM_MARSHAL_HEADSET_CONNECTED True), M_dispatch]
       (mmsys0 MEDIAMGR_AUPLAY_EARPIECE)) = Some m \<and> usable (mm_router m) (pf_get_route dummy_platform (mm_plat m))"
proof -
  obtain m where "sy_mm (run (mm_step dummy_platform) [M_alloc, M_post (MM_MARSHAL_HEADSET_CONNECTED True), M_dispatch]
       (mmsys0 MEDIAMGR_AUPLAY_EARPIECE)) = Some m"
    using run_told [of mm1 _ 0 "[M_post (MM_MARSHAL_HEADSET_CONNECTED True), M_dispatch]" dummy_platform] mm1_eq
    by (auto simp: user_told_def mm1_def)
  then show ?thesis
    using mm_route_connected [OF dummy.audio_platform_axioms, of MEDIAMGR_AUPLAY_EARPIECE
        "[M_post (MM_MARSHAL_HEADSET_CONNECTED True), M_dispatch]"]
    by (auto simp: dummy_platform_def)
qed

text \<open>
  C34. A video call that plays over the loudspeaker, without headset or Bluetooth device, and is put
  on hold and resumed is still a video call, but plays over the earpiece: resuming routes audio as
  for a call without video.
\<close>

theorem mm_resume_video_earpiece:
  assumes F: "audio_platform F" and "mm_call_state m = MEDIAMGR_STATE_INVIDEOCALL"
    and route: "pf_get_route F (mm_plat m) = MEDIAMGR_AUPLAY_SPEAKER" "prefer_loudspeaker (mm_router m)"
    and no: "\<not> wired_hs_is_connected (mm_router m)" "\<not> bt_device_is_connected (mm_router m)"
    and m': "m' = mm_mqueue_handler F (MM_MARSHAL_CALL_STATE MEDIAMGR_STATE_RESUME)
       (mm_mqueue_handler F (MM_MARSHAL_CALL_STATE MEDIAMGR_STATE_HOLD) m)"
  shows "mm_call_state m' = MEDIAMGR_STATE_INVIDEOCALL \<and>
     pf_get_route F (mm_plat m') = MEDIAMGR_AUPLAY_EARPIECE \<and> \<not> prefer_loudspeaker (mm_router m')"
proof -
  let ?m1 = "mm_call_state_handler F MEDIAMGR_STATE_HOLD m"
  have s1: "call_state_step (mm_user_starts_audio m) (mm_prev_call_state m) (mm_call_state m) MEDIAMGR_STATE_HOLD =
      (MEDIAMGR_STATE_HOLD, MEDIAMGR_STATE_INVIDEOCALL, Mm_none, Some MM_CALL_STOP, True)"
    using assms(2) by (simp add: call_state_step_def)
  have ok: "audio_platform.route_ok F m"
    using route by (simp add: audio_platform.route_ok_def [OF F] audio_platform.route_def [OF F] usable_def)
  have r1: "audio_platform.route F ?m1 = MEDIAMGR_AUPLAY_EARPIECE"
      "mm_router ?m1 = (mm_router m)\<lparr>prefer_loudspeaker := False\<rparr>"
    using audio_platform.call_state_route [OF F s1 ok, of MEDIAMGR_AUPLAY_EARPIECE "(mm_router m)\<lparr>prefer_loudspeaker := False\<rparr>"]
    by (simp_all add: route_event_def)
  have st1: "mm_call_state ?m1 = MEDIAMGR_STATE_HOLD" "mm_prev_call_state ?m1 = MEDIAMGR_STATE_INVIDEOCALL"
    using call_state_message [OF s1, of F] by metis+
  have s2: "call_state_step (mm_user_starts_audio ?m1) (mm_prev_call_state ?m1) (mm_call_state ?m1) MEDIAMGR_STATE_RESUME =
      (MEDIAMGR_STATE_INVIDEOCALL, MEDIAMGR_STATE_INVIDEOCALL, Mm_enter, Some MM_CALL_START, True)"
    using st1 by (simp add: call_state_step_def)
  have r2: "audio_platform.route F m' = MEDIAMGR_AUPLAY_EARPIECE \<and> mm_router m' =
      (mm_router ?m1)\<lparr>route_before_call := MEDIAMGR_AUPLAY_EARPIECE\<rparr>"
    unfolding m' mm_mqueue_handler.simps
    by (rule audio_platform.call_state_route [OF F s2 audio_platform.call_state_ok [OF F ok]])
       (use r1 no in \<open>simp add: route_event_def device_route_def loud_route_def\<close>)
  have "mm_call_state m' = MEDIAMGR_STATE_INVIDEOCALL"
    using call_state_message [OF s2, of F] unfolding m' mm_mqueue_handler.simps by metis
  then show ?thesis using r1 r2 by (simp add: audio_platform.route_def [OF F])
qed

text \<open>A video call of the platform without audio.\<close>

definition mm_video :: "mediamgr_auplay mm" where
  "mm_video = (mm_alloc dummy_platform MEDIAMGR_AUPLAY_SPEAKER)
     \<lparr>mm_call_state := MEDIAMGR_STATE_INVIDEOCALL,
      mm_router := \<lparr>prefer_loudspeaker = True, bt_device_is_connected = False, wired_hs_is_connected = False,
        cur_route = MEDIAMGR_AUPLAY_UNKNOWN, route_before_call = MEDIAMGR_AUPLAY_EARPIECE\<rparr>\<rparr>"

theorem mm_resume_video_earpiece_witness:
  "mm_call_state (mm_mqueue_handler dummy_platform (MM_MARSHAL_CALL_STATE MEDIAMGR_STATE_RESUME)
     (mm_mqueue_handler dummy_platform (MM_MARSHAL_CALL_STATE MEDIAMGR_STATE_HOLD) mm_video)) = MEDIAMGR_STATE_INVIDEOCALL"
  using mm_resume_video_earpiece [OF dummy.audio_platform_axioms, of mm_video]
  by (simp add: mm_video_def mm_alloc_fields dummy_platform_def)

end
