(* ===== verification/Wcall_Media.thy ===== *)
theory Wcall_Media
  imports Wcall_Correct Mediamgr_Correct
begin

text \<open>
  The calling interface and the media manager together: what calls tell the media manager goes into
  its queue, and a change of the media category comes back as a callback of \<^verbatim>\<open>wcall.c\<close>. The thread of
  the media manager and those of the calls are interleaved in any order.
\<close>

section \<open>The composition\<close>

record ('m, 'x, 'p) app =
  ap_wcall :: "('m, 'x) wsys"
  ap_mm :: "'p mmsys"

datatype ('m, 'x) app_event =
    A_wcall "('m, 'x) wevent"
  | A_mm mm_message
  | A_mm_dispatch

text \<open>The states a step of the interface told the media manager.\<close>

definition mm_posts :: "wcall_out list \<Rightarrow> mediamgr_state list" where
  "mm_posts xs = concat (map (\<lambda>x. case x of Wo_mm st \<Rightarrow> [st] | _ \<Rightarrow> []) xs)"

definition app_wcall ::
  "('m, 'x wworld, 'f) media \<Rightarrow> (string \<Rightarrow> int + string \<times> string \<times> nat) \<Rightarrow>
     (string \<Rightarrow> nat \<Rightarrow> int + sockaddr) \<Rightarrow> ('m, 'x) wevent \<Rightarrow> ('m, 'x, 'p) app \<Rightarrow> ('m, 'x, 'p) app" where
  "app_wcall P ud ss ev a =
     (let w = wcall_step P ud ss ev (ap_wcall a);
          told = drop (length (out (ap_wcall a))) (out w)
      in a\<lparr>ap_wcall := w, ap_mm := fold (mm_set_call_state (Some 0)) (mm_posts told) (ap_mm a)\<rparr>)"

text \<open>The category callbacks for the interface, which is user 0 of the media manager.\<close>

definition mcat_calls :: "mm_out list \<Rightarrow> mediamgr_state list" where
  "mcat_calls xs = concat (map (\<lambda>x. case x of Mm_mcat i st \<Rightarrow> if i = 0 then [st] else [] | _ \<Rightarrow> []) xs)"

definition app_out :: "'p mmsys \<Rightarrow> mm_out list" where
  "app_out s = (case sy_mm s of None \<Rightarrow> [] | Some m \<Rightarrow> mm_out m)"

fun app_step ::
  "('m, 'x wworld, 'f) media \<Rightarrow> (string \<Rightarrow> int + string \<times> string \<times> nat) \<Rightarrow>
     (string \<Rightarrow> nat \<Rightarrow> int + sockaddr) \<Rightarrow> 'p platform \<Rightarrow> ('m, 'x) app_event \<Rightarrow> ('m, 'x, 'p) app \<Rightarrow>
     ('m, 'x, 'p) app" where
  "app_step P ud ss F (A_wcall ev) a = app_wcall P ud ss ev a"
| "app_step P ud ss F (A_mm msg) a = a\<lparr>ap_mm := mm_post (Some 0) msg (ap_mm a)\<rparr>"
| "app_step P ud ss F A_mm_dispatch a =
     (let s = mm_dispatch F (ap_mm a);
          told = drop (length (app_out (ap_mm a))) (app_out s)
      in fold (\<lambda>st. app_wcall P ud ss (W_mcat st)) (mcat_calls told) (a\<lparr>ap_mm := s\<rparr>))"

text \<open>Events of a running interface; the application holds and resumes calls and gives permissions.\<close>

fun app_steady :: "('m, 'x) app_event \<Rightarrow> bool" where
  "app_steady (A_wcall ev) = steady ev"
| "app_steady (A_mm (MM_MARSHAL_CALL_STATE st)) =
     (st \<in> {MEDIAMGR_STATE_HOLD, MEDIAMGR_STATE_RESUME, MEDIAMGR_STATE_AUDIO_PERMISSIONS_READY, MEDIAMGR_STATE_ROAMING})"
| "app_steady (A_mm msg) = True"
| "app_steady A_mm_dispatch = True"

section \<open>What the queue leads to\<close>

text \<open>The state of the call after the messages of the queue: settings, previous and current state.\<close>

type_synonym call_states = "bool \<times> mediamgr_state \<times> mediamgr_state"

definition states_of :: "'p mm \<Rightarrow> call_states" where
  "states_of m = (mm_user_starts_audio m, mm_prev_call_state m, mm_call_state m)"

definition states_msg :: "mm_message \<Rightarrow> call_states \<Rightarrow> call_states" where
  "states_msg msg = (\<lambda>(ua, prev, cur).
     case msg of
       MM_MARSHAL_CALL_STATE st \<Rightarrow>
         (case call_state_step ua prev cur st of (cur, prev, _) \<Rightarrow> (ua, prev, cur))
     | MM_MARSHAL_SET_USER_START_AUDIO b \<Rightarrow> (b, prev, cur)
     | _ \<Rightarrow> (ua, prev, cur))"

definition final_state :: "'p mm \<Rightarrow> mediamgr_state" where
  "final_state m = snd (snd (fold states_msg (mq_msgs (mm_mq m)) (states_of m)))"

lemma user_starts_kept:
  "(\<And>st. msg \<noteq> MM_MARSHAL_CALL_STATE st) \<Longrightarrow> (\<And>b. msg \<noteq> MM_MARSHAL_SET_USER_START_AUDIO b) \<Longrightarrow>
   mm_user_starts_audio (mm_mqueue_handler F msg m) = mm_user_starts_audio m"
  by (cases msg) (auto simp: mm_sameD(3) [OF play_same] mm_sameD(3) [OF stop_same] mm_sameD(3) [OF update_route_same]
      on_plat_def simp del: mm_mqueue_handler.simps(1,3) split: option.split prod.split)

lemma states_handler: "states_of (mm_mqueue_handler F msg m) = states_msg msg (states_of m)"
proof (cases "\<exists>st. msg = MM_MARSHAL_CALL_STATE st")
  case True
  then obtain st where msg: "msg = MM_MARSHAL_CALL_STATE st" by blast
  obtain cur prev work event fire where step:
    "call_state_step (mm_user_starts_audio m) (mm_prev_call_state m) (mm_call_state m) st = (cur, prev, work, event, fire)"
    by (metis prod_cases5)
  show ?thesis
    by (rule call_state_message [OF step, of F]) (simp add: states_of_def states_msg_def msg step)
next
  case False
  then have "mm_keep m (mm_mqueue_handler F msg m)" by (intro other_message) blast
  moreover have "mm_user_starts_audio (mm_mqueue_handler F msg m) =
      (case msg of MM_MARSHAL_SET_USER_START_AUDIO b \<Rightarrow> b | _ \<Rightarrow> mm_user_starts_audio m)"
    using False user_starts_kept [of msg F m] by (cases msg) auto
  ultimately show ?thesis
    using False by (cases msg) (auto simp: states_of_def states_msg_def mm_keep_def)
qed

lemma handler_mq: "mm_mq (mm_mqueue_handler F msg m) = mm_mq m"
proof (cases "\<exists>st. msg = MM_MARSHAL_CALL_STATE st")
  case True
  then obtain st where msg: "msg = MM_MARSHAL_CALL_STATE st" by blast
  obtain cur prev work event fire where step:
    "call_state_step (mm_user_starts_audio m) (mm_prev_call_state m) (mm_call_state m) st = (cur, prev, work, event, fire)"
    by (metis prod_cases5)
  show ?thesis by (rule call_state_message [OF step, of F]) (simp add: msg)
next
  case False
  then have "mm_keep m (mm_mqueue_handler F msg m)" by (intro other_message) blast
  then show ?thesis by (simp add: mm_keep_def)
qed

text \<open>The media manager runs, and when it was last told to be normal its queue leads there.\<close>

definition app_inv :: "('m, 'x, 'p) app \<Rightarrow> bool" where
  "app_inv a \<longleftrightarrow>
     wsys_inv (ap_wcall a) \<and> mm_inv (ap_wcall a) \<and> ca_mm (ws_calling (ap_wcall a)) \<and>
     (\<exists>m. sy_mm (ap_mm a) = Some m \<and> mq_err (mm_mq m) = 0 \<and>
        (mm_told (ws_calling (ap_wcall a)) = MEDIAMGR_STATE_NORMAL \<longrightarrow> final_state m = MEDIAMGR_STATE_NORMAL))"

lemma post_final:
  assumes "sy_mm s = Some m" "mq_err (mm_mq m) = 0"
  obtains m' where "sy_mm (mm_post (Some 0) msg s) = Some m'" "mq_err (mm_mq m') = 0"
    "fold states_msg (mq_msgs (mm_mq m')) (states_of m') = states_msg msg (fold states_msg (mq_msgs (mm_mq m)) (states_of m))"
proof (rule that)
  show "sy_mm (mm_post (Some 0) msg s) = Some (m\<lparr>mm_mq := (mm_mq m)\<lparr>mq_msgs := mq_msgs (mm_mq m) @ [msg]\<rparr>\<rparr>)"
    using assms by (simp add: mm_post_def mqueue_push_def)
qed (use assms in \<open>simp_all add: states_of_def\<close>)

lemma posts_final:
  assumes "sy_mm s = Some m" "mq_err (mm_mq m) = 0"
  shows "\<exists>m'. sy_mm (fold (mm_set_call_state (Some 0)) sts s) = Some m' \<and> mq_err (mm_mq m') = 0 \<and>
    (sts = [] \<longrightarrow> final_state m' = final_state m) \<and>
    (sts \<noteq> [] \<and> last sts = MEDIAMGR_STATE_NORMAL \<longrightarrow> final_state m' = MEDIAMGR_STATE_NORMAL)"
  using assms
proof (induction sts arbitrary: s m)
  case (Cons st sts)
  obtain m1 where m1: "sy_mm (mm_set_call_state (Some 0) st s) = Some m1" "mq_err (mm_mq m1) = 0"
      "fold states_msg (mq_msgs (mm_mq m1)) (states_of m1) =
        states_msg (MM_MARSHAL_CALL_STATE st) (fold states_msg (mq_msgs (mm_mq m)) (states_of m))"
    unfolding mm_set_call_state_def by (rule post_final [OF Cons.prems])
  have "st = MEDIAMGR_STATE_NORMAL \<Longrightarrow> final_state m1 = MEDIAMGR_STATE_NORMAL"
    using m1(3) by (simp add: final_state_def states_msg_def call_state_step_def split: prod.split)
  then show ?case using Cons.IH [OF m1(1,2)] by (cases sts) auto
qed simp

lemma last_mm_posts:
  "last_mm st xs = (if mm_posts xs = [] then st else last (mm_posts xs))"
  by (induction st xs rule: last_mm.induct) (auto simp: mm_posts_def)

lemma app_wcall_inv:
  assumes inv: "app_inv a" and steady: "steady ev"
  shows "app_inv (app_wcall P ud ss ev a)"
proof -
  let ?w = "wcall_step P ud ss ev (ap_wcall a)"
  have k: "keeps (ap_wcall a) ?w" by (rule wcall_step_keeps) (use steady in \<open>simp add: steady_def\<close>)
  then obtain xs where xs: "out ?w = out (ap_wcall a) @ xs" using inv by (auto simp: keeps_def app_inv_def)
  obtain m where m: "sy_mm (ap_mm a) = Some m" "mq_err (mm_mq m) = 0"
      "mm_told (ws_calling (ap_wcall a)) = MEDIAMGR_STATE_NORMAL \<Longrightarrow> final_state m = MEDIAMGR_STATE_NORMAL"
    using inv by (auto simp: app_inv_def)
  obtain m' where m': "sy_mm (fold (mm_set_call_state (Some 0)) (mm_posts xs) (ap_mm a)) = Some m'" "mq_err (mm_mq m') = 0"
      "mm_posts xs = [] \<Longrightarrow> final_state m' = final_state m"
      "mm_posts xs \<noteq> [] \<Longrightarrow> last (mm_posts xs) = MEDIAMGR_STATE_NORMAL \<Longrightarrow> final_state m' = MEDIAMGR_STATE_NORMAL"
    using posts_final [OF m(1,2), of "mm_posts xs"] by auto
  have "mm_told (ws_calling ?w) = MEDIAMGR_STATE_NORMAL \<Longrightarrow> final_state m' = MEDIAMGR_STATE_NORMAL"
    using m(3) m'(3,4) last_mm_posts [of _ xs] by (auto simp: xs split: if_splits)
  then show ?thesis
    using k inv m' by (auto simp: app_inv_def app_wcall_def Let_def xs keeps_def)
qed

lemma app_post_inv:
  assumes inv: "app_inv a" and steady: "app_steady (A_mm msg)"
  shows "app_inv (a\<lparr>ap_mm := mm_post (Some 0) msg (ap_mm a)\<rparr>)"
proof -
  obtain m where m: "sy_mm (ap_mm a) = Some m" "mq_err (mm_mq m) = 0"
      "mm_told (ws_calling (ap_wcall a)) = MEDIAMGR_STATE_NORMAL \<Longrightarrow> final_state m = MEDIAMGR_STATE_NORMAL"
    using inv by (auto simp: app_inv_def)
  obtain m' where m': "sy_mm (mm_post (Some 0) msg (ap_mm a)) = Some m'" "mq_err (mm_mq m') = 0"
    "fold states_msg (mq_msgs (mm_mq m')) (states_of m') = states_msg msg (fold states_msg (mq_msgs (mm_mq m)) (states_of m))"
    by (rule post_final [OF m(1,2)])
  have "final_state m = MEDIAMGR_STATE_NORMAL \<Longrightarrow> final_state m' = MEDIAMGR_STATE_NORMAL"
    using steady m'(3)
    by (cases msg) (auto simp: final_state_def states_msg_def call_state_step_def split: prod.splits)
  then show ?thesis using inv m m' by (simp add: app_inv_def)
qed

lemma app_dispatch_inv:
  assumes inv: "app_inv a"
  shows "app_inv (a\<lparr>ap_mm := mm_dispatch F (ap_mm a)\<rparr>)"
proof -
  obtain m where m: "sy_mm (ap_mm a) = Some m" "mq_err (mm_mq m) = 0" using inv by (auto simp: app_inv_def)
  show ?thesis
  proof (cases "mm_started m \<and> mq_msgs (mm_mq m) \<noteq> []")
    case True
    then obtain msg q where q: "mq_msgs (mm_mq m) = msg # q" by (cases "mq_msgs (mm_mq m)") auto
    let ?m = "mm_mqueue_handler F msg (m\<lparr>mm_mq := (mm_mq m)\<lparr>mq_msgs := q\<rparr>\<rparr>)"
    have "mm_dispatch F (ap_mm a) = (ap_mm a)\<lparr>sy_mm := Some ?m\<rparr>"
      using True q m by (simp add: mm_dispatch_def mqueue_read_def)
    moreover have "final_state ?m = final_state m"
      by (simp add: final_state_def states_handler handler_mq q) (simp add: states_of_def)
    ultimately show ?thesis using inv m by (simp add: app_inv_def handler_mq)
  next
    case False
    then have "mm_dispatch F (ap_mm a) = ap_mm a"
      using m by (auto simp: mm_dispatch_def mqueue_read_def split: list.split)
    then show ?thesis using inv by simp
  qed
qed

lemma app_step_inv:
  assumes "app_inv a" "app_steady ev"
  shows "app_inv (app_step P ud ss F ev a)"
proof (cases ev)
  case A_mm_dispatch
  have "app_inv (fold (\<lambda>st. app_wcall P ud ss (W_mcat st)) sts b)" if "app_inv b" for sts b
    using that by (induction sts arbitrary: b) (simp_all add: app_wcall_inv steady_def)
  then show ?thesis using app_dispatch_inv [OF assms(1), of F] A_mm_dispatch by (simp add: Let_def)
qed (use assms in \<open>auto simp: app_wcall_inv app_post_inv\<close>)

lemma app_run_inv:
  "list_all app_steady evs \<Longrightarrow> app_inv a \<Longrightarrow> app_inv (run (app_step P ud ss F) evs a)"
  by (induction evs arbitrary: a) (simp_all add: app_step_inv)

lemma config_ca_mm: "ca_mm (call_config_handler ud ss srvv ca) = ca_mm ca"
  using config_unreported [of ca ud ss srvv] by (simp add: unreported_def)

lemma init_mm:
  assumes "wcall_init ud ss us cl h e1 e2 cfg s = (0, w)"
  shows "ca_mm (ws_calling w) \<and> mm_told (ws_calling w) = MEDIAMGR_STATE_NORMAL"
  using assms by (auto simp: wcall_init_def Let_def config_ca_mm split: if_splits option.splits)

lemma app_start_inv:
  assumes "wcall_init ud ss us cl h e1 e2 cfg (run (wcall_step P ud ss) evs0 (wsys0 msys x)) = (0, w)"
  shows "app_inv \<lparr>ap_wcall = w, ap_mm = mediamgr_alloc F (mmsys0 p)\<rparr>"
proof -
  have "wsys_inv w"
    using wcall_init_inv [OF reach_inv, of ud ss us cl h e1 e2 cfg P] assms by (metis snd_conv)
  then show ?thesis
    using init_mm [OF assms]
    by (simp add: app_inv_def mm_inv_def mediamgr_alloc_def mmsys0_def mm_alloc_fields mqueue_alloc_def
        final_state_def states_of_def)
qed

text \<open>
  C5. The audio of the device is released: however calls, the application and the media manager are
  interleaved, once no call is left and the media manager has worked off its queue it is in its
  normal state.
\<close>

theorem audio_released:
  fixes P :: "('m, 'x wworld, 'f) media" and F :: "'p platform"
  assumes "wcall_init ud ss us cl h e1 e2 cfg (run (wcall_step P ud ss) evs0 (wsys0 msys x)) = (0, w)"
    and "list_all app_steady evs"
    and "a = run (app_step P ud ss F) evs \<lparr>ap_wcall = w, ap_mm = mediamgr_alloc F (mmsys0 p)\<rparr>"
    and "\<And>i. \<not> in_list (ap_wcall a) i" and "sy_mm (ap_mm a) = Some m" "mq_msgs (mm_mq m) = []"
  shows "mm_call_state m = MEDIAMGR_STATE_NORMAL"
proof -
  have "app_inv a" unfolding assms(3) by (rule app_run_inv [OF assms(2) app_start_inv [OF assms(1)]])
  then have "final_state m = MEDIAMGR_STATE_NORMAL"
    using assms(4,5) by (simp add: app_inv_def mm_inv_def)
  then show ?thesis by (simp add: final_state_def states_of_def assms(6))
qed

text \<open>An application that has no call and asks to hold one.\<close>

definition wsys2 :: "(nat, unit) wsys" where
  "wsys2 = snd (wcall_init (\<lambda>_. Inl EINVAL) (\<lambda>_ _. Inl EINVAL) (Some ''me'') (Some ''dev'') all_handlers 0 0 None (wsys0 True ()))"

definition app2 :: "(nat, unit, mediamgr_auplay) app" where
  "app2 = run (app_step (media_ok (\<lambda>w. Some ''10.0.0.1'')) (\<lambda>_. Inl EINVAL) (\<lambda>_ _. Inl EINVAL) dummy_platform)
     [A_mm (MM_MARSHAL_CALL_STATE MEDIAMGR_STATE_HOLD), A_mm_dispatch]
     \<lparr>ap_wcall = wsys2, ap_mm = mediamgr_alloc dummy_platform (mmsys0 MEDIAMGR_AUPLAY_EARPIECE)\<rparr>"

theorem audio_released_witness:
  "\<exists>m. sy_mm (ap_mm app2) = Some m \<and> mm_call_state m = MEDIAMGR_STATE_NORMAL"
proof -
  let ?P = "media_ok (\<lambda>w. Some ''10.0.0.1'') :: (nat, unit wworld, rat) media"
  have init: "wcall_init (\<lambda>_. Inl EINVAL) (\<lambda>_ _. Inl EINVAL) (Some ''me'') (Some ''dev'') all_handlers 0 0 None
      (run (wcall_step ?P (\<lambda>_. Inl EINVAL) (\<lambda>_ _. Inl EINVAL)) [] (wsys0 True ())) = (0, wsys2)"
    by (simp add: wsys2_def wcall_init_def str_isset_def Let_def)
  let ?m0 = "mm_alloc dummy_platform MEDIAMGR_AUPLAY_EARPIECE"
  have m0: "mm_mq ?m0 = \<lparr>mq_msgs = [], mq_err = 0\<rparr>" "mm_started ?m0" "mm_call_state ?m0 = MEDIAMGR_STATE_NORMAL"
    by (simp_all add: mm_alloc_def dummy_platform_def mqueue_alloc_def)
  have a: "ap_wcall app2 = wsys2 \<and> (\<exists>m. sy_mm (ap_mm app2) = Some m \<and> mq_msgs (mm_mq m) = [])"
    using m0
    by (simp add: app2_def mediamgr_alloc_def mmsys0_def mm_post_def mqueue_push_def mm_dispatch_def mqueue_read_def
        mm_call_state_handler_def call_state_step_def app_out_def mcat_calls_def Let_def)
  have none: "\<not> in_list wsys2 i" for i
    by (simp add: wsys2_def wcall_init_def str_isset_def Let_def in_list_def)
  obtain m where m: "sy_mm (ap_mm app2) = Some m" "mq_msgs (mm_mq m) = []" using a by blast
  have "mm_call_state m = MEDIAMGR_STATE_NORMAL"
    by (rule audio_released [OF init _ app2_def _ m]) (use a none in \<open>simp_all add: list_all_iff\<close>)
  with m(1) show ?thesis by blast
qed

end
