(* ===== verification/Mbuf.thy ===== *)
theory Mbuf
  imports Prelude
begin

unbundle bit_operations_syntax

text \<open>
  Memory buffers, \<^verbatim>\<open>contrib/re/src/mbuf/mbuf.c\<close> and \<^verbatim>\<open>re_mbuf.h\<close>: the bytes of a buffer, a position and the
  end of the data. Every packet of the media transport lives in one.

  The size of the buffer is the length of its bytes. Allocation succeeds, so what can only fail for
  lack of memory returns the new buffer alone; a byte that was never written is 0. Sizes are numbers
  of bytes in memory and do not wrap. The host is little-endian.
\<close>

section \<open>Words in memory\<close>

definition mem_bytes :: "'a::len word \<Rightarrow> u8 list" where
  "mem_bytes w = map (\<lambda>i. ucast (drop_bit (8 * i) w)) [0..<LENGTH('a) div 8]"

definition of_mem :: "u8 list \<Rightarrow> 'a::len word" where
  "of_mem bs = foldr (\<lambda>b w. push_bit 8 w OR ucast b) bs 0"

text \<open>\<^verbatim>\<open>htons\<close>, \<^verbatim>\<open>htonl\<close> and their inverses.\<close>

definition hton :: "'a::len word \<Rightarrow> 'a word" where
  "hton w = of_mem (rev (mem_bytes w))"

abbreviation ntoh :: "'a::len word \<Rightarrow> 'a word" where
  "ntoh \<equiv> hton"

section \<open>Buffers\<close>

record mbuf =
  mb_buf :: "u8 list"
  mb_pos :: nat
  mb_end :: nat

abbreviation mb_size :: "mbuf \<Rightarrow> nat" where
  "mb_size mb \<equiv> length (mb_buf mb)"

text \<open>\<^verbatim>\<open>memcpy\<close> to the offset \<open>i\<close>.\<close>

definition mem_put :: "nat \<Rightarrow> u8 list \<Rightarrow> u8 list \<Rightarrow> u8 list" where
  "mem_put i bs xs = take i xs @ bs @ drop (i + length bs) xs"

definition mbuf_get_left :: "mbuf \<Rightarrow> nat" where
  "mbuf_get_left mb = mb_end mb - mb_pos mb"

definition mbuf_get_space :: "mbuf \<Rightarrow> nat" where
  "mbuf_get_space mb = mb_size mb - mb_pos mb"

text \<open>The bytes a client reads at \<^verbatim>\<open>mbuf_buf (mb)\<close>, up to the end.\<close>

definition mbuf_rest :: "mbuf \<Rightarrow> u8 list" where
  "mbuf_rest mb = take (mbuf_get_left mb) (drop (mb_pos mb) (mb_buf mb))"

definition mbuf_resize :: "nat \<Rightarrow> mbuf \<Rightarrow> mbuf" where
  "mbuf_resize n mb = mb\<lparr>mb_buf := take n (mb_buf mb) @ replicate (n - mb_size mb) 0\<rparr>"

definition mbuf_init :: mbuf where
  "mbuf_init = \<lparr>mb_buf = [], mb_pos = 0, mb_end = 0\<rparr>"

definition mbuf_alloc :: "nat \<Rightarrow> mbuf" where
  "mbuf_alloc n = mbuf_resize (if n = 0 then 512 else n) mbuf_init"

definition mbuf_reset :: "mbuf \<Rightarrow> mbuf" where
  "mbuf_reset mb = mbuf_init"

definition mbuf_trim :: "mbuf \<Rightarrow> mbuf" where
  "mbuf_trim mb = (if mb_end mb = 0 \<or> mb_end mb = mb_size mb then mb else mbuf_resize (mb_end mb) mb)"

definition mbuf_shift :: "int \<Rightarrow> mbuf \<Rightarrow> int \<times> mbuf" where
  "mbuf_shift shift mb =
     (if int (mb_pos mb) + shift < 0 \<or> int (mb_end mb) + shift < 0 then (ERANGE, mb)
      else
        let rsize = nat (int (mb_end mb) + shift);
            mb = (if rsize > mb_size mb then mbuf_resize rsize mb else mb);
            pos = nat (int (mb_pos mb) + shift)
        in (0, mb\<lparr>mb_buf := mem_put pos (mbuf_rest mb) (mb_buf mb), mb_pos := pos, mb_end := rsize\<rparr>))"

text \<open>Room for \<open>n\<close> bytes at the position: the buffer at least doubles.\<close>

definition mbuf_grow :: "nat \<Rightarrow> mbuf \<Rightarrow> mbuf" where
  "mbuf_grow n mb =
     (let rsize = mb_pos mb + n
      in if rsize > mb_size mb
         then mbuf_resize (max rsize (if mb_size mb = 0 then 512 else mb_size mb * 2)) mb
         else mb)"

definition mbuf_write_mem :: "u8 list \<Rightarrow> mbuf \<Rightarrow> mbuf" where
  "mbuf_write_mem bs mb =
     (let mb = mbuf_grow (length bs) mb;
          pos = mb_pos mb + length bs
      in mb\<lparr>mb_buf := mem_put (mb_pos mb) bs (mb_buf mb), mb_pos := pos, mb_end := max (mb_end mb) pos\<rparr>)"

definition mbuf_write_u8 :: "u8 \<Rightarrow> mbuf \<Rightarrow> mbuf" where
  "mbuf_write_u8 v = mbuf_write_mem (mem_bytes v)"

definition mbuf_write_u16 :: "u16 \<Rightarrow> mbuf \<Rightarrow> mbuf" where
  "mbuf_write_u16 v = mbuf_write_mem (mem_bytes v)"

definition mbuf_write_u32 :: "u32 \<Rightarrow> mbuf \<Rightarrow> mbuf" where
  "mbuf_write_u32 v = mbuf_write_mem (mem_bytes v)"

definition mbuf_write_u64 :: "u64 \<Rightarrow> mbuf \<Rightarrow> mbuf" where
  "mbuf_write_u64 v = mbuf_write_mem (mem_bytes v)"

definition mbuf_write_str :: "cptr \<Rightarrow> mbuf \<Rightarrow> int \<times> mbuf" where
  "mbuf_write_str str mb =
     (case str of None \<Rightarrow> (EINVAL, mb) | Some s \<Rightarrow> (0, mbuf_write_mem (map of_char s) mb))"

text \<open>A pointer-length string is an offset and a length into some memory.\<close>

definition mbuf_write_pl_skip :: "u8 list \<Rightarrow> nat \<times> nat \<Rightarrow> nat \<times> nat \<Rightarrow> mbuf \<Rightarrow> int \<times> mbuf" where
  "mbuf_write_pl_skip m = (\<lambda>(p, l) (sp, sl) mb.
     if p > sp \<or> sp + sl > p + l then (ERANGE, mb)
     else (0, mbuf_write_mem (take (p + l - (sp + sl)) (drop (sp + sl) m))
                (mbuf_write_mem (take (sp - p) (drop p m)) mb)))"

definition mbuf_fill :: "u8 \<Rightarrow> nat \<Rightarrow> mbuf \<Rightarrow> int \<times> mbuf" where
  "mbuf_fill c n mb =
     (if n = 0 then (EINVAL, mb)
      else
        let mb = mbuf_grow n mb;
            pos = mb_pos mb + n
        in (0, mb\<lparr>mb_buf := mem_put (mb_pos mb) (replicate n c) (mb_buf mb), mb_pos := pos,
                  mb_end := max (mb_end mb) pos\<rparr>))"

definition mbuf_read_mem :: "nat \<Rightarrow> mbuf \<Rightarrow> int \<times> u8 list \<times> mbuf" where
  "mbuf_read_mem n mb =
     (if n > mbuf_get_left mb then (EOVERFLOW, [], mb)
      else (0, take n (drop (mb_pos mb) (mb_buf mb)), mb\<lparr>mb_pos := mb_pos mb + n\<rparr>))"

text \<open>A word that is not there completely is read as 0, and the position stays.\<close>

definition mbuf_read_word :: "mbuf \<Rightarrow> 'a::len word \<times> mbuf" where
  "mbuf_read_word mb =
     (case mbuf_read_mem (LENGTH('a) div 8) mb of (err, bs, mb') \<Rightarrow> (if err = 0 then of_mem bs else 0, mb'))"

definition mbuf_read_u8 :: "mbuf \<Rightarrow> u8 \<times> mbuf" where
  "mbuf_read_u8 = mbuf_read_word"

definition mbuf_read_u16 :: "mbuf \<Rightarrow> u16 \<times> mbuf" where
  "mbuf_read_u16 = mbuf_read_word"

definition mbuf_read_u32 :: "mbuf \<Rightarrow> u32 \<times> mbuf" where
  "mbuf_read_u32 = mbuf_read_word"

definition mbuf_read_u64 :: "mbuf \<Rightarrow> u64 \<times> mbuf" where
  "mbuf_read_u64 = mbuf_read_word"

fun mbuf_read_str :: "nat \<Rightarrow> mbuf \<Rightarrow> u8 list \<times> mbuf" where
  "mbuf_read_str 0 mb = ([], mb)"
| "mbuf_read_str (Suc n) mb =
     (let (c, mb) = mbuf_read_u8 mb
      in if c = 0 then ([c], mb)
         else let (cs, mb) = mbuf_read_str n mb in (c # cs, mb))"

definition mbuf_strdup :: "nat \<Rightarrow> mbuf \<Rightarrow> int \<times> u8 list \<times> mbuf" where
  "mbuf_strdup len mb = mbuf_read_mem len mb"

definition mbuf_set_pos :: "nat \<Rightarrow> mbuf \<Rightarrow> mbuf" where
  "mbuf_set_pos pos mb = mb\<lparr>mb_pos := pos\<rparr>"

definition mbuf_set_end :: "nat \<Rightarrow> mbuf \<Rightarrow> mbuf" where
  "mbuf_set_end e mb = mb\<lparr>mb_end := e\<rparr>"

definition mbuf_advance :: "int \<Rightarrow> mbuf \<Rightarrow> mbuf" where
  "mbuf_advance n mb = mb\<lparr>mb_pos := nat (int (mb_pos mb) + n)\<rparr>"

definition mbuf_rewind :: "mbuf \<Rightarrow> mbuf" where
  "mbuf_rewind mb = mb\<lparr>mb_pos := 0, mb_end := 0\<rparr>"

definition mbuf_skip_to_end :: "mbuf \<Rightarrow> mbuf" where
  "mbuf_skip_to_end mb = mb\<lparr>mb_pos := mb_end mb\<rparr>"

section \<open>Lemmas on words in memory\<close>

lemma length_mem_bytes [simp]: "length (mem_bytes (w :: 'a::len word)) = LENGTH('a) div 8"
  by (simp add: mem_bytes_def)

lemma bit_of_mem_iff:
  "bit (of_mem bs :: 'a::len word) n \<longleftrightarrow>
     n < LENGTH('a) \<and> n div 8 < length bs \<and> bit (bs ! (n div 8)) (n mod 8)"
proof (induction bs arbitrary: n)
  case Nil
  show ?case by (simp add: of_mem_def)
next
  case (Cons b bs)
  have e: "(of_mem (b # bs) :: 'a word) = push_bit 8 (of_mem bs) OR ucast b"
    by (simp add: of_mem_def)
  show ?case
  proof (cases "n < 8")
    case True
    then show ?thesis by (auto simp: e bit_simps dest: bit_imp_le_length)
  next
    case False
    then have "n div 8 = Suc ((n - 8) div 8)" "n mod 8 = (n - 8) mod 8"
      by (simp_all add: le_div_geq le_mod_geq)
    moreover have "\<not> bit b n"
      using False by (auto dest: bit_imp_le_length)
    ultimately show ?thesis
      using False by (auto simp: e bit_simps Cons.IH)
  qed
qed

lemma of_mem_mem_bytes:
  assumes "8 dvd LENGTH('a::len)"
  shows "of_mem (mem_bytes w) = (w :: 'a word)"
proof (rule bit_word_eqI)
  fix n assume n: "n < LENGTH('a)"
  then have "n div 8 < LENGTH('a) div 8"
    using assms by (metis dvd_div_mult_self less_mult_imp_div_less)
  with n show "bit (of_mem (mem_bytes w) :: 'a word) n = bit w n"
    by (simp add: bit_of_mem_iff mem_bytes_def bit_simps)
qed

lemma mem_bytes_of_mem:
  assumes "8 * length bs = LENGTH('a::len)"
  shows "mem_bytes (of_mem bs :: 'a word) = bs"
proof (rule nth_equalityI)
  show "length (mem_bytes (of_mem bs :: 'a word)) = length bs"
    using assms [symmetric] by simp
next
  fix i assume "i < length (mem_bytes (of_mem bs :: 'a word))"
  then have i: "i < length bs" "i < LENGTH('a) div 8"
    using assms [symmetric] by simp_all
  show "mem_bytes (of_mem bs :: 'a word) ! i = bs ! i"
  proof (rule bit_word_eqI)
    fix n assume n: "n < LENGTH(8)"
    then have "8 * i + n < LENGTH('a)"
      using i(1) assms by simp
    with n i show "bit (mem_bytes (of_mem bs :: 'a word) ! i) n = bit (bs ! i) n"
      by (simp add: mem_bytes_def bit_simps bit_of_mem_iff)
  qed
qed

lemma mem_bytes_hton:
  "8 dvd LENGTH('a::len) \<Longrightarrow> mem_bytes (hton (w :: 'a word)) = rev (mem_bytes w)"
  by (simp add: hton_def mem_bytes_of_mem)

lemma hton_hton: "8 dvd LENGTH('a::len) \<Longrightarrow> hton (hton w) = (w :: 'a word)"
  using mem_bytes_hton [of w] by (simp add: hton_def [of "hton w"] of_mem_mem_bytes)

lemma mem_bytes_8 [simp]: "mem_bytes (w :: u8) = [w]"
  by (simp add: mem_bytes_def)

lemma mem_bytes_words:
  "mem_bytes (v :: u16) = [ucast v, ucast (drop_bit 8 v)]"
  "mem_bytes (w :: u32) = [ucast w, ucast (drop_bit 8 w), ucast (drop_bit 16 w), ucast (drop_bit 24 w)]"
  by (simp_all add: mem_bytes_def upt_rec)

lemmas hton_16 [simp] = hton_hton [where 'a = 16, simplified]
lemmas hton_32 [simp] = hton_hton [where 'a = 32, simplified]
lemmas of_mem_8 [simp] = of_mem_mem_bytes [where 'a = 8, simplified]
lemmas of_mem_16 [simp] = of_mem_mem_bytes [where 'a = 16, simplified]
lemmas of_mem_32 [simp] = of_mem_mem_bytes [where 'a = 32, simplified]
lemmas of_mem_64 [simp] = of_mem_mem_bytes [where 'a = 64, simplified]

section \<open>Lemmas on buffers\<close>

text \<open>
  The data of a buffer are its bytes up to the end. For a buffer whose position and end are in order
  the operations are operations on the data, whatever lies behind the end.
\<close>

definition mb_data :: "mbuf \<Rightarrow> u8 list" where
  "mb_data mb = take (mb_end mb) (mb_buf mb)"

definition mbuf_ok :: "mbuf \<Rightarrow> bool" where
  "mbuf_ok mb \<longleftrightarrow> mb_pos mb \<le> mb_end mb \<and> mb_end mb \<le> mb_size mb"

lemma length_mem_put [simp]:
  "i + length bs \<le> length xs \<Longrightarrow> length (mem_put i bs xs) = length xs"
  by (simp add: mem_put_def)

lemma mem_put_end [simp]: "mem_put (length xs) bs xs = xs @ bs"
  by (simp add: mem_put_def)

lemma mem_put_Nil [simp]: "mem_put i [] xs = xs"
  by (simp add: mem_put_def)

lemma length_mb_data [simp]: "mbuf_ok mb \<Longrightarrow> length (mb_data mb) = mb_end mb"
  by (simp add: mb_data_def mbuf_ok_def)

lemma mbuf_rest_data: "mbuf_rest mb = drop (mb_pos mb) (mb_data mb)"
  by (simp add: mbuf_rest_def mb_data_def mbuf_get_left_def drop_take)

lemma mbuf_left_rest: "mbuf_ok mb \<Longrightarrow> mbuf_get_left mb = length (mbuf_rest mb)"
  by (simp add: mbuf_rest_data mbuf_get_left_def)

lemma take_mem_put:
  assumes "i \<le> n" "n \<le> length xs" "i + length bs \<le> length xs"
  shows "take (max n (i + length bs)) (mem_put i bs xs) = mem_put i bs (take n xs)"
proof -
  have "length xs \<le> i \<Longrightarrow> bs = []"
    using assms by (cases bs) auto
  then show ?thesis
    using assms by (auto simp: mem_put_def max_def min_def drop_take)
qed

lemma mbuf_grow_simps [simp]:
  "mb_pos (mbuf_grow n mb) = mb_pos mb" "mb_end (mbuf_grow n mb) = mb_end mb"
  "mb_pos mb + n \<le> mb_size (mbuf_grow n mb)"
  by (simp_all add: mbuf_grow_def mbuf_resize_def Let_def)

lemma mbuf_grow_size: "mb_size mb \<le> mb_size (mbuf_grow n mb)"
  by (auto simp: mbuf_grow_def mbuf_resize_def Let_def max_def)

lemma mbuf_grow_take: "e \<le> mb_size mb \<Longrightarrow> take e (mb_buf (mbuf_grow n mb)) = take e (mb_buf mb)"
  by (simp add: mbuf_grow_def mbuf_resize_def Let_def min_def)

lemma mbuf_write_mem_simps [simp]:
  "mb_pos (mbuf_write_mem bs mb) = mb_pos mb + length bs"
  "mb_end (mbuf_write_mem bs mb) = max (mb_end mb) (mb_pos mb + length bs)"
  by (simp_all add: mbuf_write_mem_def Let_def)

lemma mbuf_ok_write [simp]: "mbuf_ok mb \<Longrightarrow> mbuf_ok (mbuf_write_mem bs mb)"
  using mbuf_grow_simps(3) [of mb "length bs"] mbuf_grow_size [of mb "length bs"]
  by (auto simp: mbuf_ok_def mbuf_write_mem_def Let_def)

lemma mb_data_write [simp]:
  assumes "mbuf_ok mb"
  shows "mb_data (mbuf_write_mem bs mb) = mem_put (mb_pos mb) bs (mb_data mb)"
proof -
  have "take (max (mb_end mb) (mb_pos mb + length bs)) (mem_put (mb_pos mb) bs (mb_buf (mbuf_grow (length bs) mb))) =
        mem_put (mb_pos mb) bs (take (mb_end mb) (mb_buf (mbuf_grow (length bs) mb)))"
    using assms mbuf_grow_simps(3) [of mb "length bs"] mbuf_grow_size [of mb "length bs"]
    by (intro take_mem_put) (auto simp: mbuf_ok_def)
  then show ?thesis
    using assms by (simp add: mb_data_def mbuf_write_mem_def Let_def mbuf_grow_take mbuf_ok_def)
qed

lemma mbuf_read_mem_ok:
  assumes "mbuf_ok mb" "mbuf_rest mb = bs @ r" "n = length bs"
  shows "mbuf_read_mem n mb = (0, bs, mb\<lparr>mb_pos := mb_pos mb + n\<rparr>)"
proof -
  have "n \<le> mbuf_get_left mb"
    using assms by (simp add: mbuf_left_rest)
  moreover have "take n (mbuf_rest mb) = take n (drop (mb_pos mb) (mb_buf mb))"
    using calculation by (simp add: mbuf_rest_def)
  ultimately show ?thesis
    using assms(2,3) by (simp add: mbuf_read_mem_def)
qed

lemma mbuf_rest_advance [simp]:
  "mbuf_rest (mb\<lparr>mb_pos := mb_pos mb + n\<rparr>) = drop n (mbuf_rest mb)"
  by (simp add: mbuf_rest_data mb_data_def add.commute)

lemma mbuf_ok_advance [simp]:
  "mbuf_ok mb \<Longrightarrow> mbuf_ok (mb\<lparr>mb_pos := mb_pos mb + n\<rparr>) \<longleftrightarrow> n \<le> length (mbuf_rest mb)"
  by (auto simp: mbuf_ok_def mbuf_rest_data mb_data_def)

text \<open>A cursor: the buffer after \<open>k\<close> bytes have been read.\<close>

definition mb_at :: "mbuf \<Rightarrow> nat \<Rightarrow> mbuf" where
  "mb_at mb k = mb\<lparr>mb_pos := mb_pos mb + k\<rparr>"

lemma mb_at_simps [simp]:
  "mb_at (mb_at mb j) k = mb_at mb (j + k)" "mb_pos (mb_at mb k) = mb_pos mb + k"
  "mb_end (mb_at mb k) = mb_end mb" "mb_buf (mb_at mb k) = mb_buf mb"
  "mb_data (mb_at mb k) = mb_data mb" "mbuf_rest (mb_at mb k) = drop k (mbuf_rest mb)"
  "(mb_at mb j)\<lparr>mb_pos := mb_pos mb + i\<rparr> = mb_at mb i"
  by (simp_all add: mb_at_def mb_data_def add.assoc)

lemma mb_at_0 [simp]: "mb_at mb 0 = mb"
  by (simp add: mb_at_def)

lemma mbuf_ok_at [simp]: "mbuf_ok mb \<Longrightarrow> mbuf_ok (mb_at mb k) \<longleftrightarrow> k \<le> length (mbuf_rest mb)"
  by (simp add: mb_at_def)

lemma mbuf_left_at:
  "mbuf_ok mb \<Longrightarrow> k \<le> length (mbuf_rest mb) \<Longrightarrow> mbuf_get_left (mb_at mb k) = length (mbuf_rest mb) - k"
  by (simp add: mbuf_left_rest)

lemma mbuf_read_mem_at:
  assumes "mbuf_ok mb" "k + n \<le> length (mbuf_rest mb)"
  shows "mbuf_read_mem n (mb_at mb k) = (0, take n (drop k (mbuf_rest mb)), mb_at mb (k + n))"
proof -
  have "mbuf_rest (mb_at mb k) = take n (drop k (mbuf_rest mb)) @ drop n (drop k (mbuf_rest mb))"
    by (simp only: append_take_drop_id mb_at_simps)
  from mbuf_read_mem_ok [OF _ this, of n] show ?thesis
    using assms by (simp add: mb_at_def add.assoc)
qed

lemma mbuf_read_word_at:
  assumes "mbuf_ok mb" "k + LENGTH('a::len) div 8 \<le> length (mbuf_rest mb)"
  shows "(mbuf_read_word (mb_at mb k) :: 'a word \<times> mbuf) =
           (of_mem (take (LENGTH('a) div 8) (drop k (mbuf_rest mb))), mb_at mb (k + LENGTH('a) div 8))"
  using assms by (simp add: mbuf_read_word_def mbuf_read_mem_at)

lemmas mbuf_read_at =
  mbuf_read_mem_at
  mbuf_read_word_at [where 'a = 8, simplified, folded mbuf_read_u8_def]
  mbuf_read_word_at [where 'a = 16, simplified, folded mbuf_read_u16_def]
  mbuf_read_word_at [where 'a = 32, simplified, folded mbuf_read_u32_def]
  mbuf_read_word_at [where 'a = 64, simplified, folded mbuf_read_u64_def]

text \<open>\<open>mb'\<close> is \<open>mb\<close> after \<open>bs\<close> were written at its position.\<close>

definition wrote :: "mbuf \<Rightarrow> u8 list \<Rightarrow> mbuf \<Rightarrow> bool" where
  "wrote mb bs mb' \<longleftrightarrow> mbuf_ok mb \<and> mbuf_ok mb' \<and> mb_pos mb' = mb_pos mb + length bs \<and>
     mb_data mb' = mem_put (mb_pos mb) bs (mb_data mb)"

lemma mem_put_mem_put:
  "i \<le> length xs \<Longrightarrow> mem_put (i + length as) bs (mem_put i as xs) = mem_put i (as @ bs) xs"
  by (simp add: mem_put_def min_def ac_simps)

lemma wrote_mem: "mbuf_ok mb \<Longrightarrow> wrote mb bs (mbuf_write_mem bs mb)"
  by (simp add: wrote_def)

lemma wrote_Nil: "mbuf_ok mb \<Longrightarrow> wrote mb [] mb"
  by (simp add: wrote_def)

lemma wrote_append: "wrote mb as mb1 \<Longrightarrow> wrote mb1 bs mb2 \<Longrightarrow> wrote mb (as @ bs) mb2"
  by (simp add: wrote_def mem_put_mem_put mbuf_ok_def [of mb])

lemma wrote_ok: "wrote mb bs mb' \<Longrightarrow> mbuf_ok mb'"
  by (simp add: wrote_def)

lemma wrote_fold:
  assumes "\<And>x mb. mbuf_ok mb \<Longrightarrow> wrote mb (g x) (f x mb)"
  shows "mbuf_ok mb \<Longrightarrow> wrote mb (concat (map g xs)) (fold f xs mb)"
proof (induction xs arbitrary: mb)
  case Nil
  then show ?case by (simp add: wrote_Nil)
next
  case (Cons x xs)
  then have "wrote mb (g x) (f x mb)" "wrote (f x mb) (concat (map g xs)) (fold f xs (f x mb))"
    using assms by (blast dest: wrote_ok)+
  then show ?case by (simp add: wrote_append)
qed

lemma wrote_words:
  "mbuf_ok mb \<Longrightarrow> wrote mb [v8] (mbuf_write_u8 v8 mb)"
  "mbuf_ok mb \<Longrightarrow> wrote mb (rev (mem_bytes v16)) (mbuf_write_u16 (hton v16) mb)"
  "mbuf_ok mb \<Longrightarrow> wrote mb (rev (mem_bytes v32)) (mbuf_write_u32 (hton v32) mb)"
  using wrote_mem [of mb "mem_bytes v8"] wrote_mem [of mb "mem_bytes (hton v16)"] wrote_mem [of mb "mem_bytes (hton v32)"]
  by (simp_all add: mbuf_write_u8_def mbuf_write_u16_def mbuf_write_u32_def mem_bytes_hton mem_bytes_8)

text \<open>Reading back what was written.\<close>

lemma wrote_rest:
  assumes "wrote mb bs mb'"
  shows "mbuf_rest (mb'\<lparr>mb_pos := mb_pos mb\<rparr>) = bs @ drop (mb_pos mb + length bs) (mb_data mb)"
    and "mbuf_ok (mb'\<lparr>mb_pos := mb_pos mb\<rparr>)"
proof -
  have "mb_data (mb'\<lparr>mb_pos := mb_pos mb\<rparr>) = mb_data mb'"
    by (simp add: mb_data_def)
  then show "mbuf_rest (mb'\<lparr>mb_pos := mb_pos mb\<rparr>) = bs @ drop (mb_pos mb + length bs) (mb_data mb)"
    using assms by (simp add: mbuf_rest_data wrote_def mem_put_def mbuf_ok_def [of mb])
  show "mbuf_ok (mb'\<lparr>mb_pos := mb_pos mb\<rparr>)"
    using assms by (simp add: wrote_def mbuf_ok_def)
qed

end
