(* ===== verification/Rtp.thy ===== *)
theory Rtp
  imports Mbuf
begin

unbundle bit_operations_syntax

text \<open>
  RTP headers, \<^verbatim>\<open>contrib/re/src/rtp/rtp.c\<close>: encoding and decoding a header at the position of a buffer,
  and the numbering of the packets of a socket.
\<close>

section \<open>Definitions\<close>

abbreviation RTP_VERSION :: u8 where "RTP_VERSION \<equiv> 2"
abbreviation RTP_HEADER_SIZE :: nat where "RTP_HEADER_SIZE \<equiv> 12"

text \<open>The list of contributing sources holds the entries of the array that are in use.\<close>

record rtp_header =
  rh_ver :: u8
  rh_pad :: bool
  rh_ext :: bool
  rh_cc :: u8
  rh_m :: bool
  rh_pt :: u8
  rh_seq :: u16
  rh_ts :: u32
  rh_ssrc :: u32
  rh_csrc :: "u32 list"
  rh_x_type :: u16
  rh_x_len :: u16

definition rtp_header_zero :: rtp_header where
  "rtp_header_zero = \<lparr>rh_ver = 0, rh_pad = False, rh_ext = False, rh_cc = 0, rh_m = False, rh_pt = 0,
     rh_seq = 0, rh_ts = 0, rh_ssrc = 0, rh_csrc = [], rh_x_type = 0, rh_x_len = 0\<rparr>"

definition rtp_hdr_encode :: "rtp_header \<Rightarrow> mbuf \<Rightarrow> mbuf" where
  "rtp_hdr_encode hdr mb =
     (let buf0 = push_bit 6 (rh_ver hdr AND 0x02) OR push_bit 5 (of_bool (rh_pad hdr)) OR
                 push_bit 4 (of_bool (rh_ext hdr)) OR (rh_cc hdr AND 0x0f);
          buf1 = push_bit 7 (of_bool (rh_m hdr)) OR (rh_pt hdr AND 0x7f);
          mb = mbuf_write_mem [buf0, buf1] mb;
          mb = mbuf_write_u16 (hton (rh_seq hdr)) mb;
          mb = mbuf_write_u32 (hton (rh_ts hdr)) mb;
          mb = mbuf_write_u32 (hton (rh_ssrc hdr)) mb
      in fold (\<lambda>c. mbuf_write_u32 (hton c)) (take (unat (rh_cc hdr)) (rh_csrc hdr)) mb)"

text \<open>The loop over the contributing sources.\<close>

fun read_csrc :: "nat \<Rightarrow> mbuf \<Rightarrow> u32 list \<times> mbuf" where
  "read_csrc 0 mb = ([], mb)"
| "read_csrc (Suc n) mb =
     (let (c, mb) = mbuf_read_u32 mb; (cs, mb) = read_csrc n mb in (ntoh c # cs, mb))"

definition rtp_hdr_decode :: "rtp_header \<Rightarrow> mbuf \<Rightarrow> int \<times> rtp_header \<times> mbuf" where
  "rtp_hdr_decode hdr mb =
     (if mbuf_get_left mb < RTP_HEADER_SIZE then (EBADMSG, hdr, mb)
      else
        let (err, buf, mb) = mbuf_read_mem 2 mb
        in if err \<noteq> 0 then (err, hdr, mb)
           else
             let hdr = hdr\<lparr>rh_ver := drop_bit 6 (buf ! 0) AND 0x03,
                           rh_pad := (drop_bit 5 (buf ! 0) AND 0x01 \<noteq> 0),
                           rh_ext := (drop_bit 4 (buf ! 0) AND 0x01 \<noteq> 0),
                           rh_cc := buf ! 0 AND 0x0f,
                           rh_m := (drop_bit 7 (buf ! 1) AND 0x01 \<noteq> 0),
                           rh_pt := buf ! 1 AND 0x7f\<rparr>;
                 (sq, mb) = mbuf_read_u16 mb;
                 (ts, mb) = mbuf_read_u32 mb;
                 (ssrc, mb) = mbuf_read_u32 mb;
                 hdr = hdr\<lparr>rh_seq := ntoh sq, rh_ts := ntoh ts, rh_ssrc := ntoh ssrc\<rparr>
             in if mbuf_get_left mb < unat (rh_cc hdr) * 4 then (EBADMSG, hdr, mb)
                else
                  let (cs, mb) = read_csrc (unat (rh_cc hdr)) mb;
                      hdr = hdr\<lparr>rh_csrc := cs\<rparr>
                  in if \<not> rh_ext hdr then (0, hdr, mb)
                     else if mbuf_get_left mb < 4 then (EBADMSG, hdr, mb)
                     else
                       let (t, mb) = mbuf_read_u16 mb;
                           (l, mb) = mbuf_read_u16 mb;
                           hdr = hdr\<lparr>rh_x_type := ntoh t, rh_x_len := ntoh l\<rparr>
                       in if mbuf_get_left mb < unat (rh_x_len hdr) * 4 then (EBADMSG, hdr, mb)
                          else (0, hdr, mb\<lparr>mb_pos := mb_pos mb + unat (rh_x_len hdr) * 4\<rparr>))"

text \<open>The sending side of a socket: the number of the next packet and the source it sends as.\<close>

record rtp_sock =
  rs_seq :: u16
  rs_ssrc :: u32

definition rtp_encode :: "bool \<Rightarrow> u8 \<Rightarrow> u32 \<Rightarrow> mbuf \<Rightarrow> rtp_sock \<Rightarrow> int \<times> mbuf \<times> rtp_sock" where
  "rtp_encode marker pt ts mb rs =
     (if pt AND NOT 0x7f \<noteq> 0 then (EINVAL, mb, rs)
      else
        (0, rtp_hdr_encode
              (rtp_header_zero\<lparr>rh_ver := RTP_VERSION, rh_m := marker, rh_pt := pt, rh_seq := rs_seq rs,
                               rh_ts := ts, rh_ssrc := rs_ssrc rs\<rparr>) mb,
         rs\<lparr>rs_seq := rs_seq rs + 1\<rparr>))"

definition rtp_decode :: "mbuf \<Rightarrow> int \<times> rtp_header \<times> mbuf" where
  "rtp_decode mb =
     (let (err, hdr, mb) = rtp_hdr_decode rtp_header_zero mb
      in if err \<noteq> 0 then (err, hdr, mb)
         else if rh_ver hdr \<noteq> RTP_VERSION then (EBADMSG, hdr, mb)
         else (0, hdr, mb))"

section \<open>A header as a function of the bytes\<close>

text \<open>
  A successful decoder reads a header off the front of the remaining bytes; how long it is and what
  it says depends on these bytes only.
\<close>

definition rtp_csrcs :: "nat \<Rightarrow> u8 list \<Rightarrow> u32 list" where
  "rtp_csrcs n bs = map (\<lambda>i. hton (of_mem (take 4 (drop (4 * i) bs)))) [0..<n]"

lemma read_csrc_at:
  "mbuf_ok mb \<Longrightarrow> k + 4 * n \<le> length (mbuf_rest mb) \<Longrightarrow>
     read_csrc n (mb_at mb k) = (rtp_csrcs n (drop k (mbuf_rest mb)), mb_at mb (k + 4 * n))"
proof (induction n arbitrary: k)
  case 0
  then show ?case by (simp add: rtp_csrcs_def)
next
  case (Suc n)
  have "read_csrc n (mb_at mb (k + 4)) =
          (rtp_csrcs n (drop (k + 4) (mbuf_rest mb)), mb_at mb (k + 4 + 4 * n))"
    using Suc.prems by (intro Suc.IH) simp_all
  moreover have "rtp_csrcs (Suc n) bs = hton (of_mem (take 4 bs)) # rtp_csrcs n (drop 4 bs)" for bs
    by (simp add: rtp_csrcs_def upt_conv_Cons map_Suc_upt [symmetric] add.commute del: upt_Suc)
  ultimately show ?case
    using Suc.prems by (simp add: mbuf_read_at add.commute)
qed

definition rtp_cc :: "u8 list \<Rightarrow> nat" where
  "rtp_cc bs = unat (bs ! 0 AND 0x0f)"

definition rtp_ext :: "u8 list \<Rightarrow> bool" where
  "rtp_ext bs \<longleftrightarrow> drop_bit 4 (bs ! 0) AND 0x01 \<noteq> 0"

definition rtp_u16 :: "nat \<Rightarrow> u8 list \<Rightarrow> u16" where
  "rtp_u16 i bs = hton (of_mem (take 2 (drop i bs)))"

definition rtp_u32 :: "nat \<Rightarrow> u8 list \<Rightarrow> u32" where
  "rtp_u32 i bs = hton (of_mem (take 4 (drop i bs)))"

definition rtp_len :: "u8 list \<Rightarrow> nat" where
  "rtp_len bs =
     (if rtp_ext bs then 16 + 4 * rtp_cc bs + 4 * unat (rtp_u16 (14 + 4 * rtp_cc bs) bs)
      else 12 + 4 * rtp_cc bs)"

definition rtp_ok :: "u8 list \<Rightarrow> bool" where
  "rtp_ok bs \<longleftrightarrow> 12 \<le> length bs \<and> 12 + 4 * rtp_cc bs \<le> length bs \<and>
     (rtp_ext bs \<longrightarrow> 16 + 4 * rtp_cc bs \<le> length bs) \<and> rtp_len bs \<le> length bs"

definition rtp_hdr_of :: "rtp_header \<Rightarrow> u8 list \<Rightarrow> rtp_header" where
  "rtp_hdr_of hdr bs =
     (let hdr = hdr\<lparr>rh_ver := drop_bit 6 (bs ! 0) AND 0x03,
                    rh_pad := (drop_bit 5 (bs ! 0) AND 0x01 \<noteq> 0), rh_ext := rtp_ext bs,
                    rh_cc := bs ! 0 AND 0x0f, rh_m := (drop_bit 7 (bs ! 1) AND 0x01 \<noteq> 0),
                    rh_pt := bs ! 1 AND 0x7f, rh_seq := rtp_u16 2 bs, rh_ts := rtp_u32 4 bs,
                    rh_ssrc := rtp_u32 8 bs, rh_csrc := rtp_csrcs (rtp_cc bs) (drop 12 bs)\<rparr>
      in if rtp_ext bs
         then hdr\<lparr>rh_x_type := rtp_u16 (12 + 4 * rtp_cc bs) bs, rh_x_len := rtp_u16 (14 + 4 * rtp_cc bs) bs\<rparr>
         else hdr)"

lemmas rtp_parse_defs = rtp_cc_def rtp_ext_def rtp_u16_def rtp_u32_def

lemma rtp_take2 [simp]: "rtp_cc (take 2 bs) = rtp_cc bs" "rtp_ext (take 2 bs) = rtp_ext bs"
  by (simp_all add: rtp_cc_def rtp_ext_def)

lemmas rtp_folds =
  rtp_cc_def [symmetric] rtp_ext_def [symmetric] rtp_u16_def [symmetric] rtp_u32_def [symmetric]

text \<open>The fixed part of a header.\<close>

definition rtp_fixed :: "rtp_header \<Rightarrow> u8 list \<Rightarrow> rtp_header" where
  "rtp_fixed hdr bs =
     hdr\<lparr>rh_ver := drop_bit 6 (bs ! 0) AND 0x03, rh_pad := (drop_bit 5 (bs ! 0) AND 0x01 \<noteq> 0),
         rh_ext := rtp_ext bs, rh_cc := bs ! 0 AND 0x0f, rh_m := (drop_bit 7 (bs ! 1) AND 0x01 \<noteq> 0),
         rh_pt := bs ! 1 AND 0x7f, rh_seq := rtp_u16 2 bs, rh_ts := rtp_u32 4 bs,
         rh_ssrc := rtp_u32 8 bs\<rparr>"

lemma rtp_hdr_decode_fixed:
  assumes "mbuf_ok mb" "12 \<le> length (mbuf_rest mb)"
  shows "rtp_hdr_decode hdr mb =
     (let bs = mbuf_rest mb; hdr = rtp_fixed hdr bs
      in if length bs < 12 + 4 * rtp_cc bs then (EBADMSG, hdr, mb_at mb 12)
         else
           let (cs, mb) = read_csrc (rtp_cc bs) (mb_at mb 12); hdr = hdr\<lparr>rh_csrc := cs\<rparr>
           in if \<not> rtp_ext bs then (0, hdr, mb)
              else if mbuf_get_left mb < 4 then (EBADMSG, hdr, mb)
              else
                let (t, mb) = mbuf_read_u16 mb; (l, mb) = mbuf_read_u16 mb;
                    hdr = hdr\<lparr>rh_x_type := ntoh t, rh_x_len := ntoh l\<rparr>
                in if mbuf_get_left mb < unat (rh_x_len hdr) * 4 then (EBADMSG, hdr, mb)
                   else (0, hdr, mb\<lparr>mb_pos := mb_pos mb + unat (rh_x_len hdr) * 4\<rparr>))"
proof -
  have "mbuf_read_mem 2 mb = (0, take 2 (mbuf_rest mb), mb_at mb 2)"
    using assms mbuf_read_mem_at [where k = 0 and n = 2, of mb] by simp
  moreover have "length (mbuf_rest mb) - 12 < rtp_cc bs * 4 \<longleftrightarrow> length (mbuf_rest mb) < 12 + 4 * rtp_cc bs" for bs
    using assms(2) by arith
  ultimately show ?thesis
    using assms
    by (simp add: rtp_hdr_decode_def mbuf_left_rest mbuf_left_at mbuf_read_at rtp_folds rtp_fixed_def Let_def
        del: add_2_eq_Suc' cong: if_cong)
qed

lemma rtp_hdr_decode_ext:
  assumes "mbuf_ok mb" "12 + 4 * rtp_cc (mbuf_rest mb) \<le> length (mbuf_rest mb)"
  shows "rtp_hdr_decode hdr mb =
     (let bs = mbuf_rest mb; o4 = 12 + 4 * rtp_cc bs;
          hdr = (rtp_fixed hdr bs)\<lparr>rh_csrc := rtp_csrcs (rtp_cc bs) (drop 12 bs)\<rparr>
      in if \<not> rtp_ext bs then (0, hdr, mb_at mb o4)
         else if length bs < o4 + 4 then (EBADMSG, hdr, mb_at mb o4)
         else
           let hdr = hdr\<lparr>rh_x_type := rtp_u16 o4 bs, rh_x_len := rtp_u16 (o4 + 2) bs\<rparr>
           in if length bs < rtp_len bs then (EBADMSG, hdr, mb_at mb (o4 + 4))
              else (0, hdr, mb_at mb (rtp_len bs)))"
proof -
  let ?bs = "mbuf_rest mb" and ?o = "12 + 4 * rtp_cc (mbuf_rest mb)"
  have d: "rtp_hdr_decode hdr mb =
     (let bs = ?bs; hdr = (rtp_fixed hdr bs)\<lparr>rh_csrc := rtp_csrcs (rtp_cc bs) (drop 12 bs)\<rparr>; mb = mb_at mb ?o
      in if \<not> rtp_ext bs then (0, hdr, mb)
         else if mbuf_get_left mb < 4 then (EBADMSG, hdr, mb)
         else
           let (t, mb) = mbuf_read_u16 mb; (l, mb) = mbuf_read_u16 mb;
               hdr = hdr\<lparr>rh_x_type := ntoh t, rh_x_len := ntoh l\<rparr>
           in if mbuf_get_left mb < unat (rh_x_len hdr) * 4 then (EBADMSG, hdr, mb)
              else (0, hdr, mb\<lparr>mb_pos := mb_pos mb + unat (rh_x_len hdr) * 4\<rparr>))"
    using assms by (simp add: rtp_hdr_decode_fixed read_csrc_at Let_def)
  show ?thesis
  proof (cases "rtp_ext ?bs \<and> ?o + 4 \<le> length ?bs")
    case False
    then show ?thesis
      using assms by (auto simp: d mbuf_left_at Let_def)
  next
    case True
    have l: "rtp_len ?bs = ?o + 4 + unat (rtp_u16 (?o + 2) ?bs) * 4"
      using True by (simp add: rtp_len_def)
    have "mbuf_read_u16 (mb_at mb ?o) = (of_mem (take 2 (drop ?o ?bs)), mb_at mb (?o + 2))"
      "mbuf_read_u16 (mb_at mb (?o + 2)) = (of_mem (take 2 (drop (?o + 2) ?bs)), mb_at mb (?o + 4))"
      using True assms by (simp_all add: mbuf_read_at)
    moreover have "mbuf_get_left (mb_at mb ?o) = length ?bs - ?o"
      "mbuf_get_left (mb_at mb (?o + 4)) = length ?bs - (?o + 4)"
      using True assms by (simp_all add: mbuf_left_at)
    moreover have "(mb_at mb (?o + 4))\<lparr>mb_pos := mb_pos (mb_at mb (?o + 4)) + n\<rparr> = mb_at mb (?o + 4 + n)" for n
      by (simp add: mb_at_def add.assoc)
    moreover have "\<not> length ?bs - ?o < 4"
      using True by arith
    moreover have "length ?bs - (?o + 4) < n \<longleftrightarrow> length ?bs < ?o + 4 + n" for n
      using True by arith
    ultimately show ?thesis
      using True by (simp add: d l rtp_u16_def [symmetric] Let_def del: mb_at_simps)
  qed
qed

lemma rtp_hdr_decode_ok:
  assumes "mbuf_ok mb" "rtp_ok (mbuf_rest mb)"
  shows "rtp_hdr_decode hdr mb = (0, rtp_hdr_of hdr (mbuf_rest mb), mb_at mb (rtp_len (mbuf_rest mb)))"
  using assms by (auto simp: rtp_hdr_decode_ext rtp_ok_def rtp_hdr_of_def rtp_fixed_def rtp_len_def Let_def)

lemma rtp_hdr_decode_bad:
  assumes "mbuf_ok mb" "\<not> rtp_ok (mbuf_rest mb)"
  shows "\<exists>hdr' k. rtp_hdr_decode hdr mb = (EBADMSG, hdr', mb_at mb k) \<and> k \<le> length (mbuf_rest mb)"
proof -
  consider "length (mbuf_rest mb) < 12" |
    "12 \<le> length (mbuf_rest mb)" "length (mbuf_rest mb) < 12 + 4 * rtp_cc (mbuf_rest mb)" |
    "12 + 4 * rtp_cc (mbuf_rest mb) \<le> length (mbuf_rest mb)" by linarith
  then show ?thesis
  proof cases
    case 1
    then have "rtp_hdr_decode hdr mb = (EBADMSG, hdr, mb_at mb 0)"
      using assms by (simp add: rtp_hdr_decode_def mbuf_left_rest)
    then show ?thesis by (metis le0)
  next
    case 2
    then show ?thesis
      using assms by (auto simp: rtp_hdr_decode_fixed Let_def intro!: exI [of _ 12])
  next
    case 3
    then have "\<exists>hdr' k. rtp_hdr_decode hdr mb = (EBADMSG, hdr', mb_at mb k) \<and>
        (k = 12 + 4 * rtp_cc (mbuf_rest mb) \<or> k = 16 + 4 * rtp_cc (mbuf_rest mb) \<and> k \<le> length (mbuf_rest mb))"
      using assms by (auto simp: rtp_hdr_decode_ext rtp_ok_def rtp_len_def Let_def split: if_splits)
    then show ?thesis
      using 3 by auto
  qed
qed

text \<open>What follows the header does not matter.\<close>

lemma rtp_prefix:
  assumes "rtp_ok bs" "take (rtp_len bs) bs' = take (rtp_len bs) bs"
  shows "rtp_ok bs'" "rtp_len bs' = rtp_len bs" "rtp_hdr_of hdr bs' = rtp_hdr_of hdr bs"
proof -
  let ?n = "rtp_len bs"
  have "min (length bs') ?n = min (length bs) ?n"
    using arg_cong [OF assms(2), of length] by (simp only: length_take)
  then have len: "?n \<le> length bs'"
    using assms(1) by (simp add: rtp_ok_def)
  have n: "12 + 4 * rtp_cc bs \<le> ?n" "rtp_ext bs \<Longrightarrow> 16 + 4 * rtp_cc bs \<le> ?n"
    by (simp_all add: rtp_len_def)
  have nth: "bs' ! i = bs ! i" if "i < ?n" for i
    using that assms(2) by (metis nth_take)
  have sl: "take k (drop i bs') = take k (drop i bs)" if "i + k \<le> ?n" for i k
  proof -
    have "take k (drop i xs) = drop i (take (i + k) (take ?n xs))" for xs :: "u8 list"
      using that by (simp add: drop_take min_def)
    then show ?thesis by (simp only: assms(2))
  qed
  have cc: "rtp_cc bs' = rtp_cc bs" and ex: "rtp_ext bs' = rtp_ext bs"
    using nth [of 0] n by (simp_all add: rtp_cc_def rtp_ext_def)
  have u16: "i + 2 \<le> ?n \<Longrightarrow> rtp_u16 i bs' = rtp_u16 i bs" and u32: "i + 4 \<le> ?n \<Longrightarrow> rtp_u32 i bs' = rtp_u32 i bs" for i
    by (simp_all add: rtp_u16_def rtp_u32_def sl del: add_2_eq_Suc')
  have cs: "rtp_csrcs (rtp_cc bs) (drop 12 bs') = rtp_csrcs (rtp_cc bs) (drop 12 bs)"
    using n(1) by (auto simp: rtp_csrcs_def intro!: arg_cong [where f = hton] arg_cong [where f = of_mem] sl)
  show l: "rtp_len bs' = ?n"
    using n u16 [of "14 + 4 * rtp_cc bs"] by (auto simp: rtp_len_def [of bs'] rtp_len_def [of bs] cc ex)
  show "rtp_ok bs'"
    using len n assms(1) by (auto simp: rtp_ok_def l cc ex)
  show "rtp_hdr_of hdr bs' = rtp_hdr_of hdr bs"
    using n u16 [of 2] u16 [of "12 + 4 * rtp_cc bs"] u16 [of "14 + 4 * rtp_cc bs"] u32 [of 4] u32 [of 8] nth [of 0] nth [of 1]
    by (cases "rtp_ext bs") (simp_all add: rtp_hdr_of_def cc ex cs Let_def)
qed

section \<open>Encoding and decoding\<close>

definition rtp_bytes :: "rtp_header \<Rightarrow> u8 list" where
  "rtp_bytes hdr =
     [push_bit 6 (rh_ver hdr AND 0x02) OR push_bit 5 (of_bool (rh_pad hdr)) OR
      push_bit 4 (of_bool (rh_ext hdr)) OR (rh_cc hdr AND 0x0f),
      push_bit 7 (of_bool (rh_m hdr)) OR (rh_pt hdr AND 0x7f)] @
     rev (mem_bytes (rh_seq hdr)) @ rev (mem_bytes (rh_ts hdr)) @ rev (mem_bytes (rh_ssrc hdr)) @
     concat (map (\<lambda>c. rev (mem_bytes c)) (take (unat (rh_cc hdr)) (rh_csrc hdr)))"

lemma rtp_hdr_encode_wrote:
  assumes "mbuf_ok mb"
  shows "wrote mb (rtp_bytes hdr) (rtp_hdr_encode hdr mb)"
proof -
  note w1 = wrote_mem [OF assms]
  note w2 = wrote_append [OF w1 wrote_words(2) [OF wrote_ok [OF w1]]]
  note w3 = wrote_append [OF w2 wrote_words(3) [OF wrote_ok [OF w2]]]
  note w4 = wrote_append [OF w3 wrote_words(3) [OF wrote_ok [OF w3]]]
  note w5 = wrote_append [OF w4 wrote_fold [where f = "\<lambda>c. mbuf_write_u32 (hton c)" and
      g = "\<lambda>c. rev (mem_bytes c)", OF wrote_words(3) wrote_ok [OF w4]]]
  show ?thesis
    unfolding rtp_bytes_def rtp_hdr_encode_def Let_def
    by (rule w5 [unfolded append_assoc])
qed

text \<open>Headers the encoder can represent.\<close>

definition rtp_hdr_valid :: "rtp_header \<Rightarrow> bool" where
  "rtp_hdr_valid hdr \<longleftrightarrow> rh_ver hdr = RTP_VERSION \<and> \<not> rh_ext hdr \<and> rh_cc hdr < 16 \<and> rh_pt hdr < 128 \<and>
     length (rh_csrc hdr) = unat (rh_cc hdr) \<and> rh_x_type hdr = 0 \<and> rh_x_len hdr = 0"

lemma u8_masks: "(0x0f :: u8) = mask 4" "(0x7f :: u8) = mask 7" "(0x03 :: u8) = mask 2" "(0x01 :: u8) = mask 1"
  by (simp_all add: mask_eq_exp_minus_1)

lemma and_mask_self: "unat w < 2 ^ n \<Longrightarrow> w AND mask n = (w :: 'a::len word)"
  by (simp add: take_bit_eq_mask [symmetric] word_unat_eq_iff unsigned_take_bit_eq take_bit_nat_eq_self)

lemma first_byte:
  fixes cc :: u8
  assumes "b = push_bit 6 (2 AND 0x02) OR push_bit 5 (of_bool p) OR push_bit 4 (of_bool x) OR (cc AND 0x0f)"
  shows "drop_bit 6 b AND 0x03 = 2" "drop_bit 5 b AND 0x01 \<noteq> 0 \<longleftrightarrow> p" "drop_bit 4 b AND 0x01 \<noteq> 0 \<longleftrightarrow> x"
    "b AND 0x0f = cc AND 0x0f"
proof -
  have e: "(2 AND 0x02 :: u8) = push_bit 1 1" "(2 :: u8) = push_bit 1 1"
    by (simp_all add: push_bit_eq_mult)
  show "drop_bit 6 b AND 0x03 = 2"
    unfolding u8_masks assms e by (rule bit_word_eqI) (auto simp: bit_simps)
  have "drop_bit 5 b AND 0x01 = of_bool p"
    unfolding u8_masks assms e by (rule bit_word_eqI) (auto simp: bit_simps)
  then show "drop_bit 5 b AND 0x01 \<noteq> 0 \<longleftrightarrow> p" by simp
  have "drop_bit 4 b AND 0x01 = of_bool x"
    unfolding u8_masks assms e by (rule bit_word_eqI) (auto simp: bit_simps)
  then show "drop_bit 4 b AND 0x01 \<noteq> 0 \<longleftrightarrow> x" by simp
  have "(push_bit 6 v OR push_bit 5 (of_bool p) OR push_bit 4 (of_bool x) OR (cc AND mask 4)) AND mask 4 =
        cc AND mask 4" for v :: u8
    by (rule bit_word_eqI) (auto simp: bit_simps)
  then show "b AND 0x0f = cc AND 0x0f"
    unfolding assms u8_masks(1) .
qed

lemma second_byte:
  fixes pt :: u8
  assumes "b = push_bit 7 (of_bool m) OR (pt AND 0x7f)"
  shows "drop_bit 7 b AND 0x01 \<noteq> 0 \<longleftrightarrow> m" "b AND 0x7f = pt AND 0x7f"
proof -
  show "b AND 0x7f = pt AND 0x7f"
    unfolding u8_masks assms by (rule bit_word_eqI) (auto simp: bit_simps)
  have "drop_bit 7 b AND 0x01 = of_bool m"
    unfolding u8_masks assms by (rule bit_word_eqI) (auto simp: bit_simps)
  then show "drop_bit 7 b AND 0x01 \<noteq> 0 \<longleftrightarrow> m" by simp
qed

lemma rtp_csrcs_concat:
  "n = length cs \<Longrightarrow> rtp_csrcs n (concat (map (\<lambda>c. rev (mem_bytes c)) cs) @ r) = cs"
proof (induction cs arbitrary: n)
  case Nil
  then show ?case by (simp add: rtp_csrcs_def)
next
  case (Cons c cs)
  have "rtp_csrcs (Suc m) bs = hton (of_mem (take 4 bs)) # rtp_csrcs m (drop 4 bs)" for m bs
    by (simp add: rtp_csrcs_def upt_conv_Cons map_Suc_upt [symmetric] add.commute del: upt_Suc)
  with Cons show ?case
    by (simp add: hton_def [symmetric])
qed

lemma rtp_bytes_ok:
  assumes "rtp_hdr_valid hdr"
  shows "rtp_ok (rtp_bytes hdr @ r)" "rtp_len (rtp_bytes hdr @ r) = length (rtp_bytes hdr)"
    "rtp_hdr_of rtp_header_zero (rtp_bytes hdr @ r) = hdr"
proof -
  let ?b = "push_bit 6 (2 AND 0x02) OR push_bit 5 (of_bool (rh_pad hdr)) OR
      push_bit 4 (of_bool False) OR (rh_cc hdr AND 0x0f)"
  let ?c = "push_bit 7 (of_bool (rh_m hdr)) OR (rh_pt hdr AND 0x7f)"
  let ?cs = "concat (map (\<lambda>c. rev (mem_bytes c)) (rh_csrc hdr))"
  let ?bs = "rtp_bytes hdr @ r"
  note h = assms [unfolded rtp_hdr_valid_def]
  have bs: "rtp_bytes hdr = ?b # ?c # rev (mem_bytes (rh_seq hdr)) @ rev (mem_bytes (rh_ts hdr)) @
      rev (mem_bytes (rh_ssrc hdr)) @ ?cs"
    using h by (simp add: rtp_bytes_def)
  have m: "rh_cc hdr AND 0x0f = rh_cc hdr" "rh_pt hdr AND 0x7f = rh_pt hdr"
    using h by (simp_all add: u8_masks(1,2) and_mask_self word_less_nat_alt)
  have n: "?bs ! 0 = ?b" "?bs ! 1 = ?c"
    by (simp_all add: bs)
  have cc: "rtp_cc ?bs = unat (rh_cc hdr)" and ex: "\<not> rtp_ext ?bs"
    using first_byte [OF refl, where cc = "rh_cc hdr" and p = "rh_pad hdr" and x = False] m
    by (simp_all only: rtp_cc_def rtp_ext_def n) simp_all
  have l: "length ?cs = 4 * unat (rh_cc hdr)"
    using h by (simp add: length_concat o_def sum_list_triv)
  have d: "take 2 (drop 2 ?bs) = rev (mem_bytes (rh_seq hdr))" "take 4 (drop 4 ?bs) = rev (mem_bytes (rh_ts hdr))"
    "take 4 (drop 8 ?bs) = rev (mem_bytes (rh_ssrc hdr))" "drop 12 ?bs = ?cs @ r"
    by (simp_all add: bs del: add_2_eq_Suc')
  show "rtp_len ?bs = length (rtp_bytes hdr)"
    using ex by (simp add: rtp_len_def cc) (simp add: bs l)
  then show "rtp_ok ?bs"
    using ex by (simp add: rtp_ok_def cc) (simp add: bs l)
  have "rtp_csrcs (unat (rh_cc hdr)) (?cs @ r) = rh_csrc hdr"
    using h by (intro rtp_csrcs_concat) simp
  then show "rtp_hdr_of rtp_header_zero ?bs = hdr"
    using h ex first_byte [OF refl, where cc = "rh_cc hdr" and p = "rh_pad hdr" and x = False] m
      second_byte [OF refl, where pt = "rh_pt hdr" and m = "rh_m hdr"]
    by (simp only: rtp_hdr_of_def cc d n rtp_u16_def rtp_u32_def Let_def if_False hton_def [symmetric])
      (simp add: rtp_header_zero_def)
qed

text \<open>
  C19. A header that the encoder can represent is read back from the bytes it was written as,
  wherever in a buffer it was written and whatever follows it.
\<close>

theorem rtp_hdr_roundtrip:
  assumes "mbuf_ok mb" "rtp_hdr_valid hdr"
  shows "rtp_hdr_decode rtp_header_zero ((rtp_hdr_encode hdr mb)\<lparr>mb_pos := mb_pos mb\<rparr>) =
           (0, hdr, rtp_hdr_encode hdr mb)"
proof -
  note w = rtp_hdr_encode_wrote [OF assms(1), of hdr]
  let ?mb = "(rtp_hdr_encode hdr mb)\<lparr>mb_pos := mb_pos mb\<rparr>"
  have "mb_at ?mb (length (rtp_bytes hdr)) = rtp_hdr_encode hdr mb"
    using w by (simp add: mb_at_def wrote_def)
  with rtp_hdr_decode_ok [OF wrote_rest(2) [OF w]] rtp_bytes_ok [OF assms(2)] show ?thesis
    by (simp add: wrote_rest(1) [OF w])
qed

theorem rtp_hdr_roundtrip_witness:
  "rtp_hdr_decode rtp_header_zero
     ((rtp_hdr_encode (rtp_header_zero\<lparr>rh_ver := 2, rh_cc := 1, rh_pt := 111, rh_seq := 65535, rh_csrc := [7]\<rparr>)
        (mbuf_alloc 20))\<lparr>mb_pos := 0\<rparr>) =
   (0, rtp_header_zero\<lparr>rh_ver := 2, rh_cc := 1, rh_pt := 111, rh_seq := 65535, rh_csrc := [7]\<rparr>,
    rtp_hdr_encode (rtp_header_zero\<lparr>rh_ver := 2, rh_cc := 1, rh_pt := 111, rh_seq := 65535, rh_csrc := [7]\<rparr>)
      (mbuf_alloc 20))"
  using rtp_hdr_roundtrip [of "mbuf_alloc 20"
      "rtp_header_zero\<lparr>rh_ver := 2, rh_cc := 1, rh_pt := 111, rh_seq := 65535, rh_csrc := [7]\<rparr>"]
  by (simp add: mbuf_alloc_def mbuf_init_def mbuf_resize_def mbuf_ok_def rtp_hdr_valid_def rtp_header_zero_def)

end
