(* ===== verification/Srtp.thy ===== *)
theory Srtp
  imports Rtp
begin

unbundle bit_operations_syntax

text \<open>
  Secure RTP, \<^verbatim>\<open>contrib/re/src/srtp\<close>: replay protection (\<^verbatim>\<open>replay.c\<close>), the streams of a session
  (\<^verbatim>\<open>stream.c\<close>), packet indices and key derivation (\<^verbatim>\<open>misc.c\<close>), and the protection of RTP and RTCP packets
  (\<^verbatim>\<open>srtp.c\<close>, \<^verbatim>\<open>srtcp.c\<close>). Packets are encrypted and decrypted in place, in the buffers of \<open>Mbuf\<close>.

  The ciphers are those of OpenSSL behind \<^verbatim>\<open>contrib/re/src/aes/openssl/aes.c\<close> and
  \<^verbatim>\<open>hmac/openssl/hmac.c\<close>: a parameter of the model, which may fail. A cipher context is its key; every use
  sets the initialisation vector first.
\<close>

section \<open>Ciphers\<close>

record crypto =
  cr_aes_init :: "u8 list \<Rightarrow> bool"
  cr_aes_ctr :: "u8 list \<Rightarrow> u8 list \<Rightarrow> u8 list \<Rightarrow> u8 list option"
  cr_hmac_init :: "u8 list \<Rightarrow> bool"
  cr_hmac_sha1 :: "u8 list \<Rightarrow> u8 list \<Rightarrow> u8 list option"

definition aes_alloc :: "crypto \<Rightarrow> u8 list \<Rightarrow> int + u8 list" where
  "aes_alloc X key =
     (if length key \<noteq> 16 \<and> length key \<noteq> 24 \<and> length key \<noteq> 32 then Inl EINVAL
      else if \<not> cr_aes_init X key then Inl EPROTO else Inr key)"

definition aes_encr :: "crypto \<Rightarrow> u8 list \<Rightarrow> u8 list \<Rightarrow> u8 list \<Rightarrow> int + u8 list" where
  "aes_encr X key iv bs = (case cr_aes_ctr X key iv bs of None \<Rightarrow> Inl EPROTO | Some c \<Rightarrow> Inr c)"

definition aes_decr :: "crypto \<Rightarrow> u8 list \<Rightarrow> u8 list \<Rightarrow> u8 list \<Rightarrow> int + u8 list" where
  "aes_decr X key iv bs = aes_encr X key iv bs"

definition hmac_create :: "crypto \<Rightarrow> u8 list \<Rightarrow> int + u8 list" where
  "hmac_create X key =
     (if key = [] then Inl EINVAL else if \<not> cr_hmac_init X key then Inl EPROTO else Inr key)"

definition hmac_digest :: "crypto \<Rightarrow> u8 list \<Rightarrow> u8 list \<Rightarrow> int + u8 list" where
  "hmac_digest X key bs =
     (if bs = [] then Inl EINVAL
      else case cr_hmac_sha1 X key bs of None \<Rightarrow> Inl EPROTO | Some md \<Rightarrow> Inr md)"

section \<open>Replay protection\<close>

record replay =
  rp_bitmap :: u64
  rp_lix :: u64

definition srtp_replay_init :: replay where
  "srtp_replay_init = \<lparr>rp_bitmap = 0, rp_lix = 0\<rparr>"

definition srtp_replay_check :: "u64 \<Rightarrow> replay \<Rightarrow> bool \<times> replay" where
  "srtp_replay_check ix rp =
     (if ix > rp_lix rp then
        let diff = ix - rp_lix rp
        in (True,
            \<lparr>rp_bitmap = (if diff < 64 then push_bit (unat diff) (rp_bitmap rp) OR 1 else 1), rp_lix = ix\<rparr>)
      else
        let diff = rp_lix rp - ix
        in if diff \<ge> 64 then (False, rp)
           else if rp_bitmap rp AND push_bit (unat diff) 1 \<noteq> 0 then (False, rp)
           else (True, rp\<lparr>rp_bitmap := rp_bitmap rp OR push_bit (unat diff) 1\<rparr>))"

section \<open>Sessions and streams\<close>

record srtp_stream =
  ss_replay_rtp :: replay
  ss_replay_rtcp :: replay
  ss_ssrc :: u32
  ss_roc :: u32
  ss_s_l :: u16
  ss_s_l_set :: bool
  ss_rtcp_index :: u32

record comp =
  cp_aes :: "u8 list option"
  cp_hmac :: "u8 list option"
  cp_k_s :: "u8 list"
  cp_tag_len :: nat

record srtp =
  sr_rtp :: comp
  sr_rtcp :: comp
  sr_streaml :: "srtp_stream list"

abbreviation SRTP_MAX_STREAMS :: nat where "SRTP_MAX_STREAMS \<equiv> 8"

text \<open>A pointer to a stream is its place in the list of the session; streams are never removed.\<close>

fun stream_find :: "u32 \<Rightarrow> srtp_stream list \<Rightarrow> nat option" where
  "stream_find ssrc [] = None"
| "stream_find ssrc (s # ss) = (if ss_ssrc s = ssrc then Some 0 else map_option Suc (stream_find ssrc ss))"

definition stream_new :: "u32 \<Rightarrow> srtp \<Rightarrow> int + nat \<times> srtp" where
  "stream_new ssrc srtp =
     (if length (sr_streaml srtp) \<ge> SRTP_MAX_STREAMS then Inl ENOSR
      else Inr (length (sr_streaml srtp),
                srtp\<lparr>sr_streaml := sr_streaml srtp @
                  [\<lparr>ss_replay_rtp = srtp_replay_init, ss_replay_rtcp = srtp_replay_init, ss_ssrc = ssrc,
                    ss_roc = 0, ss_s_l = 0, ss_s_l_set = False, ss_rtcp_index = 0\<rparr>]\<rparr>))"

definition stream_get :: "u32 \<Rightarrow> srtp \<Rightarrow> int + nat \<times> srtp" where
  "stream_get ssrc srtp =
     (case stream_find ssrc (sr_streaml srtp) of Some i \<Rightarrow> Inr (i, srtp) | None \<Rightarrow> stream_new ssrc srtp)"

definition strm :: "srtp \<Rightarrow> nat \<Rightarrow> srtp_stream" where
  "strm srtp i = sr_streaml srtp ! i"

definition on_strm :: "nat \<Rightarrow> (srtp_stream \<Rightarrow> srtp_stream) \<Rightarrow> srtp \<Rightarrow> srtp" where
  "on_strm i f srtp = srtp\<lparr>sr_streaml := (sr_streaml srtp)[i := f (strm srtp i)]\<rparr>"

definition stream_get_seq :: "u32 \<Rightarrow> u16 \<Rightarrow> srtp \<Rightarrow> int + nat \<times> srtp" where
  "stream_get_seq ssrc sq srtp =
     (case stream_get ssrc srtp of
        Inl err \<Rightarrow> Inl err
      | Inr (i, srtp) \<Rightarrow>
          Inr (i, if ss_s_l_set (strm srtp i) then srtp
                  else on_strm i (\<lambda>s. s\<lparr>ss_s_l := sq, ss_s_l_set := True\<rparr>) srtp))"

section \<open>Indices and keys\<close>

text \<open>
  The product \<^verbatim>\<open>v * 65536\<close> is computed as a signed 32-bit number: beyond \<open>2\<^sup>3\<^sup>1\<close> the standard leaves it
  undefined, and the machine wraps around. The sum is extended with its sign.
\<close>

definition srtp_get_index :: "u32 \<Rightarrow> u16 \<Rightarrow> u16 \<Rightarrow> u64" where
  "srtp_get_index roc s_l sq =
     (let v = (if s_l < 32768
               then if uint sq - uint s_l > 32768 then roc - 1 else roc
               else if uint s_l - 32768 > uint sq then roc + 1 else roc)
      in scast (ucast sq + v * 65536))"

definition srtp_derive :: "crypto \<Rightarrow> nat \<Rightarrow> u8 \<Rightarrow> u8 list \<Rightarrow> u8 list \<Rightarrow> int + u8 list" where
  "srtp_derive X out_len label master_key master_salt =
     (if out_len > 32 \<or> length master_salt > 16 then Inl EINVAL
      else
        let x = master_salt @ replicate (16 - length master_salt) 0;
            x = x[7 := x ! 7 XOR label]
        in case aes_alloc X master_key of
             Inl err \<Rightarrow> Inl err
           | Inr aes \<Rightarrow> aes_encr X aes x (replicate out_len 0))"

definition srtp_iv_calc :: "u8 list \<Rightarrow> u32 \<Rightarrow> u64 \<Rightarrow> u8 list" where
  "srtp_iv_calc k_s ssrc ix =
     take 4 k_s @
     map2 (XOR) (take 4 (drop 4 k_s)) (mem_bytes (hton ssrc)) @
     map2 (XOR) (take 4 (drop 8 k_s)) (mem_bytes (hton (ucast (drop_bit 16 ix) :: u32))) @
     map2 (XOR) (take 2 (drop 12 k_s)) (mem_bytes (hton (ucast ix :: u16))) @ [0, 0]"

text \<open>The error numbers of the three derivations are combined bitwise.\<close>

definition errno :: "int + 'a \<Rightarrow> int" where
  "errno r = (case r of Inl err \<Rightarrow> err | Inr _ \<Rightarrow> 0)"

definition comp_init :: "crypto \<Rightarrow> u8 \<Rightarrow> u8 list \<Rightarrow> u8 list \<Rightarrow> nat \<Rightarrow> bool \<Rightarrow> int + comp" where
  "comp_init X offs key s tag_len encrypted =
     (if length key > 32 \<or> tag_len > 20 then Inl EINVAL
      else
        let k_e = srtp_derive X (length key) offs key s;
            k_a = srtp_derive X 20 (1 + offs) key s;
            k_s = srtp_derive X 14 (2 + offs) key s;
            err = errno k_e OR errno k_a OR errno k_s
        in case (k_e, k_a, k_s) of
             (Inr k_e, Inr k_a, Inr k_s) \<Rightarrow>
               (case if encrypted then map_sum id Some (aes_alloc X k_e) else Inr None of
                  Inl err \<Rightarrow> Inl err
                | Inr aes \<Rightarrow>
                    (case hmac_create X k_a of
                       Inl err \<Rightarrow> Inl err
                     | Inr hmac \<Rightarrow>
                         Inr \<lparr>cp_aes = aes, cp_hmac = Some hmac, cp_k_s = k_s @ [0, 0], cp_tag_len = tag_len\<rparr>))
           | _ \<Rightarrow> Inl err)"

datatype srtp_suite =
    SRTP_AES_CM_128_HMAC_SHA1_32 | SRTP_AES_CM_128_HMAC_SHA1_80
  | SRTP_AES_256_CM_HMAC_SHA1_32 | SRTP_AES_256_CM_HMAC_SHA1_80

fun suite_bytes :: "srtp_suite \<Rightarrow> nat \<times> nat" where
  "suite_bytes SRTP_AES_CM_128_HMAC_SHA1_80 = (16, 10)"
| "suite_bytes SRTP_AES_CM_128_HMAC_SHA1_32 = (16, 4)"
| "suite_bytes SRTP_AES_256_CM_HMAC_SHA1_80 = (32, 10)"
| "suite_bytes SRTP_AES_256_CM_HMAC_SHA1_32 = (32, 4)"

definition srtp_alloc :: "crypto \<Rightarrow> srtp_suite \<Rightarrow> u8 list \<Rightarrow> bool \<Rightarrow> int + srtp" where
  "srtp_alloc X suite key unencrypted_srtcp =
     (let (cipher_bytes, auth_bytes) = suite_bytes suite
      in if cipher_bytes + 14 \<noteq> length key then Inl EINVAL
         else
           let k = take cipher_bytes key; master_salt = drop cipher_bytes key;
               rtp = comp_init X 0 k master_salt auth_bytes True;
               rtcp = comp_init X 3 k master_salt auth_bytes (\<not> unencrypted_srtcp)
           in case (rtp, rtcp) of
                (Inr rtp, Inr rtcp) \<Rightarrow> Inr \<lparr>sr_rtp = rtp, sr_rtcp = rtcp, sr_streaml = []\<rparr>
              | _ \<Rightarrow> Inl (errno rtp OR errno rtcp))"

section \<open>RTP packets\<close>

definition seq_diff :: "u16 \<Rightarrow> u16 \<Rightarrow> int" where
  "seq_diff x y = uint y - uint x"

text \<open>Encrypt or decrypt, in place, what lies between the position and the end.\<close>

definition crypt_rest :: "(u8 list \<Rightarrow> int + u8 list) \<Rightarrow> mbuf \<Rightarrow> int \<times> mbuf" where
  "crypt_rest f mb =
     (case f (mbuf_rest mb) of
        Inl err \<Rightarrow> (err, mb)
      | Inr c \<Rightarrow> (0, mb\<lparr>mb_buf := mem_put (mb_pos mb) c (mb_buf mb)\<rparr>))"

text \<open>The roll-over counter is written behind the packet while the digest is computed.\<close>

definition srtp_sign :: "crypto \<Rightarrow> comp \<Rightarrow> u32 \<Rightarrow> nat \<Rightarrow> mbuf \<Rightarrow> int \<times> mbuf" where
  "srtp_sign X cmp roc start mb =
     (case cp_hmac cmp of
        None \<Rightarrow> (0, mb)
      | Some hmac \<Rightarrow>
          let tag_start = mb_end mb;
              mb = mbuf_write_u32 (hton roc) (mb\<lparr>mb_pos := tag_start\<rparr>);
              mb = mb\<lparr>mb_pos := start\<rparr>
          in case hmac_digest X hmac (mbuf_rest mb) of
               Inl err \<Rightarrow> (err, mb)
             | Inr tag \<Rightarrow>
                 (0, mbuf_write_mem (take (cp_tag_len cmp) tag) (mb\<lparr>mb_pos := tag_start, mb_end := tag_start\<rparr>)))"

definition srtp_encrypt :: "crypto \<Rightarrow> srtp \<Rightarrow> mbuf \<Rightarrow> int \<times> srtp \<times> mbuf" where
  "srtp_encrypt X srtp mb =
     (let cmp = sr_rtp srtp;
          start = mb_pos mb;
          (err, hdr, mb) = rtp_hdr_decode rtp_header_zero mb
      in if err \<noteq> 0 then (err, srtp, mb)
         else
           case stream_get_seq (rh_ssrc hdr) (rh_seq hdr) srtp of
             Inl err \<Rightarrow> (err, srtp, mb)
           | Inr (i, srtp) \<Rightarrow>
               let srtp = (if seq_diff (ss_s_l (strm srtp i)) (rh_seq hdr) \<le> -32768
                           then on_strm i (\<lambda>s. s\<lparr>ss_roc := ss_roc s + 1, ss_s_l := 0\<rparr>) srtp else srtp);
                   ix = 65536 * ucast (ss_roc (strm srtp i)) + ucast (rh_seq hdr);
                   (err, mb) = (case cp_aes cmp of
                                  None \<Rightarrow> (0, mb)
                                | Some aes \<Rightarrow>
                                    crypt_rest (aes_encr X aes (srtp_iv_calc (cp_k_s cmp) (ss_ssrc (strm srtp i)) ix)) mb)
               in if err \<noteq> 0 then (err, srtp, mb)
                  else
                    let (err, mb) = srtp_sign X cmp (ss_roc (strm srtp i)) start mb
                    in if err \<noteq> 0 then (err, srtp, mb)
                       else
                         (0, if rh_seq hdr > ss_s_l (strm srtp i)
                             then on_strm i (\<lambda>s. s\<lparr>ss_s_l := rh_seq hdr\<rparr>) srtp else srtp,
                          mb\<lparr>mb_pos := start\<rparr>))"

text \<open>Authentication, then replay protection. On success the tag is cut off.\<close>

definition srtp_verify ::
  "crypto \<Rightarrow> comp \<Rightarrow> nat \<Rightarrow> u64 \<Rightarrow> nat \<Rightarrow> srtp \<Rightarrow> mbuf \<Rightarrow> int \<times> srtp \<times> mbuf" where
  "srtp_verify X cmp i ix start srtp mb =
     (case cp_hmac cmp of
        None \<Rightarrow> (0, srtp, mb)
      | Some hmac \<Rightarrow>
          if mbuf_get_left mb < cp_tag_len cmp then (EBADMSG, srtp, mb)
          else
            let pld_start = mb_pos mb;
                tag_start = mb_end mb - cp_tag_len cmp;
                (err, tag_pkt, mb) = mbuf_read_mem (cp_tag_len cmp) (mb\<lparr>mb_pos := tag_start\<rparr>)
            in if err \<noteq> 0 then (err, srtp, mb)
               else
                 let mb = mb\<lparr>mb_pos := tag_start, mb_end := tag_start\<rparr>;
                     mb = mbuf_write_u32 (hton (ss_roc (strm srtp i))) mb;
                     mb = mb\<lparr>mb_pos := start\<rparr>
                 in case hmac_digest X hmac (mbuf_rest mb) of
                      Inl err \<Rightarrow> (err, srtp, mb)
                    | Inr tag_calc \<Rightarrow>
                        let mb = mb\<lparr>mb_pos := pld_start, mb_end := tag_start\<rparr>
                        in if take (cp_tag_len cmp) tag_calc \<noteq> tag_pkt then (EAUTH, srtp, mb)
                           else
                             let (ok, rp) = srtp_replay_check ix (ss_replay_rtp (strm srtp i))
                             in if \<not> ok then (EALREADY, srtp, mb)
                                else (0, on_strm i (\<lambda>s. s\<lparr>ss_replay_rtp := rp\<rparr>) srtp, mb))"

definition srtp_decrypt :: "crypto \<Rightarrow> srtp \<Rightarrow> mbuf \<Rightarrow> int \<times> srtp \<times> mbuf" where
  "srtp_decrypt X srtp mb =
     (let cmp = sr_rtp srtp;
          start = mb_pos mb;
          (err, hdr, mb) = rtp_hdr_decode rtp_header_zero mb
      in if err \<noteq> 0 then (err, srtp, mb)
         else
           case stream_get_seq (rh_ssrc hdr) (rh_seq hdr) srtp of
             Inl err \<Rightarrow> (err, srtp, mb)
           | Inr (i, srtp) \<Rightarrow>
               let diff = seq_diff (ss_s_l (strm srtp i)) (rh_seq hdr)
               in if diff > 32768 then (ETIMEDOUT, srtp, mb)
                  else
                    let srtp = (if diff \<le> -32768
                                then on_strm i (\<lambda>s. s\<lparr>ss_roc := ss_roc s + 1, ss_s_l := 0\<rparr>) srtp else srtp);
                        ix = srtp_get_index (ss_roc (strm srtp i)) (ss_s_l (strm srtp i)) (rh_seq hdr);
                        (err, srtp, mb) = srtp_verify X cmp i ix start srtp mb
                    in if err \<noteq> 0 then (err, srtp, mb)
                       else
                         let (err, mb) = (case cp_aes cmp of
                                            None \<Rightarrow> (0, mb)
                                          | Some aes \<Rightarrow>
                                              crypt_rest (aes_decr X aes
                                                (srtp_iv_calc (cp_k_s cmp) (ss_ssrc (strm srtp i)) ix)) mb)
                         in if err \<noteq> 0 then (err, srtp, mb)
                            else
                              (0, if rh_seq hdr > ss_s_l (strm srtp i)
                                  then on_strm i (\<lambda>s. s\<lparr>ss_s_l := rh_seq hdr\<rparr>) srtp else srtp,
                               mb\<lparr>mb_pos := start\<rparr>))"

section \<open>RTCP packets\<close>

definition get_rtcp_ssrc :: "mbuf \<Rightarrow> int \<times> u32 \<times> mbuf" where
  "get_rtcp_ssrc mb =
     (if mbuf_get_left mb < 8 then (EBADMSG, 0, mb)
      else let (ssrc, mb) = mbuf_read_u32 (mbuf_advance 4 mb) in (0, ntoh ssrc, mb))"

definition srtcp_sign :: "crypto \<Rightarrow> comp \<Rightarrow> nat \<Rightarrow> mbuf \<Rightarrow> int \<times> mbuf" where
  "srtcp_sign X rtcp start mb =
     (case cp_hmac rtcp of
        None \<Rightarrow> (0, mb)
      | Some hmac \<Rightarrow>
          let mb = mb\<lparr>mb_pos := start\<rparr>
          in case hmac_digest X hmac (mbuf_rest mb) of
               Inl err \<Rightarrow> (err, mb)
             | Inr tag \<Rightarrow> (0, mbuf_write_mem (take (cp_tag_len rtcp) tag) (mb\<lparr>mb_pos := mb_end mb\<rparr>)))"

definition srtcp_encrypt :: "crypto \<Rightarrow> srtp \<Rightarrow> mbuf \<Rightarrow> int \<times> srtp \<times> mbuf" where
  "srtcp_encrypt X srtp mb =
     (let rtcp = sr_rtcp srtp;
          start = mb_pos mb;
          (err, ssrc, mb) = get_rtcp_ssrc mb
      in if err \<noteq> 0 then (err, srtp, mb)
         else
           case stream_get ssrc srtp of
             Inl err \<Rightarrow> (err, srtp, mb)
           | Inr (i, srtp) \<Rightarrow>
               let srtp = on_strm i (\<lambda>s. s\<lparr>ss_rtcp_index := (ss_rtcp_index s + 1) AND 0x7fffffff\<rparr>) srtp;
                   ix = ss_rtcp_index (strm srtp i);
                   (err, ep, mb) =
                     (case cp_aes rtcp of
                        None \<Rightarrow> (0, 0, mb)
                      | Some aes \<Rightarrow>
                          (case crypt_rest (aes_encr X aes (srtp_iv_calc (cp_k_s rtcp) ssrc (ucast ix))) mb of
                             (err, mb) \<Rightarrow> (err, 1, mb)))
               in if err \<noteq> 0 then (err, srtp, mb)
                  else
                    let mb = mbuf_write_u32 (hton (push_bit 31 ep OR ix)) (mb\<lparr>mb_pos := mb_end mb\<rparr>);
                        (err, mb) = srtcp_sign X rtcp start mb
                    in if err \<noteq> 0 then (err, srtp, mb)
                       else (0, srtp, mb\<lparr>mb_pos := start\<rparr>))"

definition srtcp_verify ::
  "crypto \<Rightarrow> comp \<Rightarrow> nat \<Rightarrow> u32 \<Rightarrow> nat \<Rightarrow> srtp \<Rightarrow> mbuf \<Rightarrow> int \<times> srtp \<times> mbuf" where
  "srtcp_verify X rtcp i ix start srtp mb =
     (case cp_hmac rtcp of
        None \<Rightarrow> (0, srtp, mb)
      | Some hmac \<Rightarrow>
          let tag_start = mb_pos mb;
              (err, tag_pkt, mb) = mbuf_read_mem (cp_tag_len rtcp) mb
          in if err \<noteq> 0 then (err, srtp, mb)
             else
               let mb = mb\<lparr>mb_pos := start, mb_end := tag_start\<rparr>
               in case hmac_digest X hmac (mbuf_rest mb) of
                    Inl err \<Rightarrow> (err, srtp, mb)
                  | Inr tag \<Rightarrow>
                      if take (cp_tag_len rtcp) tag \<noteq> tag_pkt then (EAUTH, srtp, mb)
                      else
                        let (ok, rp) = srtp_replay_check (ucast ix) (ss_replay_rtcp (strm srtp i))
                        in if \<not> ok then (EALREADY, srtp, mb)
                           else (0, on_strm i (\<lambda>s. s\<lparr>ss_replay_rtcp := rp\<rparr>) srtp, mb))"

definition srtcp_decrypt :: "crypto \<Rightarrow> srtp \<Rightarrow> mbuf \<Rightarrow> int \<times> srtp \<times> mbuf" where
  "srtcp_decrypt X srtp mb =
     (let rtcp = sr_rtcp srtp;
          start = mb_pos mb;
          (err, ssrc, mb) = get_rtcp_ssrc mb
      in if err \<noteq> 0 then (err, srtp, mb)
         else
           case stream_get ssrc srtp of
             Inl err \<Rightarrow> (err, srtp, mb)
           | Inr (i, srtp) \<Rightarrow>
               let pld_start = mb_pos mb
               in if mbuf_get_left mb < 4 + cp_tag_len rtcp then (EBADMSG, srtp, mb)
                  else
                    let eix_start = mb_end mb - (4 + cp_tag_len rtcp);
                        (v, mb) = mbuf_read_u32 (mb\<lparr>mb_pos := eix_start\<rparr>);
                        ep = (drop_bit 31 (ntoh v) AND 1 \<noteq> 0);
                        ix = ntoh v AND 0x7fffffff;
                        (err, srtp, mb) = srtcp_verify X rtcp i ix start srtp mb
                    in if err \<noteq> 0 then (err, srtp, mb)
                       else
                         let mb = mb\<lparr>mb_end := eix_start\<rparr>;
                             (err, mb) = (case cp_aes rtcp of
                                            None \<Rightarrow> (0, mb)
                                          | Some aes \<Rightarrow>
                                              if ep then
                                                crypt_rest (aes_decr X aes (srtp_iv_calc (cp_k_s rtcp) ssrc (ucast ix)))
                                                  (mb\<lparr>mb_pos := pld_start\<rparr>)
                                              else (0, mb))
                         in if err \<noteq> 0 then (err, srtp, mb)
                            else (0, srtp, mb\<lparr>mb_pos := start\<rparr>))"

end
