(* ===== verification/Srtp_Replay.thy ===== *)
theory Srtp_Replay
  imports Srtp
begin

unbundle bit_operations_syntax

text \<open>
  Replay protection: the bitmap of a stream (\<^verbatim>\<open>contrib/re/src/srtp/replay.c\<close>) decides as a receiver
  would that remembers all the indices it has accepted.
\<close>

section \<open>The replay window\<close>

text \<open>The indices that were accepted, and the largest of them.\<close>

definition replay_inv :: "replay \<Rightarrow> nat set \<Rightarrow> bool" where
  "replay_inv rp S \<longleftrightarrow> (\<forall>x\<in>S. x \<le> unat (rp_lix rp)) \<and>
     (\<forall>d<64. d \<le> unat (rp_lix rp) \<longrightarrow> (bit (rp_bitmap rp) d \<longleftrightarrow> unat (rp_lix rp) - d \<in> S))"

lemma replay_inv_init: "replay_inv srtp_replay_init {}"
  by (simp add: replay_inv_def srtp_replay_init_def)

lemma and_push_bit_1: "(w :: u64) AND push_bit n 1 \<noteq> 0 \<longleftrightarrow> bit w n"
proof
  assume "w AND push_bit n 1 \<noteq> 0"
  then obtain k where "bit (w AND push_bit n 1) k"
    using bit_eq_iff [of "w AND push_bit n 1" 0] by auto
  then show "bit w n"
    by (auto simp: bit_simps)
next
  assume "bit w n"
  then have "bit (w AND push_bit n 1) n"
    by (auto simp: bit_simps dest: bit_imp_le_length)
  then show "w AND push_bit n 1 \<noteq> 0" by auto
qed

lemma and_exp_eq_0 [simp]: "(w :: u64) AND 2 ^ n = 0 \<longleftrightarrow> \<not> bit w n"
  using and_push_bit_1 [of w n] by auto

lemma replay_check_ahead:
  assumes "replay_inv rp S" and gt: "rp_lix rp < ix"
  shows "\<exists>rp'. srtp_replay_check ix rp = (True, rp') \<and> replay_inv rp' (insert (unat ix) S) \<and> rp_lix rp' = ix"
    and "unat ix \<notin> S"
proof -
  let ?L = "unat (rp_lix rp)" and ?I = "unat ix" and ?d = "ix - rp_lix rp"
  let ?b = "if ?d < 64 then push_bit (unat ?d) (rp_bitmap rp) OR 1 else 1"
  have L: "?L < ?I"
    using gt by (simp add: word_less_nat_alt)
  have d: "unat ?d = ?I - ?L"
    using gt by (simp add: unat_sub)
  have le: "x \<le> ?L" if "x \<in> S" for x
    using that assms(1) by (auto simp: replay_inv_def)
  have old: "bit (rp_bitmap rp) k \<longleftrightarrow> ?L - k \<in> S" if "k < 64" "k \<le> ?L" for k
    using that assms(1) by (auto simp: replay_inv_def)
  have "bit ?b k \<longleftrightarrow> ?I - k \<in> insert ?I S" if k: "k < 64" "k \<le> ?I" for k
  proof (cases "k < ?I - ?L")
    case True
    then have "\<not> bit (push_bit (unat ?d) (rp_bitmap rp)) k"
      by (simp add: bit_simps d)
    moreover have "?I - k \<notin> S"
      using True le [of "?I - k"] by auto
    ultimately show ?thesis
      using True L by (auto simp: bit_simps)
  next
    case False
    then have "?d < 64"
      using k L d by (simp add: word_less_nat_alt)
    moreover have "?L - (k - unat ?d) = ?I - k" "k - unat ?d \<le> ?L" "k \<noteq> 0" "?I - k \<noteq> ?I"
      using False k L d by simp_all
    moreover have "k - unat ?d < 64"
      using k by simp
    ultimately show ?thesis
      using False k old [of "k - unat ?d"] d by (simp add: bit_simps)
  qed
  then have "replay_inv \<lparr>rp_bitmap = ?b, rp_lix = ix\<rparr> (insert ?I S)"
    using L le by (fastforce simp: replay_inv_def)
  then show "\<exists>rp'. srtp_replay_check ix rp = (True, rp') \<and> replay_inv rp' (insert ?I S) \<and> rp_lix rp' = ix"
    using gt by (simp add: srtp_replay_check_def Let_def)
  show "?I \<notin> S"
    using L le [of ?I] by auto
qed

lemma replay_check_behind:
  assumes "replay_inv rp S" and le: "ix \<le> rp_lix rp"
  shows "fst (srtp_replay_check ix rp) \<longleftrightarrow> unat ix \<notin> S \<and> unat (rp_lix rp) < unat ix + 64"
    and "fst (srtp_replay_check ix rp) \<Longrightarrow>
      replay_inv (snd (srtp_replay_check ix rp)) (insert (unat ix) S) \<and>
      rp_lix (snd (srtp_replay_check ix rp)) = rp_lix rp"
proof -
  let ?L = "unat (rp_lix rp)" and ?I = "unat ix" and ?d = "rp_lix rp - ix"
  have L: "?I \<le> ?L"
    using le by (simp add: word_le_nat_alt)
  have d: "unat ?d = ?L - ?I"
    using le by (simp add: unat_sub)
  have d64: "?d \<ge> 64 \<longleftrightarrow> ?I + 64 \<le> ?L"
    using d L by (auto simp: word_le_nat_alt)
  have old: "bit (rp_bitmap rp) k \<longleftrightarrow> ?L - k \<in> S" if "k < 64" "k \<le> ?L" for k
    using that assms(1) by (auto simp: replay_inv_def)
  have b: "bit (rp_bitmap rp) (unat ?d) \<longleftrightarrow> ?I \<in> S" if "\<not> ?d \<ge> 64"
    using old [of "unat ?d"] that d64 d L by simp
  have e: "srtp_replay_check ix rp =
      (if ?d \<ge> 64 \<or> bit (rp_bitmap rp) (unat ?d) then (False, rp)
       else (True, rp\<lparr>rp_bitmap := rp_bitmap rp OR push_bit (unat ?d) 1\<rparr>))"
    using le by (auto simp: srtp_replay_check_def Let_def not_less [symmetric])
  show "fst (srtp_replay_check ix rp) \<longleftrightarrow> ?I \<notin> S \<and> ?L < ?I + 64"
    using b d64 by (auto simp: e)
  assume "fst (srtp_replay_check ix rp)"
  then have n: "\<not> ?d \<ge> 64"
    by (simp add: e split: if_splits)
  have "bit (rp_bitmap rp OR push_bit (unat ?d) 1) k \<longleftrightarrow> ?L - k \<in> insert ?I S" if "k < 64" "k \<le> ?L" for k
    using that old [of k] d L by (auto simp: bit_simps)
  then have "replay_inv (rp\<lparr>rp_bitmap := rp_bitmap rp OR push_bit (unat ?d) 1\<rparr>) (insert ?I S)"
    using assms(1) L by (auto simp: replay_inv_def)
  then show "replay_inv (snd (srtp_replay_check ix rp)) (insert ?I S) \<and>
      rp_lix (snd (srtp_replay_check ix rp)) = rp_lix rp"
    using \<open>fst (srtp_replay_check ix rp)\<close> by (simp add: e split: if_splits)
qed

lemma replay_check:
  assumes "replay_inv rp S" "srtp_replay_check ix rp = (ok, rp')"
  shows "ok \<longleftrightarrow> unat ix \<notin> S \<and> unat (rp_lix rp) < unat ix + 64"
    and "replay_inv rp' (if ok then insert (unat ix) S else S)"
    and "rp_lix rp' = (if ok then max (rp_lix rp) ix else rp_lix rp)"
proof -
  have no: "\<not> ok \<Longrightarrow> rp' = rp"
    using assms(2) by (auto simp: srtp_replay_check_def Let_def split: if_splits)
  have "(ok \<longleftrightarrow> unat ix \<notin> S \<and> unat (rp_lix rp) < unat ix + 64) \<and>
    (ok \<longrightarrow> replay_inv rp' (insert (unat ix) S) \<and> rp_lix rp' = max (rp_lix rp) ix)"
  proof (cases "ix \<le> rp_lix rp")
    case True
    then show ?thesis
      using replay_check_behind [OF assms(1) True] assms(2) by (simp add: max_absorb1)
  next
    case False
    then have "rp_lix rp < ix" by simp
    from replay_check_ahead [OF assms(1) this] this show ?thesis
      using assms(2) by (auto simp: word_less_nat_alt max_def word_le_nat_alt)
  qed
  with no assms(1) show "ok \<longleftrightarrow> unat ix \<notin> S \<and> unat (rp_lix rp) < unat ix + 64"
    and "replay_inv rp' (if ok then insert (unat ix) S else S)"
    and "rp_lix rp' = (if ok then max (rp_lix rp) ix else rp_lix rp)"
    by (cases ok; simp)+
qed

fun replay_run :: "u64 list \<Rightarrow> replay \<Rightarrow> bool list" where
  "replay_run [] rp = []"
| "replay_run (ix # ixs) rp = (let (ok, rp) = srtp_replay_check ix rp in ok # replay_run ixs rp)"

text \<open>The window as a specification: all indices that were accepted are remembered.\<close>

fun window_run :: "nat list \<Rightarrow> nat list \<Rightarrow> bool list" where
  "window_run [] seen = []"
| "window_run (i # is) seen =
     (let ok = (i \<notin> set seen \<and> foldr max seen 0 < i + 64)
      in ok # window_run is (if ok then i # seen else seen))"

lemma unat_max: "unat (max a b) = max (unat a) (unat b)"
  by (simp add: max_def word_le_nat_alt)

lemma replay_run_window:
  "replay_inv rp (set seen) \<Longrightarrow> unat (rp_lix rp) = foldr max seen 0 \<Longrightarrow>
     replay_run ixs rp = window_run (map unat ixs) seen"
proof (induction ixs arbitrary: rp seen)
  case Nil
  then show ?case by simp
next
  case (Cons ix ixs)
  obtain ok rp' where c: "srtp_replay_check ix rp = (ok, rp')"
    by force
  let ?seen = "if ok then unat ix # seen else seen"
  have ok: "ok \<longleftrightarrow> unat ix \<notin> set seen \<and> foldr max seen 0 < unat ix + 64"
    using replay_check(1) [OF Cons.prems(1) c] Cons.prems(2) by simp
  have "replay_inv rp' (set ?seen)"
    using replay_check(2) [OF Cons.prems(1) c] by (simp split: if_splits)
  moreover have "unat (rp_lix rp') = foldr max ?seen 0"
    using replay_check(3) [OF Cons.prems(1) c] Cons.prems(2) by (simp add: unat_max max.commute)
  ultimately have "replay_run ixs rp' = window_run (map unat ixs) ?seen"
    by (rule Cons.IH)
  then show ?case
    by (simp add: c ok [symmetric])
qed

text \<open>
  C18. The 64-bit map with the last index decides exactly as a receiver that remembers every packet it
  has accepted: an index is accepted if it is new and less than 64 behind the largest accepted one.
\<close>

theorem srtp_replay_window: "replay_run ixs srtp_replay_init = window_run (map unat ixs) []"
  using replay_run_window [of srtp_replay_init "[]"] replay_inv_init by (simp add: srtp_replay_init_def)

end
