(* ===== verification/Srtp_Correct.thy ===== *)
theory Srtp_Correct
  imports Srtp_Replay
begin

unbundle bit_operations_syntax

text \<open>
  What SRTP promises to two ends with the same keys: the operations on the streams of a session, the
  packets that are sent, and that they are restored as long as they arrive within the bounds of the
  roll-over counter and the replay window.
\<close>

section \<open>Streams\<close>

definition stream_of :: "u32 \<Rightarrow> srtp \<Rightarrow> srtp_stream option" where
  "stream_of ssrc srtp = map_option (strm srtp) (stream_find ssrc (sr_streaml srtp))"

definition new_stream :: "u32 \<Rightarrow> srtp_stream" where
  "new_stream ssrc = \<lparr>ss_replay_rtp = srtp_replay_init, ss_replay_rtcp = srtp_replay_init, ss_ssrc = ssrc,
     ss_roc = 0, ss_s_l = 0, ss_s_l_set = False, ss_rtcp_index = 0\<rparr>"

lemma stream_find_SomeD: "stream_find x l = Some i \<Longrightarrow> i < length l \<and> ss_ssrc (l ! i) = x"
  by (induction l arbitrary: i) (auto split: if_splits)

lemma stream_find_NoneD: "stream_find x l = None \<longleftrightarrow> x \<notin> ss_ssrc ` set l"
  by (induction l) auto

lemma stream_find_cong: "map ss_ssrc l = map ss_ssrc l' \<Longrightarrow> stream_find x l = stream_find x l'"
proof (induction l arbitrary: l')
  case (Cons s l)
  then show ?case by (cases l') auto
qed simp

lemma stream_find_append:
  "stream_find x (l @ [s]) =
     (case stream_find x l of Some i \<Rightarrow> Some i | None \<Rightarrow> if ss_ssrc s = x then Some (length l) else None)"
  by (induction l) (auto split: option.splits)

lemma map_ssrc_upd:
  "ss_ssrc s = ss_ssrc (l ! i) \<Longrightarrow> map ss_ssrc (l[i := s]) = map ss_ssrc l"
  by (simp add: map_update list_update_same_conv) (metis length_map list_update_beyond list_update_id not_less nth_map)

lemma on_strm_simps [simp]:
  "sr_rtp (on_strm i f srtp) = sr_rtp srtp" "sr_rtcp (on_strm i f srtp) = sr_rtcp srtp"
  "length (sr_streaml (on_strm i f srtp)) = length (sr_streaml srtp)"
  by (simp_all add: on_strm_def)

lemma strm_on_strm [simp]: "i < length (sr_streaml srtp) \<Longrightarrow> strm (on_strm i f srtp) i = f (strm srtp i)"
  by (simp add: on_strm_def strm_def)

lemma on_strm_on_strm [simp]:
  "i < length (sr_streaml srtp) \<Longrightarrow> on_strm i f (on_strm i g srtp) = on_strm i (f \<circ> g) srtp"
  by (simp add: on_strm_def strm_def)

lemma on_strm_id: "f (strm srtp i) = strm srtp i \<Longrightarrow> on_strm i f srtp = srtp"
  by (simp add: on_strm_def strm_def)

text \<open>A stream keeps its source whatever happens to it.\<close>

definition keeps_ssrc :: "(srtp_stream \<Rightarrow> srtp_stream) \<Rightarrow> bool" where
  "keeps_ssrc f \<longleftrightarrow> (\<forall>s. ss_ssrc (f s) = ss_ssrc s)"

lemma map_ssrc_on_strm: "keeps_ssrc f \<Longrightarrow> map ss_ssrc (sr_streaml (on_strm i f srtp)) = map ss_ssrc (sr_streaml srtp)"
  by (simp add: on_strm_def strm_def keeps_ssrc_def map_ssrc_upd)

lemma stream_find_on_strm [simp]:
  "keeps_ssrc f \<Longrightarrow> stream_find x (sr_streaml (on_strm i f srtp)) = stream_find x (sr_streaml srtp)"
  by (rule stream_find_cong) (rule map_ssrc_on_strm)

lemma stream_of_on_strm:
  assumes "stream_find x (sr_streaml srtp) = Some i" "keeps_ssrc f"
  shows "stream_of y (on_strm i f srtp) = (if y = x then Some (f (strm srtp i)) else stream_of y srtp)"
proof (cases "y = x")
  case True
  then show ?thesis
    using assms stream_find_SomeD [OF assms(1)] by (simp add: stream_of_def)
next
  case False
  have "strm (on_strm i f srtp) j = strm srtp j" if "stream_find y (sr_streaml srtp) = Some j" for j
    using stream_find_SomeD [OF that] stream_find_SomeD [OF assms(1)] False
    by (cases "i = j") (auto simp: on_strm_def strm_def)
  then show ?thesis
    using assms(2) False by (cases "stream_find y (sr_streaml srtp)") (simp_all add: stream_of_def)
qed

lemma stream_get_Inr:
  assumes "stream_get x srtp = Inr (i, srtp')"
  shows "stream_find x (sr_streaml srtp') = Some i" "sr_rtp srtp' = sr_rtp srtp" "sr_rtcp srtp' = sr_rtcp srtp"
    "strm srtp' i = (case stream_of x srtp of None \<Rightarrow> new_stream x | Some s \<Rightarrow> s)"
    "y \<noteq> x \<Longrightarrow> stream_of y srtp' = stream_of y srtp"
proof -
  consider (old) "stream_find x (sr_streaml srtp) = Some i" "srtp' = srtp" |
    (new) "stream_find x (sr_streaml srtp) = None" "i = length (sr_streaml srtp)"
      "srtp' = srtp\<lparr>sr_streaml := sr_streaml srtp @ [new_stream x]\<rparr>"
    using assms by (auto simp: stream_get_def stream_new_def new_stream_def split: option.splits if_splits)
  then show "stream_find x (sr_streaml srtp') = Some i" "sr_rtp srtp' = sr_rtp srtp" "sr_rtcp srtp' = sr_rtcp srtp"
    "strm srtp' i = (case stream_of x srtp of None \<Rightarrow> new_stream x | Some s \<Rightarrow> s)"
    by (cases; simp add: stream_of_def stream_find_append strm_def new_stream_def)+
  show "stream_of y srtp' = stream_of y srtp" if "y \<noteq> x"
    using \<open>stream_get x srtp = _\<close> that
    by (auto simp: stream_get_def stream_new_def stream_of_def stream_find_append strm_def nth_append
        split: option.splits if_splits dest: stream_find_SomeD)
qed

text \<open>What \<^verbatim>\<open>stream_get_seq\<close>, the roll-over and the end of a call do to the stream of a packet.\<close>

definition set_seq :: "u16 \<Rightarrow> srtp_stream \<Rightarrow> srtp_stream" where
  "set_seq sq s = (if ss_s_l_set s then s else s\<lparr>ss_s_l := sq, ss_s_l_set := True\<rparr>)"

definition roll :: "u16 \<Rightarrow> srtp_stream \<Rightarrow> srtp_stream" where
  "roll sq s = (if seq_diff (ss_s_l s) sq \<le> -32768 then s\<lparr>ss_roc := ss_roc s + 1, ss_s_l := 0\<rparr> else s)"

definition raise_seq :: "u16 \<Rightarrow> srtp_stream \<Rightarrow> srtp_stream" where
  "raise_seq sq s = (if sq > ss_s_l s then s\<lparr>ss_s_l := sq\<rparr> else s)"

lemmas strm_ops = set_seq_def roll_def raise_seq_def

lemma keeps_ssrc [simp]:
  "keeps_ssrc (set_seq sq)" "keeps_ssrc (roll sq)" "keeps_ssrc (raise_seq sq)"
  "keeps_ssrc (\<lambda>s. s\<lparr>ss_replay_rtp := rp\<rparr>)" "keeps_ssrc f \<Longrightarrow> keeps_ssrc g \<Longrightarrow> keeps_ssrc (f \<circ> g)"
  by (simp_all add: keeps_ssrc_def strm_ops)

text \<open>The stream a packet with this source and number goes to.\<close>

definition strm_for :: "u32 \<Rightarrow> u16 \<Rightarrow> srtp \<Rightarrow> srtp_stream" where
  "strm_for ssrc sq srtp = set_seq sq (case stream_of ssrc srtp of None \<Rightarrow> new_stream ssrc | Some s \<Rightarrow> s)"

definition has_room :: "u32 \<Rightarrow> srtp \<Rightarrow> bool" where
  "has_room ssrc srtp \<longleftrightarrow> stream_of ssrc srtp \<noteq> None \<or> length (sr_streaml srtp) < SRTP_MAX_STREAMS"

lemma stream_get_seq_room:
  assumes "has_room ssrc srtp"
  obtains i srtp' where "stream_get_seq ssrc sq srtp = Inr (i, srtp')" "stream_find ssrc (sr_streaml srtp') = Some i"
    "sr_rtp srtp' = sr_rtp srtp" "sr_rtcp srtp' = sr_rtcp srtp" "strm srtp' i = strm_for ssrc sq srtp"
    "\<And>y. y \<noteq> ssrc \<Longrightarrow> stream_of y srtp' = stream_of y srtp" "i < length (sr_streaml srtp')"
proof -
  have "\<exists>i srtp1. stream_get ssrc srtp = Inr (i, srtp1)"
    using assms
    by (cases "stream_find ssrc (sr_streaml srtp)") (auto simp: has_room_def stream_of_def stream_get_def stream_new_def)
  then obtain i srtp1 where g: "stream_get ssrc srtp = Inr (i, srtp1)" by blast
  note G = stream_get_Inr [OF g]
  let ?srtp = "on_strm i (set_seq sq) srtp1"
  have "stream_get_seq ssrc sq srtp = Inr (i, ?srtp)"
    using g by (auto simp: stream_get_seq_def set_seq_def on_strm_def strm_def)
  moreover have "strm ?srtp i = strm_for ssrc sq srtp"
    using G(4) stream_find_SomeD [OF G(1)] by (simp add: strm_for_def)
  ultimately show ?thesis
    using G stream_of_on_strm [OF G(1), of "set_seq sq"] stream_find_SomeD [OF G(1)]
    by (intro that [of i ?srtp]) simp_all
qed

section \<open>Ciphers that work\<close>

text \<open>
  Counter mode adds a key stream, so that encrypting twice with the same vector gives the plain text
  back; a digest of SHA-1 has 20 bytes.
\<close>

definition crypto_ok :: "crypto \<Rightarrow> bool" where
  "crypto_ok X \<longleftrightarrow>
     (\<forall>k iv bs. \<exists>c. cr_aes_ctr X k iv bs = Some c \<and> length c = length bs \<and> cr_aes_ctr X k iv c = Some bs) \<and>
     (\<forall>k bs. \<exists>t. cr_hmac_sha1 X k bs = Some t \<and> length t = 20)"

definition ctr :: "crypto \<Rightarrow> u8 list option \<Rightarrow> u8 list \<Rightarrow> u8 list \<Rightarrow> u8 list" where
  "ctr X aes iv bs = (case aes of None \<Rightarrow> bs | Some k \<Rightarrow> the (cr_aes_ctr X k iv bs))"

definition srtp_tag :: "crypto \<Rightarrow> comp \<Rightarrow> u8 list \<Rightarrow> u8 list" where
  "srtp_tag X cmp m =
     (case cp_hmac cmp of None \<Rightarrow> [] | Some k \<Rightarrow> take (cp_tag_len cmp) (the (cr_hmac_sha1 X k m)))"

lemma ctr_ok:
  assumes "crypto_ok X"
  shows "length (ctr X aes iv bs) = length bs" "ctr X aes iv (ctr X aes iv bs) = bs"
    "aes_encr X k iv bs = Inr (ctr X (Some k) iv bs)"
proof -
  have c: "\<exists>c. cr_aes_ctr X k iv bs = Some c \<and> length c = length bs \<and> cr_aes_ctr X k iv c = Some bs" for k
    using assms by (simp add: crypto_ok_def)
  show "length (ctr X aes iv bs) = length bs"
    using c [of "the aes"] by (cases aes) (auto simp: ctr_def)
  show "ctr X aes iv (ctr X aes iv bs) = bs"
    using c [of "the aes"] by (cases aes) (auto simp: ctr_def)
  show "aes_encr X k iv bs = Inr (ctr X (Some k) iv bs)"
    using c [of k] by (auto simp: ctr_def aes_encr_def)
qed

lemma hmac_ok:
  assumes "crypto_ok X" "bs \<noteq> []"
  shows "\<exists>t. hmac_digest X k bs = Inr t \<and> cr_hmac_sha1 X k bs = Some t"
proof -
  have "\<exists>t. cr_hmac_sha1 X k bs = Some t"
    using assms(1) unfolding crypto_ok_def by blast
  then show ?thesis
    using assms(2) by (auto simp: hmac_digest_def)
qed

lemma crypt_rest_ok:
  assumes "mbuf_ok mb" "f (mbuf_rest mb) = Inr c" "length c = length (mbuf_rest mb)"
  shows "\<exists>mb'. crypt_rest f mb = (0, mb') \<and> mbuf_ok mb' \<and> mb_pos mb' = mb_pos mb \<and> mb_end mb' = mb_end mb \<and>
    mb_data mb' = take (mb_pos mb) (mb_data mb) @ c"
proof -
  let ?mb = "mb\<lparr>mb_buf := mem_put (mb_pos mb) c (mb_buf mb)\<rparr>"
  have l: "mb_pos mb + length c = mb_end mb"
    using assms(1,3) by (simp add: mbuf_rest_data mbuf_ok_def)
  have "mb_data ?mb = take (mb_pos mb) (mb_data mb) @ c"
    using assms(1) l take_mem_put [of "mb_pos mb" "mb_end mb" "mb_buf mb" c]
    by (simp add: mb_data_def mem_put_def mbuf_ok_def)
  moreover have "mbuf_ok ?mb"
    using assms(1) l by (simp add: mbuf_ok_def)
  ultimately show ?thesis
    using assms(2) by (simp add: crypt_rest_def)
qed

lemma mb_data_cut: "e \<le> mb_end mb \<Longrightarrow> mb_data (mb\<lparr>mb_pos := p, mb_end := e\<rparr>) = take e (mb_data mb)"
  by (simp add: mb_data_def min_def)

lemma mb_data_pos [simp]: "mb_data (mb\<lparr>mb_pos := p\<rparr>) = mb_data mb"
  by (simp add: mb_data_def)

lemma mbuf_ok_pos: "mbuf_ok mb \<Longrightarrow> p \<le> mb_end mb \<Longrightarrow> mbuf_ok (mb\<lparr>mb_pos := p\<rparr>)"
  by (simp add: mbuf_ok_def)

text \<open>Something is written behind the data, used, and overwritten.\<close>

lemma mbuf_write_end:
  assumes "mbuf_ok mb"
  shows "mb_data (mbuf_write_mem bs (mb\<lparr>mb_pos := mb_end mb\<rparr>)) = mb_data mb @ bs"
    "mb_end (mbuf_write_mem bs (mb\<lparr>mb_pos := mb_end mb\<rparr>)) = mb_end mb + length bs"
    "mbuf_ok (mbuf_write_mem bs (mb\<lparr>mb_pos := mb_end mb\<rparr>))"
proof -
  have ok: "mbuf_ok (mb\<lparr>mb_pos := mb_end mb\<rparr>)"
    using assms by (simp add: mbuf_ok_def)
  show "mb_data (mbuf_write_mem bs (mb\<lparr>mb_pos := mb_end mb\<rparr>)) = mb_data mb @ bs"
    using mb_data_write [OF ok, of bs] assms by (simp add: length_mb_data [symmetric] del: length_mb_data)
  show "mb_end (mbuf_write_mem bs (mb\<lparr>mb_pos := mb_end mb\<rparr>)) = mb_end mb + length bs"
    by simp
  show "mbuf_ok (mbuf_write_mem bs (mb\<lparr>mb_pos := mb_end mb\<rparr>))"
    using ok by simp
qed

lemma mem_bytes_u32_neq [simp]: "mem_bytes (w :: u32) \<noteq> []"
  by (simp flip: length_greater_0_conv)

lemma mbuf_write_u32_mem: "mbuf_write_u32 (hton v) = mbuf_write_mem (rev (mem_bytes v))"
  by (simp add: mbuf_write_u32_def mem_bytes_hton)

lemma srtp_sign_ok:
  assumes "mbuf_ok mb" "crypto_ok X" "start \<le> mb_end mb"
  shows "\<exists>mb'. srtp_sign X cmp roc start mb = (0, mb') \<and> mbuf_ok (mb'\<lparr>mb_pos := start\<rparr>) \<and>
    mb_data mb' = mb_data mb @ srtp_tag X cmp (drop start (mb_data mb) @ rev (mem_bytes roc))"
proof (cases "cp_hmac cmp")
  case None
  then show ?thesis
    using assms by (simp add: srtp_sign_def srtp_tag_def mbuf_ok_def)
next
  case (Some k)
  let ?r = "rev (mem_bytes roc)" and ?e = "mb_end mb"
  define mb1 where "mb1 = mbuf_write_u32 (hton roc) (mb\<lparr>mb_pos := ?e\<rparr>)"
  note w = mbuf_write_end [OF assms(1), of ?r, folded mbuf_write_u32_mem, folded mb1_def]
  have r: "mbuf_rest (mb1\<lparr>mb_pos := start\<rparr>) = drop start (mb_data mb) @ ?r"
    using assms by (simp add: mbuf_rest_data w)
  obtain t where t: "hmac_digest X k (drop start (mb_data mb) @ ?r) = Inr t"
    "cr_hmac_sha1 X k (drop start (mb_data mb) @ ?r) = Some t"
    using hmac_ok [OF assms(2), of "drop start (mb_data mb) @ ?r" k] by auto
  define mb2 where "mb2 = mb1\<lparr>mb_pos := ?e, mb_end := ?e\<rparr>"
  have d2: "mb_data mb2 = mb_data mb" "mbuf_ok mb2" "mb2\<lparr>mb_pos := mb_end mb2\<rparr> = mb2" "mb_end mb2 = ?e"
    using w assms(1) by (simp_all add: mb2_def mb_data_cut mbuf_ok_def [of mb1] mbuf_ok_def [of "mb1\<lparr>mb_pos := ?e, mb_end := ?e\<rparr>"])
  note w2 = mbuf_write_end [OF d2(2), unfolded d2(3)]
  let ?mb = "mbuf_write_mem (take (cp_tag_len cmp) t) mb2"
  have "srtp_sign X cmp roc start mb = (0, ?mb)"
    by (simp add: srtp_sign_def Some mb1_def [symmetric] r t Let_def mb2_def)
  moreover have "mbuf_ok (?mb\<lparr>mb_pos := start\<rparr>)"
    by (rule mbuf_ok_pos [OF w2(3)]) (use assms(3) in \<open>simp add: d2\<close>)
  ultimately show ?thesis
    using w2 d2 t by (simp add: srtp_tag_def Some)
qed

section \<open>A protected packet\<close>

definition srtp_body :: "crypto \<Rightarrow> comp \<Rightarrow> u64 \<Rightarrow> u8 list \<Rightarrow> u8 list" where
  "srtp_body X cmp ix bs =
     (let n = rtp_len bs
      in take n bs @ ctr X (cp_aes cmp) (srtp_iv_calc (cp_k_s cmp) (rtp_u32 8 bs) ix) (drop n bs))"

definition srtp_packet :: "crypto \<Rightarrow> comp \<Rightarrow> u32 \<Rightarrow> u8 list \<Rightarrow> u8 list" where
  "srtp_packet X cmp roc bs =
     (let m = srtp_body X cmp (65536 * ucast roc + ucast (rtp_u16 2 bs)) bs
      in m @ srtp_tag X cmp (m @ rev (mem_bytes roc)))"

lemma rtp_hdr_of_simps [simp]:
  "rh_ssrc (rtp_hdr_of hdr bs) = rtp_u32 8 bs" "rh_seq (rtp_hdr_of hdr bs) = rtp_u16 2 bs"
  by (simp_all add: rtp_hdr_of_def Let_def)

lemma strm_for_ssrc [simp]: "ss_ssrc (strm_for ssrc sq srtp) = ssrc"
  by (auto simp: strm_for_def set_seq_def new_stream_def stream_of_def strm_def dest: stream_find_SomeD
      split: option.splits)

lemma roll_ssrc [simp]: "ss_ssrc (roll sq s) = ss_ssrc s"
  by (simp add: roll_def)

lemma srtp_encrypt_ok:
  fixes srtp
  assumes "mbuf_ok mb" "mbuf_rest mb = bs" "rtp_ok bs" "crypto_ok X" "has_room (rtp_u32 8 bs) srtp"
  defines "s \<equiv> roll (rtp_u16 2 bs) (strm_for (rtp_u32 8 bs) (rtp_u16 2 bs) srtp)"
  shows "\<exists>srtp' mb'. srtp_encrypt X srtp mb = (0, srtp', mb') \<and> mbuf_ok mb' \<and> mb_pos mb' = mb_pos mb \<and>
    mb_data mb' = take (mb_pos mb) (mb_data mb) @ srtp_packet X (sr_rtp srtp) (ss_roc s) bs \<and>
    sr_rtp srtp' = sr_rtp srtp \<and>
    (\<forall>y. stream_of y srtp' = (if y = rtp_u32 8 bs then Some (raise_seq (rtp_u16 2 bs) s) else stream_of y srtp))"
proof -
  let ?ssrc = "rtp_u32 8 bs" and ?sq = "rtp_u16 2 bs" and ?c = "sr_rtp srtp" and ?n = "rtp_len bs"
  obtain i srtp1 where g: "stream_get_seq ?ssrc ?sq srtp = Inr (i, srtp1)"
    "stream_find ?ssrc (sr_streaml srtp1) = Some i" "sr_rtp srtp1 = ?c" "strm srtp1 i = strm_for ?ssrc ?sq srtp"
    "\<And>y. y \<noteq> ?ssrc \<Longrightarrow> stream_of y srtp1 = stream_of y srtp" "i < length (sr_streaml srtp1)"
    using stream_get_seq_room [OF assms(5)] by metis
  define srtp2 where "srtp2 = on_strm i (roll ?sq) srtp1"
  have s2: "strm srtp2 i = s" "i < length (sr_streaml srtp2)" "stream_find ?ssrc (sr_streaml srtp2) = Some i"
    using g by (simp_all add: srtp2_def s_def)
  have e2: "(if seq_diff (ss_s_l (strm srtp1 i)) ?sq \<le> -32768
      then on_strm i (\<lambda>s. s\<lparr>ss_roc := ss_roc s + 1, ss_s_l := 0\<rparr>) srtp1 else srtp1) = srtp2"
    using g(6) by (simp add: srtp2_def roll_def on_strm_def strm_def)
  have e3: "(if ?sq > ss_s_l (strm srtp2 i) then on_strm i (\<lambda>s. s\<lparr>ss_s_l := ?sq\<rparr>) srtp2 else srtp2) =
      on_strm i (raise_seq ?sq) srtp2"
    using s2(2) by (simp add: raise_seq_def on_strm_def strm_def)
  have sss: "ss_ssrc s = ?ssrc"
    by (simp add: s_def)
  let ?ix = "65536 * ucast (ss_roc s) + ucast ?sq :: u64"
  let ?iv = "srtp_iv_calc (cp_k_s ?c) ?ssrc ?ix"
  define mb1 where "mb1 = mb_at mb ?n"
  have d: "rtp_hdr_decode rtp_header_zero mb = (0, rtp_hdr_of rtp_header_zero bs, mb1)"
    using rtp_hdr_decode_ok [OF assms(1)] assms(2,3) by (simp add: mb1_def)
  have n: "?n \<le> length bs"
    using assms(3) by (simp add: rtp_ok_def)
  have mb1: "mbuf_ok mb1" "mbuf_rest mb1 = drop ?n bs" "mb_data mb1 = mb_data mb" "mb_end mb1 = mb_end mb"
    using assms(1,2) n by (simp_all add: mb1_def)
  have t1: "take (mb_pos mb1) (mb_data mb) = take (mb_pos mb) (mb_data mb) @ take ?n bs"
    using assms(2) by (auto simp: mb1_def mbuf_rest_data take_add)
  have dt: "take (mb_pos mb) (mb_data mb) @ bs = mb_data mb"
    using assms(2) by (auto simp: mbuf_rest_data)
  obtain mb2 where c: "(case cp_aes ?c of None \<Rightarrow> (0, mb1) | Some aes \<Rightarrow> crypt_rest (aes_encr X aes ?iv) mb1) = (0, mb2)"
    "mbuf_ok mb2" "mb_end mb2 = mb_end mb" "mb_data mb2 = take (mb_pos mb) (mb_data mb) @ srtp_body X ?c ?ix bs"
  proof (cases "cp_aes ?c")
    case None
    then show ?thesis
      by (intro that [of mb1]) (simp_all add: mb1 dt srtp_body_def ctr_def)
  next
    case (Some k)
    then show ?thesis
      using crypt_rest_ok [OF mb1(1), of "aes_encr X k ?iv" "ctr X (Some k) ?iv (drop ?n bs)"] ctr_ok [OF assms(4)] mb1 t1 that
      by (auto simp: srtp_body_def Let_def)
  qed
  have le: "mb_pos mb \<le> mb_end mb2"
    using c(3) assms(1) by (simp add: mbuf_ok_def)
  have d2: "drop (mb_pos mb) (mb_data mb2) = srtp_body X ?c ?ix bs"
    using assms(1) by (simp add: c(4) mbuf_ok_def)
  obtain mb3 where h: "srtp_sign X ?c (ss_roc s) (mb_pos mb) mb2 = (0, mb3)" "mbuf_ok (mb3\<lparr>mb_pos := mb_pos mb\<rparr>)"
    "mb_data mb3 = take (mb_pos mb) (mb_data mb) @ srtp_packet X ?c (ss_roc s) bs"
    using srtp_sign_ok [OF c(2) assms(4) le, of ?c "ss_roc s"] d2 c(4) by (auto simp: srtp_packet_def Let_def)
  have "srtp_encrypt X srtp mb = (0, on_strm i (raise_seq ?sq) srtp2, mb3\<lparr>mb_pos := mb_pos mb\<rparr>)"
    by (simp only: srtp_encrypt_def Let_def d prod.case rtp_hdr_of_simps g(1) sum.case e2 s2(1) sss c(1) h(1)
        e3 [unfolded s2(1)] simp_thms if_False)
  then show ?thesis
    using h g(3,5) stream_of_on_strm [OF s2(3), of "raise_seq ?sq"] stream_of_on_strm [OF g(2), of "roll ?sq"]
    by (simp add: s2(1) srtp2_def [symmetric]) (simp add: srtp2_def)
qed

text \<open>A packet with the right tag passes, if its index is new.\<close>

definition comp_ok :: "comp \<Rightarrow> bool" where
  "comp_ok cmp \<longleftrightarrow> cp_hmac cmp \<noteq> None \<and> cp_tag_len cmp \<le> 20"

lemma length_srtp_tag: "crypto_ok X \<Longrightarrow> comp_ok cmp \<Longrightarrow> length (srtp_tag X cmp m) = cp_tag_len cmp"
  unfolding crypto_ok_def comp_ok_def srtp_tag_def
  by (metis (no_types, lifting) length_take min.absorb2 option.case_eq_if option.sel)

lemma srtp_verify_ok:
  assumes "mbuf_ok mb" "crypto_ok X" "comp_ok cmp" "start \<le> mb_pos mb"
    and m: "drop start (mb_data mb) = m @ srtp_tag X cmp (m @ rev (mem_bytes (ss_roc (strm srtp i))))"
    and p: "mb_pos mb \<le> start + length m"
    and rp: "srtp_replay_check ix (ss_replay_rtp (strm srtp i)) = (True, rp)"
  shows "\<exists>mb'. srtp_verify X cmp i ix start srtp mb = (0, on_strm i (\<lambda>s. s\<lparr>ss_replay_rtp := rp\<rparr>) srtp, mb') \<and>
    mbuf_ok mb' \<and> mb_pos mb' = mb_pos mb \<and> mb_data mb' = take start (mb_data mb) @ m"
proof -
  obtain k where k: "cp_hmac cmp = Some k" and t20: "cp_tag_len cmp \<le> 20"
    using assms(3) by (auto simp: comp_ok_def)
  let ?roc = "ss_roc (strm srtp i)" and ?n = "cp_tag_len cmp"
  let ?r = "rev (mem_bytes ?roc)"
  define tag where "tag = srtp_tag X cmp (m @ ?r)"
  have lt: "length tag = ?n"
    unfolding tag_def by (rule length_srtp_tag) fact+
  have le: "start \<le> mb_end mb"
    using assms(1,4) by (simp add: mbuf_ok_def)
  have "length (drop start (mb_data mb)) = length m + ?n"
    using m lt by (simp add: tag_def)
  then have e: "mb_end mb = start + length m + ?n"
    using assms(1) le by simp
  define ts where "ts = start + length m"
  have dt: "mb_data mb = take start (mb_data mb) @ m @ tag"
    using m by (metis append_take_drop_id tag_def)
  have ls: "length (take start (mb_data mb)) = start"
    using le assms(1) by simp
  have d1: "take ts (mb_data mb) = take start (mb_data mb) @ m" "drop ts (mb_data mb) = tag"
    by (subst dt, simp add: ts_def ls del: length_take take_take)+
  define mb0 where "mb0 = mb\<lparr>mb_pos := ts\<rparr>"
  have ok0: "mbuf_ok mb0" and r0: "mbuf_rest mb0 = tag @ []"
    using assms(1) e d1(2) by (simp_all add: mb0_def ts_def mbuf_ok_def mbuf_rest_data)
  have rd: "mbuf_read_mem ?n mb0 = (0, tag, mb0\<lparr>mb_pos := mb_pos mb0 + ?n\<rparr>)"
    by (rule mbuf_read_mem_ok [OF ok0 r0]) (simp add: lt)
  define mb1 where "mb1 = mb\<lparr>mb_pos := ts, mb_end := ts\<rparr>"
  have ok1: "mbuf_ok mb1" and da1: "mb_data mb1 = take start (mb_data mb) @ m" and e1: "mb_end mb1 = ts"
    "mb1\<lparr>mb_pos := mb_end mb1\<rparr> = mb1"
    using assms(1) e d1(1) by (simp_all add: mb1_def mb_data_cut ts_def mbuf_ok_def)
  define mb2 where "mb2 = mbuf_write_u32 (hton ?roc) mb1"
  note w = mbuf_write_end [OF ok1, of ?r, unfolded e1(2), folded mbuf_write_u32_mem, folded mb2_def, unfolded da1 e1(1)]
  have r2: "mbuf_rest (mb2\<lparr>mb_pos := start\<rparr>) = m @ ?r"
    using ls by (simp add: mbuf_rest_data w)
  obtain t where t: "hmac_digest X k (m @ ?r) = Inr t" "cr_hmac_sha1 X k (m @ ?r) = Some t"
    using hmac_ok [OF assms(2), of "m @ ?r" k] by auto
  have tt: "take ?n t = tag"
    by (simp add: tag_def srtp_tag_def k t(2))
  define mb3 where "mb3 = mb2\<lparr>mb_pos := mb_pos mb, mb_end := ts\<rparr>"
  have "mbuf_ok mb3" and "mb_data mb3 = take start (mb_data mb) @ m"
    using w p ls by (simp_all add: mb3_def mb_data_cut ts_def mbuf_ok_def)
  moreover have "mbuf_get_left mb \<ge> ?n" "mb_end mb - ?n = ts"
    using p e by (simp_all add: mbuf_get_left_def ts_def)
  moreover have "mb0\<lparr>mb_pos := mb_pos mb0 + ?n\<rparr>\<lparr>mb_pos := ts, mb_end := ts\<rparr> = mb1"
    "mb2\<lparr>mb_pos := start\<rparr>\<lparr>mb_pos := mb_pos mb, mb_end := ts\<rparr> = mb3"
    by (simp_all add: mb0_def mb1_def mb3_def)
  moreover have "mb_pos mb3 = mb_pos mb"
    by (simp add: mb3_def)
  ultimately show ?thesis
    using rd r2 t(1) tt rp by (simp add: srtp_verify_def k Let_def mb0_def [symmetric] mb2_def [symmetric])
qed

lemma srtp_packet_header:
  fixes X cmp roc
  assumes "rtp_ok bs"
  defines "pkt \<equiv> srtp_packet X cmp roc bs"
  shows "rtp_ok pkt" "rtp_len pkt = rtp_len bs" "rtp_u32 8 pkt = rtp_u32 8 bs" "rtp_u16 2 pkt = rtp_u16 2 bs"
proof -
  have "take (rtp_len bs) pkt = take (rtp_len bs) bs"
    using assms(1) by (simp add: pkt_def srtp_packet_def srtp_body_def rtp_ok_def Let_def)
  note p = rtp_prefix [OF assms(1) this]
  show "rtp_ok pkt" "rtp_len pkt = rtp_len bs"
    by (rule p)+
  show "rtp_u32 8 pkt = rtp_u32 8 bs" "rtp_u16 2 pkt = rtp_u16 2 bs"
    using arg_cong [OF p(3), of rh_ssrc] arg_cong [OF p(3), of rh_seq] by simp_all
qed

lemma srtp_body_body:
  assumes "crypto_ok X" "rtp_ok bs"
  shows "take (rtp_len bs) bs @ ctr X (cp_aes cmp) (srtp_iv_calc (cp_k_s cmp) (rtp_u32 8 bs) ix)
           (drop (rtp_len bs) (srtp_body X cmp ix bs)) = bs"
  using assms by (simp add: srtp_body_def rtp_ok_def ctr_ok Let_def)

lemma srtp_decrypt_ok:
  fixes srtp
  assumes "mbuf_ok mb" "crypto_ok X" "comp_ok (sr_rtp srtp)" "rtp_ok bs" "has_room (rtp_u32 8 bs) srtp"
  defines "s0 \<equiv> strm_for (rtp_u32 8 bs) (rtp_u16 2 bs) srtp"
  defines "s \<equiv> roll (rtp_u16 2 bs) s0"
  assumes near: "seq_diff (ss_s_l s0) (rtp_u16 2 bs) \<le> 32768"
    and pkt: "mbuf_rest mb = srtp_packet X (sr_rtp srtp) (ss_roc s) bs"
    and ix: "srtp_get_index (ss_roc s) (ss_s_l s) (rtp_u16 2 bs) = 65536 * ucast (ss_roc s) + ucast (rtp_u16 2 bs)"
    and rp: "srtp_replay_check (65536 * ucast (ss_roc s) + ucast (rtp_u16 2 bs)) (ss_replay_rtp s) = (True, rp)"
  shows "\<exists>srtp' mb'. srtp_decrypt X srtp mb = (0, srtp', mb') \<and> mbuf_ok mb' \<and> mb_pos mb' = mb_pos mb \<and>
    mb_data mb' = take (mb_pos mb) (mb_data mb) @ bs \<and> sr_rtp srtp' = sr_rtp srtp \<and>
    (\<forall>y. stream_of y srtp' =
       (if y = rtp_u32 8 bs then Some (raise_seq (rtp_u16 2 bs) (s\<lparr>ss_replay_rtp := rp\<rparr>)) else stream_of y srtp))"
proof -
  let ?ssrc = "rtp_u32 8 bs" and ?sq = "rtp_u16 2 bs" and ?c = "sr_rtp srtp" and ?n = "rtp_len bs"
  obtain i srtp1 where g: "stream_get_seq ?ssrc ?sq srtp = Inr (i, srtp1)"
    "stream_find ?ssrc (sr_streaml srtp1) = Some i" "sr_rtp srtp1 = ?c" "strm srtp1 i = s0"
    "\<And>y. y \<noteq> ?ssrc \<Longrightarrow> stream_of y srtp1 = stream_of y srtp" "i < length (sr_streaml srtp1)"
    using stream_get_seq_room [OF assms(5)] unfolding s0_def by metis
  define srtp2 where "srtp2 = on_strm i (roll ?sq) srtp1"
  have s2: "strm srtp2 i = s" "i < length (sr_streaml srtp2)" "stream_find ?ssrc (sr_streaml srtp2) = Some i"
    using g by (simp_all add: srtp2_def s_def)
  have e2: "(if seq_diff (ss_s_l s0) ?sq \<le> -32768
      then on_strm i (\<lambda>s. s\<lparr>ss_roc := ss_roc s + 1, ss_s_l := 0\<rparr>) srtp1 else srtp1) = srtp2"
    using g(6) unfolding g(4) [symmetric] by (simp add: srtp2_def roll_def on_strm_def strm_def)
  have sss: "ss_ssrc s = ?ssrc"
    by (simp add: s_def s0_def)
  let ?ix = "65536 * ucast (ss_roc s) + ucast ?sq :: u64"
  let ?iv = "srtp_iv_calc (cp_k_s ?c) ?ssrc ?ix" and ?m = "srtp_body X ?c ?ix bs"
  define mb1 where "mb1 = mb_at mb ?n"
  note h = srtp_packet_header [OF assms(4), of X ?c "ss_roc s"]
  have d: "rtp_hdr_decode rtp_header_zero mb = (0, rtp_hdr_of rtp_header_zero (mbuf_rest mb), mb1)"
    using rtp_hdr_decode_ok [OF assms(1)] h by (simp add: mb1_def pkt)
  have hs: "rh_ssrc (rtp_hdr_of rtp_header_zero (mbuf_rest mb)) = ?ssrc"
    "rh_seq (rtp_hdr_of rtp_header_zero (mbuf_rest mb)) = ?sq"
    by (simp_all add: pkt h)
  have n: "?n \<le> length bs" "length ?m = length bs"
    using assms(4) by (simp_all add: rtp_ok_def srtp_body_def ctr_ok [OF assms(2)] Let_def)
  have lp: "?n \<le> length (mbuf_rest mb)"
    using n by (simp add: pkt srtp_packet_def Let_def)
  have mb1: "mbuf_ok mb1" "mb_data mb1 = mb_data mb" "mb_pos mb1 = mb_pos mb + ?n"
    using assms(1) lp by (simp_all add: mb1_def)
  define srtp3 where "srtp3 = on_strm i (\<lambda>s. s\<lparr>ss_replay_rtp := rp\<rparr>) srtp2"
  have s3: "strm srtp3 i = s\<lparr>ss_replay_rtp := rp\<rparr>" "i < length (sr_streaml srtp3)"
    "stream_find ?ssrc (sr_streaml srtp3) = Some i"
    using s2 by (simp_all add: srtp3_def)
  have "drop (mb_pos mb) (mb_data mb1) = ?m @ srtp_tag X ?c (?m @ rev (mem_bytes (ss_roc (strm srtp2 i))))"
    using pkt by (simp add: mb1(2) s2(1) mbuf_rest_data [symmetric] srtp_packet_def Let_def)
  from srtp_verify_ok [OF mb1(1) assms(2,3) _ this] obtain mb2
    where v: "srtp_verify X ?c i ?ix (mb_pos mb) srtp2 mb1 = (0, srtp3, mb2)"
      "mbuf_ok mb2" "mb_pos mb2 = mb_pos mb1" "mb_data mb2 = take (mb_pos mb) (mb_data mb) @ ?m"
    using rp n mb1 by (auto simp: s2(1) srtp3_def)
  have lt: "length (take (mb_pos mb) (mb_data mb)) = mb_pos mb"
    using assms(1) by (simp add: mbuf_ok_def)
  have r2: "mbuf_rest mb2 = drop ?n ?m"
    using lt by (simp add: mbuf_rest_data v mb1(3) del: length_take)
  have tb: "take ?n ?m = take ?n bs"
    using n by (simp add: srtp_body_def Let_def)
  have t2: "take (mb_pos mb2) (mb_data mb2) = take (mb_pos mb) (mb_data mb) @ take ?n bs"
    using lt tb by (simp add: v mb1(3) del: length_take)
  obtain mb3 where c: "(case cp_aes ?c of None \<Rightarrow> (0, mb2) | Some aes \<Rightarrow> crypt_rest (aes_decr X aes ?iv) mb2) = (0, mb3)"
    "mbuf_ok mb3" "mb_end mb3 = mb_end mb2" "mb_data mb3 = take (mb_pos mb) (mb_data mb) @ bs"
  proof (cases "cp_aes ?c")
    case None
    then show ?thesis
      using v n by (intro that [of mb2]) (simp_all add: srtp_body_def ctr_def)
  next
    case (Some k)
    then show ?thesis
      using crypt_rest_ok [OF v(2), of "aes_decr X k ?iv" "ctr X (Some k) ?iv (drop ?n ?m)"] ctr_ok [OF assms(2)]
        srtp_body_body [OF assms(2,4), of ?c ?ix] r2 t2 that
      by (auto simp: aes_decr_def)
  qed
  have e3: "(if ?sq > ss_s_l (strm srtp3 i) then on_strm i (\<lambda>s. s\<lparr>ss_s_l := ?sq\<rparr>) srtp3 else srtp3) =
      on_strm i (raise_seq ?sq) srtp3"
    using s3(2) by (simp add: raise_seq_def on_strm_def strm_def)
  have near': "\<not> seq_diff (ss_s_l s0) ?sq > 32768"
    using near by simp
  have ss3: "ss_ssrc (strm srtp3 i) = ?ssrc"
    by (simp add: s3 sss)
  have "srtp_decrypt X srtp mb = (0, on_strm i (raise_seq ?sq) srtp3, mb3\<lparr>mb_pos := mb_pos mb\<rparr>)"
    by (simp only: srtp_decrypt_def Let_def d prod.case hs g(1) sum.case g(4) near' e2 s2(1) ix v(1) ss3 c(1) e3
        simp_thms if_False)
  moreover have "mbuf_ok (mb3\<lparr>mb_pos := mb_pos mb\<rparr>)"
    using c(2,3) v(2,3) mb1(3) by (intro mbuf_ok_pos) (simp_all add: mbuf_ok_def)
  moreover have "stream_of y (on_strm i (raise_seq ?sq) srtp3) =
       (if y = ?ssrc then Some (raise_seq ?sq (s\<lparr>ss_replay_rtp := rp\<rparr>)) else stream_of y srtp)" for y
    using stream_of_on_strm [OF s3(3), of "raise_seq ?sq"] stream_of_on_strm [OF s2(3), of "\<lambda>s. s\<lparr>ss_replay_rtp := rp\<rparr>"]
      stream_of_on_strm [OF g(2), of "roll ?sq"] g(5) s3(1)
    by (simp add: srtp3_def [symmetric] srtp2_def [symmetric])
  moreover have "sr_rtp (on_strm i (raise_seq ?sq) srtp3) = ?c"
    using g(3) by (simp add: srtp3_def srtp2_def)
  ultimately show ?thesis
    using c(4) by simp
qed

section \<open>Packet numbers beyond 16 bits\<close>

text \<open>
  The packets of a stream are numbered without wrapping around; the header carries the low 16 bits, and
  the roll-over counter of either side stands for the rest.
\<close>

definition num_seq :: "nat \<Rightarrow> u16" where
  "num_seq e = of_nat (e mod 65536)"

definition num_roc :: "nat \<Rightarrow> u32" where
  "num_roc e = of_nat (e div 65536)"

definition tracks :: "nat \<Rightarrow> srtp_stream \<Rightarrow> bool" where
  "tracks e s \<longleftrightarrow> ss_s_l_set s \<and> ss_roc s = num_roc e \<and> ss_s_l s = num_seq e"

lemma uint_num_seq [simp]: "uint (num_seq e) = int (e mod 65536)" "unat (num_seq e) = e mod 65536"
  by (simp_all add: num_seq_def unsigned_of_nat take_bit_nat_eq_self)

lemma seq_diff_num: "seq_diff (num_seq e) (num_seq e') = int (e' mod 65536) - int (e mod 65536)"
  by (simp add: seq_diff_def)

lemma ix_num:
  assumes "e < 2 ^ 31"
  shows "65536 * ucast (num_roc e) + ucast (num_seq e) = (of_nat e :: u64)"
proof -
  have "(ucast (num_roc e) :: u64) = of_nat (e div 65536)" "(ucast (num_seq e) :: u64) = of_nat (e mod 65536)"
    using assms by (simp_all add: num_roc_def num_seq_def unsigned_of_nat take_bit_nat_eq_self less_mult_imp_div_less)
  then have "65536 * ucast (num_roc e) + ucast (num_seq e) = (of_nat (65536 * (e div 65536) + e mod 65536) :: u64)"
    by (simp only: of_nat_add of_nat_mult of_nat_numeral)
  then show ?thesis by simp
qed

lemma get_index_num:
  assumes "e < 2 ^ 31" and "\<not> (s_l < 32768 \<and> uint (num_seq e) - uint s_l > 32768)"
    "\<not> (\<not> s_l < 32768 \<and> uint s_l - 32768 > uint (num_seq e))"
  shows "srtp_get_index (num_roc e) s_l (num_seq e) = of_nat e"
proof -
  have "(ucast (num_seq e) :: u32) = of_nat (e mod 65536)"
    by (simp add: num_seq_def unsigned_of_nat take_bit_nat_eq_self)
  then have "ucast (num_seq e) + num_roc e * 65536 = (of_nat (e mod 65536 + e div 65536 * 65536) :: u32)"
    by (simp only: num_roc_def of_nat_add of_nat_mult of_nat_numeral)
  then have w: "ucast (num_seq e) + num_roc e * 65536 = (of_nat e :: u32)"
    by simp
  have "signed_take_bit 31 (int e) = int e"
    using assms(1) by (intro signed_take_bit_int_eq_self) (simp_all add: of_nat_less_iff [of e "2 ^ 31", symmetric] del: of_nat_less_iff)
  then have "scast (of_nat e :: u32) = (of_nat e :: u64)"
    by (simp add: signed_of_nat)
  then show ?thesis
    using assms(2,3) w by (auto simp: srtp_get_index_def Let_def)
qed

lemma roll_ahead:
  assumes "tracks e s" "e < e'" "e' \<le> e + 32768" "e' < 2 ^ 31"
  defines "r \<equiv> roll (num_seq e') s"
  shows "seq_diff (ss_s_l s) (num_seq e') \<le> 32768" "ss_roc r = num_roc e'" "ss_replay_rtp r = ss_replay_rtp s"
    "srtp_get_index (ss_roc r) (ss_s_l r) (num_seq e') = of_nat e'"
    "tracks e' (raise_seq (num_seq e') (r\<lparr>ss_replay_rtp := rp\<rparr>))" "tracks e' (raise_seq (num_seq e') r)"
proof -
  have s: "ss_s_l_set s" "ss_roc s = num_roc e" "ss_s_l s = num_seq e"
    using assms(1) by (simp_all add: tracks_def)
  let ?m = "e mod 65536" and ?m' = "e' mod 65536"
  consider (same) "e' div 65536 = e div 65536" "?m < ?m'" "?m' \<le> ?m + 32768" |
    (wrap) "e' div 65536 = e div 65536 + 1" "?m' + 32768 \<le> ?m"
  proof -
    have "e div 65536 \<le> e' div 65536" "e' div 65536 \<le> (e + 65536) div 65536"
      using assms(2,3) by (intro div_le_mono; simp)+
    then have "e' div 65536 = e div 65536 \<or> e' div 65536 = e div 65536 + 1"
      by simp arith
    moreover have "65536 * (e div 65536) + ?m = e" "65536 * (e' div 65536) + ?m' = e'"
      by simp_all
    ultimately show ?thesis
      using assms(2,3) that by linarith
  qed
  then have "seq_diff (ss_s_l s) (num_seq e') \<le> 32768 \<and> ss_roc r = num_roc e' \<and>
      ss_replay_rtp r = ss_replay_rtp s \<and>
      srtp_get_index (ss_roc r) (ss_s_l r) (num_seq e') = of_nat e' \<and> ss_s_l_set r \<and>
      (if num_seq e' > ss_s_l r then num_seq e' else ss_s_l r) = num_seq e'"
  proof cases
    case same
    then have r: "r = s"
      by (simp add: r_def roll_def s seq_diff_num)
    have "num_roc e' = num_roc e"
      using same by (simp add: num_roc_def)
    moreover have "num_seq e' > num_seq e"
      using same by (simp add: word_less_nat_alt)
    moreover have "srtp_get_index (num_roc e') (num_seq e) (num_seq e') = of_nat e'"
      using same by (intro get_index_num assms) auto
    ultimately show ?thesis
      using same by (simp add: r s seq_diff_num)
  next
    case wrap
    then have r: "r = s\<lparr>ss_roc := ss_roc s + 1, ss_s_l := 0\<rparr>"
      by (simp add: r_def roll_def s seq_diff_num)
    have "num_roc e' = num_roc e + 1"
      using wrap by (simp add: num_roc_def)
    moreover have "srtp_get_index (num_roc e') 0 (num_seq e') = of_nat e'"
      using wrap mod_less_divisor [of 65536 e] by (intro get_index_num assms) auto
    moreover have "num_seq e' = 0 \<or> num_seq e' > 0"
      by (auto simp: word_less_nat_alt word_unat_eq_iff)
    ultimately show ?thesis
      using wrap by (auto simp: r s seq_diff_num)
  qed
  then show "seq_diff (ss_s_l s) (num_seq e') \<le> 32768" "ss_roc r = num_roc e'" "ss_replay_rtp r = ss_replay_rtp s"
    "srtp_get_index (ss_roc r) (ss_s_l r) (num_seq e') = of_nat e'"
    "tracks e' (raise_seq (num_seq e') (r\<lparr>ss_replay_rtp := rp\<rparr>))" "tracks e' (raise_seq (num_seq e') r)"
    by (auto simp: tracks_def raise_seq_def split: if_splits)
qed

lemma roll_behind:
  assumes "tracks e s" "e' \<le> e" "e' div 65536 = e div 65536" "e < e' + 32768" "e' < 2 ^ 31"
  shows "seq_diff (ss_s_l s) (num_seq e') \<le> 32768" "roll (num_seq e') s = s" "ss_roc s = num_roc e'"
    "srtp_get_index (ss_roc s) (ss_s_l s) (num_seq e') = of_nat e'"
    "raise_seq (num_seq e') (s\<lparr>ss_replay_rtp := rp\<rparr>) = s\<lparr>ss_replay_rtp := rp\<rparr>"
proof -
  have s: "ss_s_l_set s" "ss_roc s = num_roc e" "ss_s_l s = num_seq e"
    using assms(1) by (simp_all add: tracks_def)
  have m: "e' mod 65536 \<le> e mod 65536" "e mod 65536 < e' mod 65536 + 32768"
    using assms(2,3,4) mult_div_mod_eq [of 65536 e] mult_div_mod_eq [of 65536 e'] by linarith+
  show "seq_diff (ss_s_l s) (num_seq e') \<le> 32768" "roll (num_seq e') s = s"
    using m by (simp_all add: s seq_diff_num roll_def)
  show r: "ss_roc s = num_roc e'"
    using assms(3) by (simp add: s num_roc_def)
  show "srtp_get_index (ss_roc s) (ss_s_l s) (num_seq e') = of_nat e'"
    unfolding r s(3) using m by (intro get_index_num assms) auto
  show "raise_seq (num_seq e') (s\<lparr>ss_replay_rtp := rp\<rparr>) = s\<lparr>ss_replay_rtp := rp\<rparr>"
    using m by (simp add: raise_seq_def s word_less_nat_alt)
qed

section \<open>From one end to the other\<close>

text \<open>A new session has no streams, and both its parts authenticate.\<close>

lemma comp_init_ok: "comp_init X offs key s n enc = Inr cmp \<Longrightarrow> cp_hmac cmp \<noteq> None \<and> cp_tag_len cmp = n \<and> n \<le> 20"
  by (auto simp: comp_init_def Let_def split: if_splits sum.splits)

lemma srtp_alloc_ok:
  assumes "srtp_alloc X suite key f = Inr srtp"
  shows "comp_ok (sr_rtp srtp)" "comp_ok (sr_rtcp srtp)" "sr_streaml srtp = []"
  using assms
  by (auto simp: srtp_alloc_def comp_ok_def Let_def dest!: comp_init_ok split: if_splits sum.splits prod.splits)

text \<open>The packet after \<open>prev\<close>: the first one is below \<open>2\<^sup>1\<^sup>6\<close>, a later one is ahead by at most \<open>2\<^sup>1\<^sup>5\<close>.\<close>

definition ahead :: "nat option \<Rightarrow> nat \<Rightarrow> bool" where
  "ahead prev e \<longleftrightarrow> e < 2 ^ 31 \<and> (case prev of None \<Rightarrow> e < 65536 | Some h \<Rightarrow> h < e \<and> e \<le> h + 32768)"

definition follows :: "u32 \<Rightarrow> nat option \<Rightarrow> srtp \<Rightarrow> bool" where
  "follows ssrc prev srtp \<longleftrightarrow>
     (case prev of
        None \<Rightarrow> stream_of ssrc srtp = None \<and> length (sr_streaml srtp) < SRTP_MAX_STREAMS
      | Some e \<Rightarrow> (\<exists>s. stream_of ssrc srtp = Some s \<and> tracks e s))"

lemma follows_room: "follows ssrc prev srtp \<Longrightarrow> has_room ssrc srtp"
  by (auto simp: follows_def has_room_def split: option.splits)

lemma follows_ahead:
  fixes srtp
  assumes "follows ssrc prev srtp" "ahead prev e"
  defines "s \<equiv> strm_for ssrc (num_seq e) srtp"
  defines "r \<equiv> roll (num_seq e) s"
  shows "seq_diff (ss_s_l s) (num_seq e) \<le> 32768" "ss_roc r = num_roc e" "ss_replay_rtp r = ss_replay_rtp s"
    "srtp_get_index (ss_roc r) (ss_s_l r) (num_seq e) = of_nat e"
    "tracks e (raise_seq (num_seq e) (r\<lparr>ss_replay_rtp := rp\<rparr>))" "tracks e (raise_seq (num_seq e) r)"
proof -
  have "seq_diff (ss_s_l s) (num_seq e) \<le> 32768 \<and> ss_roc r = num_roc e \<and> ss_replay_rtp r = ss_replay_rtp s \<and>
    srtp_get_index (ss_roc r) (ss_s_l r) (num_seq e) = of_nat e \<and>
    tracks e (raise_seq (num_seq e) (r\<lparr>ss_replay_rtp := rp\<rparr>)) \<and> tracks e (raise_seq (num_seq e) r)"
  proof (cases prev)
    case None
    then have s: "s = (new_stream ssrc)\<lparr>ss_s_l := num_seq e, ss_s_l_set := True\<rparr>"
      using assms(1) by (simp add: follows_def s_def strm_for_def set_seq_def new_stream_def)
    have e: "e < 65536" "e < 2 ^ 31"
      using assms(2) None by (simp_all add: ahead_def)
    have r: "r = s"
      by (simp add: r_def roll_def s seq_diff_def)
    have "num_roc e = 0"
      using e by (simp add: num_roc_def)
    moreover have "srtp_get_index (num_roc e) (num_seq e) (num_seq e) = of_nat e"
      using e by (intro get_index_num) (auto simp: word_less_nat_alt)
    ultimately show ?thesis
      by (simp add: r s seq_diff_def new_stream_def tracks_def raise_seq_def)
  next
    case (Some h)
    then have "tracks h s" "h < e" "e \<le> h + 32768" "e < 2 ^ 31"
      using assms(1,2) by (auto simp: follows_def ahead_def s_def strm_for_def set_seq_def tracks_def)
    note h = this
    show ?thesis
      unfolding r_def by (intro conjI roll_ahead [OF h])
  qed
  then show "seq_diff (ss_s_l s) (num_seq e) \<le> 32768" "ss_roc r = num_roc e" "ss_replay_rtp r = ss_replay_rtp s"
    "srtp_get_index (ss_roc r) (ss_s_l r) (num_seq e) = of_nat e"
    "tracks e (raise_seq (num_seq e) (r\<lparr>ss_replay_rtp := rp\<rparr>))" "tracks e (raise_seq (num_seq e) r)"
    by blast+
qed

definition mb_of :: "u8 list \<Rightarrow> mbuf" where
  "mb_of bs = \<lparr>mb_buf = bs, mb_pos = 0, mb_end = length bs\<rparr>"

lemma mb_of_simps [simp]: "mbuf_ok (mb_of bs)" "mb_data (mb_of bs) = bs" "mbuf_rest (mb_of bs) = bs" "mb_pos (mb_of bs) = 0"
  by (simp_all add: mb_of_def mbuf_ok_def mb_data_def mbuf_rest_data)

fun srtp_send :: "crypto \<Rightarrow> srtp \<Rightarrow> u8 list list \<Rightarrow> (int \<times> u8 list) list" where
  "srtp_send X srtp [] = []"
| "srtp_send X srtp (p # ps) =
     (let (err, srtp, mb) = srtp_encrypt X srtp (mb_of p) in (err, mb_data mb) # srtp_send X srtp ps)"

fun srtp_recv :: "crypto \<Rightarrow> srtp \<Rightarrow> u8 list list \<Rightarrow> (int \<times> u8 list) list" where
  "srtp_recv X srtp [] = []"
| "srtp_recv X srtp (p # ps) =
     (let (err, srtp, mb) = srtp_decrypt X srtp (mb_of p) in (err, mb_data mb) # srtp_recv X srtp ps)"

text \<open>A packet of the stream with the number \<open>e\<close>.\<close>

definition numbered :: "u32 \<Rightarrow> nat \<Rightarrow> u8 list \<Rightarrow> bool" where
  "numbered ssrc e p \<longleftrightarrow> rtp_ok p \<and> rtp_u32 8 p = ssrc \<and> rtp_u16 2 p = num_seq e"

fun sent_ok :: "nat option \<Rightarrow> nat list \<Rightarrow> bool" where
  "sent_ok prev [] = True"
| "sent_ok prev (e # es) = (ahead prev e \<and> sent_ok (Some e) es)"

lemma srtp_send_eq:
  assumes "crypto_ok X"
  shows "follows ssrc prev srtp \<Longrightarrow> sent_ok prev es \<Longrightarrow> list_all2 (numbered ssrc) es ps \<Longrightarrow>
    srtp_send X srtp ps = map2 (\<lambda>e p. (0, srtp_packet X (sr_rtp srtp) (num_roc e) p)) es ps"
proof (induction es arbitrary: ps srtp prev)
  case Nil
  then show ?case by simp
next
  case (Cons e es)
  then obtain p qs where ps: "ps = p # qs" and p: "numbered ssrc e p" and qs: "list_all2 (numbered ssrc) es qs"
    by (auto simp: list_all2_Cons1)
  have p': "rtp_ok p" "rtp_u32 8 p = ssrc" "rtp_u16 2 p = num_seq e"
    using p by (simp_all add: numbered_def)
  note f = follows_ahead [OF Cons.prems(1), of e]
  obtain srtp' mb' where r: "srtp_encrypt X srtp (mb_of p) = (0, srtp', mb')"
    "mb_data mb' = srtp_packet X (sr_rtp srtp) (num_roc e) p" "sr_rtp srtp' = sr_rtp srtp"
    "follows ssrc (Some e) srtp'"
    using srtp_encrypt_ok [of "mb_of p" p X srtp] assms p' follows_room [OF Cons.prems(1)] f Cons.prems(2)
    by (auto simp: follows_def)
  with Cons.IH [OF r(4) _ qs] Cons.prems(2) show ?case
    by (simp add: ps)
qed

text \<open>
  Packets may be lost, and packets may be late: a packet may arrive if it is ahead of the latest one, or
  if it is new, less than 64 behind and on the same side of a roll-over.
\<close>

definition late :: "nat option \<Rightarrow> nat list \<Rightarrow> nat \<Rightarrow> bool" where
  "late prev seen e \<longleftrightarrow>
     (case prev of
        None \<Rightarrow> False
      | Some h \<Rightarrow> e \<le> h \<and> e div 65536 = h div 65536 \<and> h < e + 64 \<and> e < 2 ^ 31 \<and> e \<notin> set seen)"

definition latest :: "nat option \<Rightarrow> nat \<Rightarrow> nat option" where
  "latest prev e = Some (case prev of None \<Rightarrow> e | Some h \<Rightarrow> max h e)"

fun arrive_ok :: "nat option \<Rightarrow> nat list \<Rightarrow> nat list \<Rightarrow> bool" where
  "arrive_ok prev seen [] = True"
| "arrive_ok prev seen (e # es) =
     ((ahead prev e \<or> late prev seen e) \<and> arrive_ok (latest prev e) (e # seen) es)"

definition recv_inv :: "u32 \<Rightarrow> nat option \<Rightarrow> nat list \<Rightarrow> srtp \<Rightarrow> bool" where
  "recv_inv ssrc prev seen srtp \<longleftrightarrow> follows ssrc prev srtp \<and>
     (case prev of
        None \<Rightarrow> seen = []
      | Some h \<Rightarrow> (\<forall>s. stream_of ssrc srtp = Some s \<longrightarrow>
          replay_inv (ss_replay_rtp s) (set seen) \<and> unat (rp_lix (ss_replay_rtp s)) = h))"

lemma unat_num: "e < 2 ^ 31 \<Longrightarrow> unat (of_nat e :: u64) = e"
  by (simp add: unsigned_of_nat take_bit_nat_eq_self)

lemma recv_ahead:
  assumes "recv_inv ssrc prev seen srtp" "ahead prev e"
  obtains rp where "srtp_replay_check (of_nat e) (ss_replay_rtp (strm_for ssrc (num_seq e) srtp)) = (True, rp)"
    "replay_inv rp (set (e # seen))" "unat (rp_lix rp) = e"
proof -
  let ?rp = "ss_replay_rtp (strm_for ssrc (num_seq e) srtp)"
  have e: "e < 2 ^ 31"
    using assms(2) by (simp add: ahead_def)
  have "replay_inv ?rp (set seen) \<and> (unat (rp_lix ?rp) < e \<or> prev = None \<and> unat (rp_lix ?rp) = 0 \<and> seen = [])"
    using assms
    by (auto simp: recv_inv_def follows_def ahead_def strm_for_def set_seq_def new_stream_def
        replay_inv_init [unfolded srtp_replay_init_def] srtp_replay_init_def split: option.splits)
  then have i: "replay_inv ?rp (set seen)" "e \<notin> set seen" "unat (rp_lix ?rp) \<le> e"
    by (auto simp: replay_inv_def)
  obtain ok rp where c: "srtp_replay_check (of_nat e) ?rp = (ok, rp)"
    by force
  have ok
    using replay_check(1) [OF i(1) c] i e by (simp add: unat_num)
  moreover have "unat (rp_lix rp) = e"
    using replay_check(3) [OF i(1) c] \<open>ok\<close> i(3) e by (simp add: unat_max unat_num)
  ultimately show ?thesis
    using that c replay_check(2) [OF i(1) c] e by (simp add: unat_num)
qed

lemma recv_late:
  assumes "recv_inv ssrc (Some h) seen srtp" "late (Some h) seen e" "stream_of ssrc srtp = Some s"
  obtains rp where "srtp_replay_check (of_nat e) (ss_replay_rtp s) = (True, rp)"
    "replay_inv rp (set (e # seen))" "unat (rp_lix rp) = h"
proof -
  have e: "e < 2 ^ 31" "e \<le> h" "h < e + 64" "e \<notin> set seen"
    using assms(2) by (simp_all add: late_def)
  have i: "replay_inv (ss_replay_rtp s) (set seen)" "unat (rp_lix (ss_replay_rtp s)) = h"
    using assms(1,3) by (auto simp: recv_inv_def)
  obtain ok rp where c: "srtp_replay_check (of_nat e) (ss_replay_rtp s) = (ok, rp)"
    by force
  have ok
    using replay_check(1) [OF i(1) c] i e by (simp add: unat_num)
  moreover have "unat (rp_lix rp) = h"
    using replay_check(3) [OF i(1) c] \<open>ok\<close> i(2) e by (simp add: unat_max unat_num)
  ultimately show ?thesis
    using that c replay_check(2) [OF i(1) c] e by (simp add: unat_num)
qed

lemma srtp_recv_step:
  assumes "crypto_ok X" "comp_ok (sr_rtp srtp)" "recv_inv ssrc prev seen srtp" "ahead prev e \<or> late prev seen e"
    and p: "numbered ssrc e p"
  shows "\<exists>srtp' mb'. srtp_decrypt X srtp (mb_of (srtp_packet X (sr_rtp srtp) (num_roc e) p)) = (0, srtp', mb') \<and>
    mb_data mb' = p \<and> sr_rtp srtp' = sr_rtp srtp \<and> recv_inv ssrc (latest prev e) (e # seen) srtp'"
proof -
  have p': "rtp_ok p" "rtp_u32 8 p = ssrc" "rtp_u16 2 p = num_seq e"
    using p by (simp_all add: numbered_def)
  have fo: "follows ssrc prev srtp" and room: "has_room ssrc srtp"
    using assms(3) follows_room by (auto simp: recv_inv_def)
  let ?s = "strm_for ssrc (num_seq e) srtp"
  from assms(4) show ?thesis
  proof
    assume a: "ahead prev e"
    note f = follows_ahead [OF fo a]
    have e: "e < 2 ^ 31"
      using a by (simp add: ahead_def)
    obtain rp where rp: "srtp_replay_check (of_nat e) (ss_replay_rtp ?s) = (True, rp)"
      "replay_inv rp (set (e # seen))" "unat (rp_lix rp) = e"
      using recv_ahead [OF assms(3) a] by blast
    have l: "latest prev e = Some e"
      using a by (auto simp: latest_def ahead_def split: option.splits)
    show ?thesis
      using srtp_decrypt_ok [of "mb_of (srtp_packet X (sr_rtp srtp) (num_roc e) p)" X srtp p rp] assms(1,2) p' room f rp ix_num [OF e]
      by (auto simp: l recv_inv_def follows_def raise_seq_def)
  next
    assume b: "late prev seen e"
    then obtain h where h: "prev = Some h" and lt: "e \<le> h" "e div 65536 = h div 65536" "h < e + 32768" "e < 2 ^ 31"
      by (auto simp: late_def split: option.splits)
    obtain s where s: "stream_of ssrc srtp = Some s" "tracks h s"
      using fo h by (auto simp: follows_def)
    note f = roll_behind [OF s(2) lt]
    have ss: "?s = s"
      using s by (simp add: strm_for_def set_seq_def tracks_def)
    obtain rp where rp: "srtp_replay_check (of_nat e) (ss_replay_rtp s) = (True, rp)"
      "replay_inv rp (set (e # seen))" "unat (rp_lix rp) = h"
      using recv_late [OF assms(3) [unfolded h] b [unfolded h] s(1)] by blast
    have l: "latest prev e = Some h"
      using lt by (simp add: latest_def h)
    have "\<exists>srtp' mb'. srtp_decrypt X srtp (mb_of (srtp_packet X (sr_rtp srtp) (num_roc e) p)) = (0, srtp', mb') \<and>
      mb_data mb' = p \<and> sr_rtp srtp' = sr_rtp srtp \<and> stream_of ssrc srtp' = Some (s\<lparr>ss_replay_rtp := rp\<rparr>)"
      using srtp_decrypt_ok [of "mb_of (srtp_packet X (sr_rtp srtp) (num_roc e) p)" X srtp p rp, unfolded p'(2,3) ss f(2,5)]
        assms(1,2) p'(1) room f(1,3,4) rp(1) ix_num [OF lt(4)]
      by auto
    moreover have "tracks h (s\<lparr>ss_replay_rtp := rp\<rparr>)"
      using s(2) by (simp add: tracks_def)
    ultimately show ?thesis
      using rp(2,3) by (auto simp: l recv_inv_def follows_def)
  qed
qed

lemma srtp_recv_eq:
  assumes "crypto_ok X"
  shows "comp_ok (sr_rtp srtp) \<Longrightarrow> recv_inv ssrc prev seen srtp \<Longrightarrow> arrive_ok prev seen es \<Longrightarrow>
    list_all2 (numbered ssrc) es ps \<Longrightarrow>
    srtp_recv X srtp (map2 (\<lambda>e. srtp_packet X (sr_rtp srtp) (num_roc e)) es ps) = map (Pair 0) ps"
proof (induction es arbitrary: ps srtp prev seen)
  case Nil
  then show ?case by simp
next
  case (Cons e es)
  then obtain p qs where ps: "ps = p # qs" and p: "numbered ssrc e p" and qs: "list_all2 (numbered ssrc) es qs"
    by (auto simp: list_all2_Cons1)
  obtain srtp' mb' where r: "srtp_decrypt X srtp (mb_of (srtp_packet X (sr_rtp srtp) (num_roc e) p)) = (0, srtp', mb')"
    "mb_data mb' = p" "sr_rtp srtp' = sr_rtp srtp" "recv_inv ssrc (latest prev e) (e # seen) srtp'"
    using srtp_recv_step [OF assms Cons.prems(1,2) _ p] Cons.prems(3) by auto
  show ?case
    using Cons.IH [OF _ r(4) _ qs] Cons.prems(1,3) r by (simp add: ps)
qed

lemma map_nth_list_all2:
  assumes "list_all2 P xs ys" "set js \<subseteq> {..<length xs}"
  shows "list_all2 P (map ((!) xs) js) (map ((!) ys) js)"
  using assms by (induction js) (auto intro: list_all2_nthD)

text \<open>
  C14. Two ends that derived the same keys understand each other: of the packets of a stream, numbered in
  the order of sending with steps of at most \<open>2\<^sup>1\<^sup>5\<close>, any selection that arrives in any order the window and
  the roll-over allow is decrypted to what was sent, as long as fewer than \<open>2\<^sup>3\<^sup>1\<close> numbers are in use.
\<close>

theorem srtp_delivers:
  assumes "crypto_ok X" "srtp_alloc X suite key f = Inr srtp"
    and "sent_ok None es" "list_all2 (numbered ssrc) es ps"
    and "set js \<subseteq> {..<length es}" "arrive_ok None [] (map ((!) es) js)"
  shows "srtp_recv X srtp (map (\<lambda>j. snd (srtp_send X srtp ps ! j)) js) = map (\<lambda>j. (0, ps ! j)) js"
proof -
  note a = srtp_alloc_ok [OF assms(2)]
  have fo: "follows ssrc None srtp"
    by (simp add: follows_def stream_of_def a(3))
  have len: "length ps = length es"
    using assms(4) by (simp add: list_all2_lengthD)
  have "snd (srtp_send X srtp ps ! j) = srtp_packet X (sr_rtp srtp) (num_roc (es ! j)) (ps ! j)" if "j < length es" for j
    using srtp_send_eq [OF assms(1) fo assms(3,4)] that len by simp
  then have "map (\<lambda>j. snd (srtp_send X srtp ps ! j)) js =
      map2 (\<lambda>e. srtp_packet X (sr_rtp srtp) (num_roc e)) (map ((!) es) js) (map ((!) ps) js)"
    using assms(5) by (induction js) auto
  then show ?thesis
    using srtp_recv_eq [OF assms(1) a(1) _ assms(6) map_nth_list_all2 [OF assms(4,5)]] fo
    by (simp add: recv_inv_def)
qed

text \<open>A cipher for the examples: a constant key stream and a sum of the bytes as the digest.\<close>

definition toy_crypto :: crypto where
  "toy_crypto = \<lparr>cr_aes_init = (\<lambda>k. True), cr_aes_ctr = (\<lambda>k iv bs. Some (map (\<lambda>b. b XOR 0x5a) bs)),
     cr_hmac_init = (\<lambda>k. True), cr_hmac_sha1 = (\<lambda>k bs. Some (replicate 20 (sum_list bs)))\<rparr>"

lemma toy_crypto_ok: "crypto_ok toy_crypto"
  by (simp add: crypto_ok_def toy_crypto_def o_def xor.assoc)

definition toy_srtp :: srtp where
  "toy_srtp = (case srtp_alloc toy_crypto SRTP_AES_CM_128_HMAC_SHA1_80 (replicate 30 7) False of
     Inr srtp \<Rightarrow> srtp | Inl _ \<Rightarrow> undefined)"

lemma toy_alloc: "srtp_alloc toy_crypto SRTP_AES_CM_128_HMAC_SHA1_80 (replicate 30 7) False = Inr toy_srtp"
proof -
  have "\<exists>srtp. srtp_alloc toy_crypto SRTP_AES_CM_128_HMAC_SHA1_80 (replicate 30 7) False = Inr srtp"
    by (simp add: srtp_alloc_def comp_init_def srtp_derive_def aes_alloc_def aes_encr_def hmac_create_def toy_crypto_def Let_def)
  then show ?thesis by (auto simp: toy_srtp_def)
qed

definition toy_packet :: "u8 \<Rightarrow> u8 \<Rightarrow> u8 list" where
  "toy_packet hi lo = [0x80, 111, hi, lo, 0, 0, 0, 0, 0, 0, 0, 1, 42]"

lemma toy_numbered: "numbered 1 65535 (toy_packet 255 255)" "numbered 1 65537 (toy_packet 0 1)"
  by (simp_all add: numbered_def toy_packet_def rtp_ok_def rtp_len_def rtp_cc_def rtp_ext_def rtp_u32_def rtp_u16_def
      num_seq_def hton_def mem_bytes_words of_mem_def)

theorem srtp_delivers_witness:
  "srtp_recv toy_crypto toy_srtp
     (map (\<lambda>j. snd (srtp_send toy_crypto toy_srtp [toy_packet 255 255, toy_packet 0 1] ! j)) [0, 1]) =
   map (\<lambda>j. (0, [toy_packet 255 255, toy_packet 0 1] ! j)) [0, 1]"
  by (rule srtp_delivers [OF toy_crypto_ok toy_alloc, of "[65535, 65537]" 1])
    (simp_all add: toy_numbered ahead_def latest_def)

end
