(* ===== verification/Srtp_Safety.thy ===== *)
theory Srtp_Safety
  imports Srtp_Correct
begin

unbundle bit_operations_syntax

text \<open>
  What SRTP promises whoever sends the packets, that no index is accepted twice, and what a sender
  without the keys can still do to a session.
\<close>

section \<open>Replayed packets\<close>

text \<open>The source and the index the receiver finds for a packet.\<close>

definition srtp_index :: "srtp \<Rightarrow> u8 list \<Rightarrow> u32 \<times> u64" where
  "srtp_index srtp bs =
     (let s = roll (rtp_u16 2 bs) (strm_for (rtp_u32 8 bs) (rtp_u16 2 bs) srtp)
      in (rtp_u32 8 bs, srtp_get_index (ss_roc s) (ss_s_l s) (rtp_u16 2 bs)))"

lemma srtp_verify_effect:
  assumes "srtp_verify X cmp i ix start srtp mb = (err, srtp', mb')" "cp_hmac cmp \<noteq> None"
  shows "(err \<noteq> 0 \<and> srtp' = srtp) \<or>
    (err = 0 \<and> (\<exists>rp. srtp_replay_check ix (ss_replay_rtp (strm srtp i)) = (True, rp) \<and>
       srtp' = on_strm i (\<lambda>s. s\<lparr>ss_replay_rtp := rp\<rparr>) srtp))"
  using assms
  by (auto simp: srtp_verify_def hmac_digest_def Let_def split: option.splits if_splits prod.splits sum.splits)

text \<open>What an arbitrary packet does to a session.\<close>

definition only_stream :: "u32 \<Rightarrow> srtp_stream \<Rightarrow> srtp \<Rightarrow> srtp \<Rightarrow> bool" where
  "only_stream ssrc s srtp srtp' \<longleftrightarrow>
     sr_rtp srtp' = sr_rtp srtp \<and> (\<forall>y. stream_of y srtp' = (if y = ssrc then Some s else stream_of y srtp))"

lemma only_stream_on_strm:
  "only_stream ssrc s srtp srtp1 \<Longrightarrow> stream_find ssrc (sr_streaml srtp1) = Some i \<Longrightarrow> strm srtp1 i = s \<Longrightarrow> keeps_ssrc f \<Longrightarrow>
     only_stream ssrc (f s) srtp (on_strm i f srtp1)"
  using stream_of_on_strm [of ssrc srtp1 i f] by (simp add: only_stream_def)

lemma srtp_decrypt_effect:
  fixes srtp mb
  assumes "mbuf_ok mb" "cp_hmac (sr_rtp srtp) \<noteq> None" "srtp_decrypt X srtp mb = (err, srtp', mb')"
  defines "bs \<equiv> mbuf_rest mb"
  defines "s0 \<equiv> strm_for (rtp_u32 8 bs) (rtp_u16 2 bs) srtp"
  shows "(\<not> (rtp_ok bs \<and> has_room (rtp_u32 8 bs) srtp) \<and> err \<in> {EBADMSG, ENOSR} \<and> srtp' = srtp) \<or>
    (\<exists>s'. only_stream (rtp_u32 8 bs) s' srtp srtp' \<and>
      (err = ETIMEDOUT \<and> s' = s0 \<or> err \<noteq> 0 \<and> s' = roll (rtp_u16 2 bs) s0 \<or>
       err \<in> {0, EPROTO} \<and>
       srtp_replay_check (snd (srtp_index srtp bs)) (ss_replay_rtp s0) = (True, ss_replay_rtp s')))"
proof -
  let ?ssrc = "rtp_u32 8 bs" and ?sq = "rtp_u16 2 bs"
  let ?ix = "snd (srtp_index srtp bs)"
  consider (bad) "\<not> rtp_ok bs" | (full) "rtp_ok bs" "\<not> has_room ?ssrc srtp" | (ok) "rtp_ok bs" "has_room ?ssrc srtp"
    by blast
  then show ?thesis
  proof cases
    case bad
    then show ?thesis
      using rtp_hdr_decode_bad [OF assms(1), of rtp_header_zero] assms(3) by (auto simp: srtp_decrypt_def bs_def)
  next
    case full
    then have "stream_get_seq ?ssrc ?sq srtp = Inl ENOSR"
      by (auto simp: has_room_def stream_of_def stream_get_seq_def stream_get_def stream_new_def)
    then show ?thesis
      using full rtp_hdr_decode_ok [OF assms(1), of rtp_header_zero] assms(3) by (auto simp: srtp_decrypt_def bs_def)
  next
    case ok
    obtain i srtp1 where g: "stream_get_seq ?ssrc ?sq srtp = Inr (i, srtp1)"
      "stream_find ?ssrc (sr_streaml srtp1) = Some i" "sr_rtp srtp1 = sr_rtp srtp" "strm srtp1 i = s0"
      "\<And>y. y \<noteq> ?ssrc \<Longrightarrow> stream_of y srtp1 = stream_of y srtp" "i < length (sr_streaml srtp1)"
      using stream_get_seq_room [OF ok(2)] unfolding s0_def by metis
    have o1: "only_stream ?ssrc s0 srtp srtp1"
      using g by (auto simp: only_stream_def stream_of_def [of ?ssrc])
    define srtp2 where "srtp2 = on_strm i (roll ?sq) srtp1"
    have o2: "only_stream ?ssrc (roll ?sq s0) srtp srtp2" "strm srtp2 i = roll ?sq s0"
      "stream_find ?ssrc (sr_streaml srtp2) = Some i" "i < length (sr_streaml srtp2)"
      using only_stream_on_strm [OF o1 g(2,4), of "roll ?sq"] g by (simp_all add: srtp2_def)
    have e2: "(if seq_diff (ss_s_l s0) ?sq \<le> -32768
        then on_strm i (\<lambda>s. s\<lparr>ss_roc := ss_roc s + 1, ss_s_l := 0\<rparr>) srtp1 else srtp1) = srtp2"
      using g(6) unfolding g(4) [symmetric] by (simp add: srtp2_def roll_def on_strm_def strm_def)
    have ix: "srtp_get_index (ss_roc (roll ?sq s0)) (ss_s_l (roll ?sq s0)) ?sq = ?ix"
      by (simp add: srtp_index_def s0_def Let_def)
    have rr: "ss_replay_rtp (roll ?sq s0) = ss_replay_rtp s0"
      by (simp add: roll_def)
    define mb1 where "mb1 = mb_at mb (rtp_len bs)"
    have d: "rtp_hdr_decode rtp_header_zero mb = (0, rtp_hdr_of rtp_header_zero bs, mb1)"
      using rtp_hdr_decode_ok [OF assms(1)] ok(1) by (simp add: mb1_def bs_def)
    show ?thesis
    proof (cases "seq_diff (ss_s_l s0) ?sq > 32768")
      case True
      then have "srtp_decrypt X srtp mb = (ETIMEDOUT, srtp1, mb1)"
        by (simp add: srtp_decrypt_def d g Let_def)
      then show ?thesis
        using assms(3) o1 by auto
    next
      case False
      obtain e srtp3 mb2 where v: "srtp_verify X (sr_rtp srtp) i ?ix (mb_pos mb) srtp2 mb1 = (e, srtp3, mb2)"
        by (cases "srtp_verify X (sr_rtp srtp) i ?ix (mb_pos mb) srtp2 mb1")
      obtain e4 mb4 where c: "(case cp_aes (sr_rtp srtp) of None \<Rightarrow> (0, mb2)
          | Some aes \<Rightarrow> crypt_rest (aes_decr X aes
              (srtp_iv_calc (cp_k_s (sr_rtp srtp)) (ss_ssrc (strm srtp3 i)) ?ix)) mb2) = (e4, mb4)"
        by (metis surj_pair)
      have r: "srtp_decrypt X srtp mb =
          (if e \<noteq> 0 then (e, srtp3, mb2) else if e4 \<noteq> 0 then (e4, srtp3, mb4)
           else (0, if ?sq > ss_s_l (strm srtp3 i) then on_strm i (\<lambda>s. s\<lparr>ss_s_l := ?sq\<rparr>) srtp3 else srtp3,
                 mb4\<lparr>mb_pos := mb_pos mb\<rparr>))"
        by (simp only: srtp_decrypt_def Let_def d prod.case rtp_hdr_of_simps g(1) sum.case g(4) False e2 o2(2) ix v c
            simp_thms if_False)
      from srtp_verify_effect [OF v assms(2)] show ?thesis
      proof
        assume "e \<noteq> 0 \<and> srtp3 = srtp2"
        then show ?thesis
          using r assms(3) o2(1) rr by auto
      next
        assume "e = 0 \<and> (\<exists>rp. srtp_replay_check ?ix (ss_replay_rtp (strm srtp2 i)) = (True, rp) \<and>
          srtp3 = on_strm i (\<lambda>s. s\<lparr>ss_replay_rtp := rp\<rparr>) srtp2)"
        then obtain rp where e: "e = 0" and rp: "srtp_replay_check ?ix (ss_replay_rtp s0) = (True, rp)"
          and s3: "srtp3 = on_strm i (\<lambda>s. s\<lparr>ss_replay_rtp := rp\<rparr>) srtp2"
          using o2(2) rr by auto
        let ?s = "(roll ?sq s0)\<lparr>ss_replay_rtp := rp\<rparr>"
        have o3: "only_stream ?ssrc ?s srtp srtp3"
          unfolding s3 by (rule only_stream_on_strm [OF o2(1,3,2)]) simp
        have o4: "only_stream ?ssrc (raise_seq ?sq ?s) srtp (on_strm i (raise_seq ?sq) srtp3)"
          using o2 by (intro only_stream_on_strm [OF o3]) (simp_all add: s3)
        have "(if ?sq > ss_s_l (strm srtp3 i) then on_strm i (\<lambda>s. s\<lparr>ss_s_l := ?sq\<rparr>) srtp3 else srtp3) =
            on_strm i (raise_seq ?sq) srtp3"
          using o2(4) by (simp add: raise_seq_def on_strm_def strm_def)
        moreover have "e4 \<in> {0, EPROTO}"
          using c by (auto simp: crypt_rest_def aes_decr_def aes_encr_def split: option.splits)
        ultimately have "(srtp' = srtp3 \<or> srtp' = on_strm i (raise_seq ?sq) srtp3) \<and> err \<in> {0, EPROTO}"
          using r assms(3) e by (auto split: if_splits)
        then show ?thesis
          using o3 o4 rp by (auto simp: raise_seq_def)
      qed
    qed
  qed
qed

text \<open>The sources and indices of the packets a receiver accepts, whoever sent them.\<close>

fun accepted :: "crypto \<Rightarrow> srtp \<Rightarrow> mbuf list \<Rightarrow> (u32 \<times> u64) list" where
  "accepted X srtp [] = []"
| "accepted X srtp (mb # mbs) =
     (let (err, srtp', mb') = srtp_decrypt X srtp mb
      in (if err = 0 then [srtp_index srtp (mbuf_rest mb)] else []) @ accepted X srtp' mbs)"

definition replay_log :: "srtp \<Rightarrow> (u32 \<times> u64) set \<Rightarrow> bool" where
  "replay_log srtp A \<longleftrightarrow>
     (\<forall>ssrc. \<exists>S. {unat ix | ix. (ssrc, ix) \<in> A} \<subseteq> S \<and>
        (case stream_of ssrc srtp of None \<Rightarrow> S = {} | Some s \<Rightarrow> replay_inv (ss_replay_rtp s) S))"

lemma replay_log_for:
  assumes "replay_log srtp A"
  obtains S where "{unat ix | ix. (ssrc, ix) \<in> A} \<subseteq> S" "replay_inv (ss_replay_rtp (strm_for ssrc sq srtp)) S"
proof -
  obtain S where S: "{unat ix | ix. (ssrc, ix) \<in> A} \<subseteq> S"
    "case stream_of ssrc srtp of None \<Rightarrow> S = {} | Some s \<Rightarrow> replay_inv (ss_replay_rtp s) S"
    using assms unfolding replay_log_def by blast
  then have "replay_inv (ss_replay_rtp (strm_for ssrc sq srtp)) S"
    using replay_inv_init by (auto simp: strm_for_def set_seq_def new_stream_def split: option.splits)
  with S(1) show ?thesis by (rule that)
qed

lemma replay_log_step:
  assumes "replay_log srtp A" "mbuf_ok mb" "cp_hmac (sr_rtp srtp) \<noteq> None" "srtp_decrypt X srtp mb = (err, srtp', mb')"
  defines "a \<equiv> srtp_index srtp (mbuf_rest mb)"
  shows "err = 0 \<Longrightarrow> a \<notin> A" "replay_log srtp' (if err = 0 then insert a A else A)" "sr_rtp srtp' = sr_rtp srtp"
proof -
  let ?ssrc = "rtp_u32 8 (mbuf_rest mb)" and ?sq = "rtp_u16 2 (mbuf_rest mb)"
  have a: "a = (?ssrc, snd a)"
    by (simp add: a_def srtp_index_def Let_def)
  obtain S where S: "{unat ix | ix. (?ssrc, ix) \<in> A} \<subseteq> S" "replay_inv (ss_replay_rtp (strm_for ?ssrc ?sq srtp)) S"
    using replay_log_for [OF assms(1)] by blast
  have "(err \<noteq> 0 \<and> srtp' = srtp) \<or>
    (\<exists>s'. only_stream ?ssrc s' srtp srtp' \<and> err \<noteq> 0 \<and> ss_replay_rtp s' = ss_replay_rtp (strm_for ?ssrc ?sq srtp)) \<or>
    (\<exists>s'. only_stream ?ssrc s' srtp srtp' \<and>
       srtp_replay_check (snd a) (ss_replay_rtp (strm_for ?ssrc ?sq srtp)) = (True, ss_replay_rtp s'))"
    using srtp_decrypt_effect [OF assms(2-4), folded a_def] by (auto simp: roll_def)
  then have "(err = 0 \<longrightarrow> a \<notin> A) \<and> replay_log srtp' (if err = 0 then insert a A else A) \<and> sr_rtp srtp' = sr_rtp srtp"
  proof (elim disjE exE conjE)
    assume "err \<noteq> 0" "srtp' = srtp"
    then show ?thesis using assms(1) by simp
  next
    fix s' assume o: "only_stream ?ssrc s' srtp srtp'" and "err \<noteq> 0"
      and r: "ss_replay_rtp s' = ss_replay_rtp (strm_for ?ssrc ?sq srtp)"
    have "\<exists>S. {unat ix | ix. (y, ix) \<in> A} \<subseteq> S \<and>
        (case stream_of y srtp' of None \<Rightarrow> S = {} | Some s \<Rightarrow> replay_inv (ss_replay_rtp s) S)" for y
      using assms(1) S o r by (cases "y = ?ssrc") (auto simp: only_stream_def replay_log_def)
    then show ?thesis
      using o \<open>err \<noteq> 0\<close> by (simp add: replay_log_def only_stream_def)
  next
    fix s' assume o: "only_stream ?ssrc s' srtp srtp'"
      and r: "srtp_replay_check (snd a) (ss_replay_rtp (strm_for ?ssrc ?sq srtp)) = (True, ss_replay_rtp s')"
    note rc = replay_check [OF S(2) r]
    let ?A = "if err = 0 then insert a A else A"
    have "\<exists>S. {unat ix | ix. (y, ix) \<in> ?A} \<subseteq> S \<and>
        (case stream_of y srtp' of None \<Rightarrow> S = {} | Some s \<Rightarrow> replay_inv (ss_replay_rtp s) S)" for y
    proof (cases "y = ?ssrc")
      case True
      then show ?thesis
        using S(1) o rc(2) by (intro exI [of _ "insert (unat (snd a)) S"]) (subst a, auto simp: only_stream_def)
    next
      case False
      then show ?thesis
        using assms(1) o by (subst a) (auto simp: only_stream_def replay_log_def)
    qed
    moreover have "a \<notin> A"
      using rc(1) S(1) by (subst a) auto
    ultimately show ?thesis
      using o by (simp add: replay_log_def only_stream_def)
  qed
  then show "err = 0 \<Longrightarrow> a \<notin> A" "replay_log srtp' (if err = 0 then insert a A else A)" "sr_rtp srtp' = sr_rtp srtp"
    by auto
qed

lemma accepted_distinct:
  "replay_log srtp A \<Longrightarrow> cp_hmac (sr_rtp srtp) \<noteq> None \<Longrightarrow> list_all mbuf_ok mbs \<Longrightarrow>
     distinct (accepted X srtp mbs) \<and> set (accepted X srtp mbs) \<inter> A = {}"
proof (induction mbs arbitrary: srtp A)
  case Nil
  then show ?case by simp
next
  case (Cons mb mbs)
  obtain err srtp' mb' where d: "srtp_decrypt X srtp mb = (err, srtp', mb')"
    by (metis surj_pair)
  let ?a = "srtp_index srtp (mbuf_rest mb)"
  have "mbuf_ok mb"
    using Cons.prems(3) by simp
  note st = replay_log_step [OF Cons.prems(1) this Cons.prems(2) d]
  have "distinct (accepted X srtp' mbs) \<and> set (accepted X srtp' mbs) \<inter> (if err = 0 then insert ?a A else A) = {}"
    using Cons.prems(2,3) st(2,3) by (intro Cons.IH) simp_all
  then show ?case
    using st(1) by (auto simp: d)
qed

text \<open>
  C15. Whatever packets arrive, from the peer or from an attacker, and whatever the ciphers do, the receiver
  accepts no index of a source twice.
\<close>

theorem srtp_no_replay:
  assumes "srtp_alloc X suite key f = Inr srtp" "list_all mbuf_ok mbs"
  shows "distinct (accepted Y srtp mbs)"
proof -
  note a = srtp_alloc_ok [OF assms(1)]
  have "replay_log srtp {}"
    by (simp add: replay_log_def stream_of_def a(3))
  then show ?thesis
    using accepted_distinct [of srtp "{}" mbs Y] a(1) assms(2) by (simp add: comp_ok_def)
qed

theorem srtp_no_replay_witness:
  "distinct (accepted toy_crypto toy_srtp [mb_of (toy_packet 0 1), mb_of (toy_packet 0 1)])"
  by (rule srtp_no_replay [OF toy_alloc]) simp

section \<open>Packets without a key\<close>

lemma srtp_timed_out:
  assumes "mbuf_ok mb" "rtp_ok (mbuf_rest mb)" "stream_of (rtp_u32 8 (mbuf_rest mb)) srtp = Some s" "ss_s_l_set s"
    "seq_diff (ss_s_l s) (rtp_u16 2 (mbuf_rest mb)) > 32768"
  shows "\<exists>mb'. srtp_decrypt X srtp mb = (ETIMEDOUT, srtp, mb')"
proof -
  let ?bs = "mbuf_rest mb"
  obtain i where i: "stream_find (rtp_u32 8 ?bs) (sr_streaml srtp) = Some i" "strm srtp i = s"
    using assms(3) by (auto simp: stream_of_def)
  then have "stream_get_seq (rtp_u32 8 ?bs) (rtp_u16 2 ?bs) srtp = Inr (i, srtp)"
    using assms(4) by (simp add: stream_get_seq_def stream_get_def)
  then show ?thesis
    using i assms(5) by (simp add: srtp_decrypt_def rtp_hdr_decode_ok [OF assms(1,2)] Let_def)
qed

lemma srtp_recv_timed_out:
  assumes "stream_of ssrc srtp = Some s" "ss_s_l_set s" "ss_s_l s = 0"
  shows "list_all (\<lambda>p. rtp_ok p \<and> rtp_u32 8 p = ssrc \<and> rtp_u16 2 p > 32768) ps \<Longrightarrow>
    map fst (srtp_recv X srtp ps) = replicate (length ps) ETIMEDOUT"
proof (induction ps)
  case Nil
  then show ?case by simp
next
  case (Cons p ps)
  then have "seq_diff (ss_s_l s) (rtp_u16 2 p) > 32768"
    by (simp add: assms(3) seq_diff_def word_less_def)
  then obtain mb' where "srtp_decrypt X srtp (mb_of p) = (ETIMEDOUT, srtp, mb')"
    using srtp_timed_out [of "mb_of p" srtp s X] assms Cons.prems by auto
  then show ?case
    using Cons by simp
qed

text \<open>
  C35. One packet without a valid tag silences a stream in the second half of its sequence numbers. The
  receiver counts a roll-over before it authenticates the packet, and keeps the count when authentication
  fails; what the peer sends from then on is refused until its own numbers wrap around.
\<close>

theorem srtp_forged_silences:
  assumes "comp_ok (sr_rtp srtp)" "stream_of ssrc srtp = Some s" "tracks e s" "32768 \<le> e mod 65536"
    and "rtp_ok q" "rtp_u32 8 q = ssrc" "rtp_u16 2 q = 0"
    and "srtp_decrypt X srtp (mb_of q) = (EAUTH, srtp', mb')"
    and "list_all2 (\<lambda>e' p. numbered ssrc e' p \<and> e < e' \<and> e' div 65536 = e div 65536) es ps"
  shows "map fst (srtp_recv X srtp' ps) = replicate (length ps) ETIMEDOUT"
proof -
  have s: "ss_s_l_set s" "ss_s_l s = num_seq e"
    using assms(3) by (simp_all add: tracks_def)
  have sf: "strm_for ssrc 0 srtp = s"
    using assms(2) s(1) by (simp add: strm_for_def set_seq_def)
  have h: "cp_hmac (sr_rtp srtp) \<noteq> None"
    using assms(1) by (simp add: comp_ok_def)
  have "stream_of ssrc srtp' = Some (roll 0 s)"
    using srtp_decrypt_effect [OF _ h assms(8)] assms(6,7) sf by (auto simp: only_stream_def)
  moreover have "ss_s_l (roll 0 s) = 0" "ss_s_l_set (roll 0 s)"
    using assms(4) s by (simp_all add: roll_def seq_diff_def)
  moreover have "list_all (\<lambda>p. rtp_ok p \<and> rtp_u32 8 p = ssrc \<and> rtp_u16 2 p > 32768) ps"
  proof -
    have *: "rtp_ok p \<and> rtp_u32 8 p = ssrc \<and> rtp_u16 2 p > 32768"
      if "numbered ssrc e' p" "e < e'" "e' div 65536 = e div 65536" for e' p
    proof -
      have "32768 < e' mod 65536"
        using that assms(4) mult_div_mod_eq [of 65536 e] mult_div_mod_eq [of 65536 e'] by linarith
      then show ?thesis
        using that by (simp add: numbered_def word_less_nat_alt)
    qed
    from assms(9) show ?thesis
      by (induction es ps rule: list_all2_induct) (auto dest: *)
  qed
  ultimately show ?thesis
    using srtp_recv_timed_out by blast
qed

definition toy_comp :: comp where
  "toy_comp = \<lparr>cp_aes = None, cp_hmac = Some [1], cp_k_s = replicate 16 0, cp_tag_len = 4\<rparr>"

definition toy_stream :: srtp_stream where
  "toy_stream = (new_stream 1)\<lparr>ss_s_l := 40000, ss_s_l_set := True\<rparr>"

definition toy_victim :: srtp where
  "toy_victim = \<lparr>sr_rtp = toy_comp, sr_rtcp = toy_comp, sr_streaml = [toy_stream]\<rparr>"

definition toy_forged :: "u8 list" where
  "toy_forged = toy_packet 0 0 @ [0, 0, 0, 0]"

lemma toy_forged_fails: "fst (srtp_decrypt toy_crypto toy_victim (mb_of toy_forged)) = EAUTH"
  by code_simp

theorem srtp_forged_silences_witness:
  "map fst (srtp_recv toy_crypto (fst (snd (srtp_decrypt toy_crypto toy_victim (mb_of toy_forged)))) [toy_packet 0x9c 0x41]) =
     [ETIMEDOUT]"
proof -
  have n: "numbered 1 40001 (toy_packet 0x9c 0x41)"
    by (simp add: numbered_def toy_packet_def rtp_ok_def rtp_len_def rtp_cc_def rtp_ext_def rtp_u32_def rtp_u16_def
        num_seq_def hton_def mem_bytes_words of_mem_def)
  have q: "rtp_ok toy_forged" "rtp_u32 8 toy_forged = 1" "rtp_u16 2 toy_forged = 0"
    by code_simp+
  have st: "stream_of 1 toy_victim = Some toy_stream" "tracks 40000 toy_stream"
    by (simp_all add: stream_of_def toy_victim_def strm_def toy_stream_def new_stream_def tracks_def num_roc_def num_seq_def)
  have c: "comp_ok (sr_rtp toy_victim)"
    by (simp add: toy_victim_def toy_comp_def comp_ok_def)
  obtain srtp' mb' where d: "srtp_decrypt toy_crypto toy_victim (mb_of toy_forged) = (EAUTH, srtp', mb')"
    using toy_forged_fails by (metis prod.collapse)
  show ?thesis
    using srtp_forged_silences [OF c st _ q d, of "[40001]" "[toy_packet 0x9c 0x41]"] n d by simp
qed

text \<open>The session after packets that may or may not have been accepted.\<close>

fun srtp_after :: "crypto \<Rightarrow> srtp \<Rightarrow> u8 list list \<Rightarrow> srtp" where
  "srtp_after X srtp [] = srtp"
| "srtp_after X srtp (p # ps) = (case srtp_decrypt X srtp (mb_of p) of (err, srtp, mb) \<Rightarrow> srtp_after X srtp ps)"

definition srtp_table :: "srtp \<Rightarrow> u32 set" where
  "srtp_table srtp = {y. stream_of y srtp \<noteq> None}"

lemma srtp_table_set: "srtp_table srtp = ss_ssrc ` set (sr_streaml srtp)"
  using stream_find_NoneD by (auto simp: srtp_table_def stream_of_def)

lemma srtp_full:
  assumes "mbuf_ok mb" "rtp_ok (mbuf_rest mb)" "rtp_u32 8 (mbuf_rest mb) \<notin> srtp_table srtp"
    "SRTP_MAX_STREAMS \<le> length (sr_streaml srtp)"
  shows "fst (srtp_decrypt X srtp mb) = ENOSR"
  using assms rtp_hdr_decode_ok [OF assms(1,2), of rtp_header_zero]
  by (auto simp: srtp_decrypt_def stream_get_seq_def stream_get_def stream_new_def srtp_table_def stream_of_def)

lemma only_stream_table: "only_stream ssrc s srtp srtp' \<Longrightarrow> srtp_table srtp' = insert ssrc (srtp_table srtp)"
  by (auto simp: only_stream_def srtp_table_def split: if_splits)

lemma srtp_table_step:
  assumes "cp_hmac (sr_rtp srtp) \<noteq> None" "rtp_ok p" "srtp_decrypt X srtp (mb_of p) = (err, srtp', mb')"
  shows "srtp_table srtp' = insert (rtp_u32 8 p) (srtp_table srtp) \<or>
    srtp' = srtp \<and> SRTP_MAX_STREAMS \<le> length (sr_streaml srtp)"
  using srtp_decrypt_effect [OF _ assms(1,3)] assms(2) by (auto simp: has_room_def dest!: only_stream_table)


end
