(* ===== verification/Srtp_Typed.thy ===== *)
theory Srtp_Typed
  imports Srtp_Safety
begin

unbundle bit_operations_syntax

text \<open>
  The types of SRTP: whatever the packets contain and whether or not the ciphers succeed, the
  operations keep a session well-formed and leave buffers whose position and end are in order, so
  that no operation reads or writes outside of a packet.
\<close>

section \<open>Buffers\<close>

text \<open>A buffer in order whose position is not before the place where the packet starts.\<close>

definition mb_in :: "nat \<Rightarrow> mbuf \<Rightarrow> bool" where
  "mb_in start mb \<longleftrightarrow> mbuf_ok mb \<and> start \<le> mb_pos mb"

lemma mb_in_self: "mbuf_ok mb \<Longrightarrow> mb_in (mb_pos mb) mb"
  by (simp add: mb_in_def)

lemma mb_in_pos: "mb_in start mb \<Longrightarrow> start \<le> p \<Longrightarrow> p \<le> mb_end mb \<Longrightarrow> mb_in start (mb\<lparr>mb_pos := p\<rparr>)"
  by (simp add: mb_in_def mbuf_ok_def)

lemma mb_in_start: "mb_in start mb \<Longrightarrow> mb_in start (mb\<lparr>mb_pos := start\<rparr>)"
  by (simp add: mb_in_def mbuf_ok_def)

lemma mb_in_end: "mb_in start mb \<Longrightarrow> mb_in start (mb\<lparr>mb_pos := mb_end mb\<rparr>)"
  by (simp add: mb_in_def mbuf_ok_def)

lemma mb_in_cut: "mb_in start mb \<Longrightarrow> start \<le> p \<Longrightarrow> p \<le> e \<Longrightarrow> e \<le> mb_end mb \<Longrightarrow> mb_in start (mb\<lparr>mb_pos := p, mb_end := e\<rparr>)"
  by (simp add: mb_in_def mbuf_ok_def)

lemma mb_in_read_mem: "mb_in start mb \<Longrightarrow> mbuf_read_mem n mb = (e, bs, mb') \<Longrightarrow> mb_in start mb' \<and> mb_end mb' = mb_end mb"
  by (auto simp: mbuf_read_mem_def mb_in_def mbuf_ok_def mbuf_get_left_def split: if_splits)

lemma mb_in_read_u32: "mb_in start mb \<Longrightarrow> mbuf_read_u32 mb = (w, mb') \<Longrightarrow> mb_in start mb' \<and> mb_end mb' = mb_end mb"
  by (auto simp: mbuf_read_u32_def mbuf_read_word_def mb_in_read_mem split: prod.splits)

lemma mb_in_write: "mb_in start mb \<Longrightarrow> mb_in start (mbuf_write_mem bs mb)"
  by (auto simp: mb_in_def)

lemma mb_in_write_u32: "mb_in start mb \<Longrightarrow> mb_in start (mbuf_write_u32 w mb)"
  by (simp add: mbuf_write_u32_def mb_in_write)

lemma mb_in_rtp_hdr_decode:
  assumes "mbuf_ok mb" "rtp_hdr_decode hdr mb = (err, hdr', mb')"
  shows "mb_in (mb_pos mb) mb'"
proof (cases "rtp_ok (mbuf_rest mb)")
  case True
  then show ?thesis
    using rtp_hdr_decode_ok [OF assms(1) True, of hdr] assms by (auto simp: mb_in_def rtp_ok_def)
next
  case False
  then show ?thesis
    using rtp_hdr_decode_bad [OF assms(1) False, of hdr] assms by (auto simp: mb_in_def)
qed

lemma mb_in_get_rtcp_ssrc:
  assumes "mbuf_ok mb" "get_rtcp_ssrc mb = (err, ssrc, mb')"
  shows "mb_in (mb_pos mb) mb'"
proof -
  have "mb_in (mb_pos mb) (mbuf_advance 4 mb)" if "\<not> mbuf_get_left mb < 8"
    using assms(1) that by (auto simp: mb_in_def mbuf_ok_def mbuf_advance_def mbuf_get_left_def)
  then show ?thesis
    using assms mb_in_self [of mb]
    by (auto simp: get_rtcp_ssrc_def dest: mb_in_read_u32 split: if_splits prod.splits)
qed

section \<open>Ciphers\<close>

text \<open>AES in counter mode returns, if it succeeds, as many bytes as it was given.\<close>

definition crypto_sized :: "crypto \<Rightarrow> bool" where
  "crypto_sized X \<longleftrightarrow> (\<forall>k iv bs c. cr_aes_ctr X k iv bs = Some c \<longrightarrow> length c = length bs)"

lemma aes_encr_length: "crypto_sized X \<Longrightarrow> aes_encr X k iv bs = Inr c \<Longrightarrow> length c = length bs"
  by (auto simp: crypto_sized_def aes_encr_def split: option.splits)

lemma mb_in_crypt_rest:
  assumes "mb_in start mb" "\<And>bs c. f bs = Inr c \<Longrightarrow> length c = length bs" "crypt_rest f mb = (err, mb')"
  shows "mb_in start mb' \<and> mb_end mb' = mb_end mb"
proof (cases "f (mbuf_rest mb)")
  case (Inr c)
  then show ?thesis
    using crypt_rest_ok [of mb f c] assms by (auto simp: mb_in_def)
qed (use assms in \<open>simp add: crypt_rest_def\<close>)

lemma mb_in_aes:
  "crypto_sized X \<Longrightarrow> mb_in start mb \<Longrightarrow> crypt_rest (aes_encr X aes iv) mb = (err, mb') \<Longrightarrow> mb_in start mb'"
  using mb_in_crypt_rest aes_encr_length by blast

lemma mb_in_srtp_sign:
  assumes "mb_in start mb" "srtp_sign X cmp roc start mb = (err, mb')"
  shows "mb_in start mb'"
proof (cases "cp_hmac cmp")
  case (Some hmac)
  let ?mb1 = "mbuf_write_u32 (hton roc) (mb\<lparr>mb_pos := mb_end mb\<rparr>)"
  have m1: "mb_in start ?mb1" "mb_end mb \<le> mb_end ?mb1"
    using assms(1) by (simp_all add: mb_in_write mb_in_end mbuf_write_u32_def)
  have e: "start \<le> mb_end mb"
    using assms(1) by (simp add: mb_in_def mbuf_ok_def)
  have "mb_in start (?mb1\<lparr>mb_pos := start\<rparr>)"
    using m1 by (rule_tac mb_in_start)
  moreover have "mb_in start (?mb1\<lparr>mb_pos := mb_end mb, mb_end := mb_end mb\<rparr>)"
    using m1 e by (intro mb_in_cut) simp_all
  ultimately show ?thesis
    using assms(2) Some by (auto simp: srtp_sign_def Let_def mb_in_write split: sum.splits)
qed (use assms in \<open>simp add: srtp_sign_def\<close>)

lemma mb_in_srtcp_sign:
  assumes "mb_in start mb" "srtcp_sign X cmp start mb = (err, mb')"
  shows "mb_in start mb'"
  using assms mb_in_start [OF assms(1)] mb_in_end [OF assms(1)] mb_in_write [OF mb_in_end [OF mb_in_start [OF assms(1)]]]
  by (auto simp: srtcp_sign_def Let_def split: sum.splits option.splits)

lemma mb_in_srtp_verify:
  assumes "mb_in start mb" "srtp_verify X cmp i ix start srtp mb = (err, srtp', mb')"
  shows "mb_in start mb'"
proof (cases "cp_hmac cmp = None \<or> mbuf_get_left mb < cp_tag_len cmp")
  case True
  then show ?thesis
    using assms by (auto simp: srtp_verify_def split: option.splits)
next
  case False
  let ?ts = "mb_end mb - cp_tag_len cmp"
  obtain e1 tag mb1 where r: "mbuf_read_mem (cp_tag_len cmp) (mb\<lparr>mb_pos := ?ts\<rparr>) = (e1, tag, mb1)"
    by (metis surj_pair)
  have b: "start \<le> mb_pos mb" "mb_pos mb \<le> ?ts" "?ts \<le> mb_end mb"
    using False assms(1) by (auto simp: mb_in_def mbuf_ok_def mbuf_get_left_def)
  have m1: "mb_in start mb1" "mb_end mb1 = mb_end mb"
    using mb_in_read_mem [OF mb_in_pos [OF assms(1)] r] b by simp_all
  let ?mb2 = "mbuf_write_u32 (hton (ss_roc (strm srtp i))) (mb1\<lparr>mb_pos := ?ts, mb_end := ?ts\<rparr>)"
  have m2: "mb_in start ?mb2" "?ts \<le> mb_end ?mb2"
    using b m1 by (simp_all add: mb_in_write mb_in_cut mbuf_write_u32_def)
  have "mb_in start (?mb2\<lparr>mb_pos := start\<rparr>)" "mb_in start (?mb2\<lparr>mb_pos := mb_pos mb, mb_end := ?ts\<rparr>)"
    using m2 b by (auto intro: mb_in_start mb_in_cut)
  then show ?thesis
    using assms(2) False m1(1)
    by (auto simp: srtp_verify_def r Let_def split: option.splits if_splits sum.splits prod.splits)
qed

lemma mb_in_srtcp_verify:
  assumes "mb_in start mb" "srtcp_verify X cmp i ix start srtp mb = (err, srtp', mb')"
  shows "mb_in start mb' \<and> mb_pos mb \<le> mb_end mb'"
proof (cases "cp_hmac cmp")
  case (Some hmac)
  obtain e1 tag mb1 where r: "mbuf_read_mem (cp_tag_len cmp) mb = (e1, tag, mb1)"
    by (metis surj_pair)
  have m1: "mb_in start mb1" "mb_end mb1 = mb_end mb" "mb_pos mb \<le> mb_end mb"
    using mb_in_read_mem [OF assms(1) r] assms(1) by (simp_all add: mb_in_def mbuf_ok_def)
  have "mb_in start (mb1\<lparr>mb_pos := start, mb_end := mb_pos mb\<rparr>)"
    using m1 assms(1) by (intro mb_in_cut) (simp_all add: mb_in_def)
  then show ?thesis
    using assms(2) Some m1
    by (auto simp: srtcp_verify_def r Let_def split: option.splits if_splits sum.splits prod.splits)
next
  case None
  then show ?thesis
    using assms by (auto simp: srtcp_verify_def mb_in_def mbuf_ok_def)
qed

section \<open>Sessions\<close>

definition comp_typed :: "comp \<Rightarrow> bool" where
  "comp_typed cmp \<longleftrightarrow> (\<forall>k. cp_aes cmp = Some k \<longrightarrow> length k = 16 \<or> length k = 32) \<and>
     (\<exists>k. cp_hmac cmp = Some k \<and> length k = 20) \<and> length (cp_k_s cmp) = 16 \<and>
     (cp_tag_len cmp = 4 \<or> cp_tag_len cmp = 10)"

definition srtp_typed :: "srtp \<Rightarrow> bool" where
  "srtp_typed srtp \<longleftrightarrow> comp_typed (sr_rtp srtp) \<and> comp_typed (sr_rtcp srtp) \<and>
     length (sr_streaml srtp) \<le> SRTP_MAX_STREAMS \<and> distinct (map ss_ssrc (sr_streaml srtp)) \<and>
     (\<forall>s\<in>set (sr_streaml srtp). ss_rtcp_index s < 2 ^ 31)"

lemma srtp_derive_length: "crypto_sized X \<Longrightarrow> srtp_derive X n l k s = Inr key \<Longrightarrow> length key = n"
  by (auto simp: srtp_derive_def Let_def dest: aes_encr_length split: if_splits sum.splits)

lemma comp_init_typed:
  assumes "crypto_sized X" "comp_init X offs key s n enc = Inr cmp" "length key = 16 \<or> length key = 32" "n = 4 \<or> n = 10"
  shows "comp_typed cmp"
  using assms(2-4) srtp_derive_length [OF assms(1)]
  by (auto simp: comp_init_def comp_typed_def Let_def aes_alloc_def hmac_create_def map_sum_def
      split: if_splits sum.splits)

lemma srtp_alloc_typed:
  assumes "crypto_sized X" "srtp_alloc X suite key u = Inr srtp"
  shows "srtp_typed srtp"
proof -
  obtain c a where s: "suite_bytes suite = (c, a)" "c = 16 \<or> c = 32" "a = 4 \<or> a = 10"
    by (cases suite) auto
  then have "length (take c key) = 16 \<or> length (take c key) = 32" if "c + 14 = length key"
    using that by auto
  then show ?thesis
    using assms s comp_init_typed [OF assms(1)]
    by (auto simp: srtp_alloc_def srtp_typed_def Let_def split: if_splits sum.splits)
qed

lemma stream_get_typed:
  assumes "srtp_typed srtp" "stream_get ssrc srtp = Inr (i, srtp')"
  shows "srtp_typed srtp'"
  using assms
  by (auto simp: stream_get_def stream_new_def srtp_typed_def stream_find_NoneD split: option.splits if_splits)

lemma on_strm_typed:
  assumes "srtp_typed srtp" "keeps_ssrc f" "\<And>s. ss_rtcp_index s < 2 ^ 31 \<Longrightarrow> ss_rtcp_index (f s) < 2 ^ 31"
  shows "srtp_typed (on_strm i f srtp)"
proof (cases "i < length (sr_streaml srtp)")
  case True
  have "set (sr_streaml (on_strm i f srtp)) \<subseteq> insert (f (sr_streaml srtp ! i)) (set (sr_streaml srtp))"
    by (auto simp: on_strm_def strm_def dest: subsetD [OF set_update_subset_insert])
  moreover have "ss_rtcp_index (sr_streaml srtp ! i) < 2 ^ 31"
    using assms(1) True by (simp add: srtp_typed_def)
  ultimately show ?thesis
    using assms map_ssrc_on_strm [OF assms(2), of i srtp] by (auto simp: srtp_typed_def)
next
  case False
  then show ?thesis
    using assms(1) by (simp add: on_strm_def srtp_typed_def list_update_beyond)
qed

lemma on_strm_plain:
  "srtp_typed srtp \<Longrightarrow> keeps_ssrc f \<Longrightarrow> (\<And>s. ss_rtcp_index (f s) = ss_rtcp_index s) \<Longrightarrow> srtp_typed (on_strm i f srtp)"
  by (rule on_strm_typed) simp_all

lemma stream_get_seq_typed:
  "srtp_typed srtp \<Longrightarrow> stream_get_seq ssrc sq srtp = Inr (i, srtp') \<Longrightarrow> srtp_typed srtp'"
  by (auto simp: stream_get_seq_def keeps_ssrc_def intro!: on_strm_plain dest: stream_get_typed split: sum.splits if_splits)

lemma srtp_verify_typed:
  assumes "srtp_typed srtp" "srtp_verify X cmp i ix start srtp mb = (err, srtp', mb')"
  shows "srtp_typed srtp'"
  using assms
  by (auto simp: srtp_verify_def Let_def keeps_ssrc_def intro!: on_strm_plain split: option.splits if_splits prod.splits sum.splits)

lemma srtcp_verify_typed:
  assumes "srtp_typed srtp" "srtcp_verify X cmp i ix start srtp mb = (err, srtp', mb')"
  shows "srtp_typed srtp'"
  using assms
  by (auto simp: srtcp_verify_def Let_def keeps_ssrc_def intro!: on_strm_plain split: option.splits if_splits prod.splits sum.splits)

section \<open>Operations\<close>

lemma aes_decr_eq: "aes_decr = aes_encr"
  by (simp add: fun_eq_iff aes_decr_def)

text \<open>The encryption step of an operation.\<close>

definition crypt_step :: "crypto \<Rightarrow> comp \<Rightarrow> u8 list \<Rightarrow> mbuf \<Rightarrow> int \<times> mbuf" where
  "crypt_step X cmp iv mb = (case cp_aes cmp of None \<Rightarrow> (0, mb) | Some aes \<Rightarrow> crypt_rest (aes_encr X aes iv) mb)"

lemma crypt_step_in:
  "crypto_sized X \<Longrightarrow> mb_in start mb \<Longrightarrow> crypt_step X cmp iv mb = (err, mb') \<Longrightarrow> mb_in start mb'"
  by (auto simp: crypt_step_def dest: mb_in_aes split: option.splits)

lemma on_strm_if_typed:
  "srtp_typed srtp \<Longrightarrow> srtp_typed (if b then on_strm i (\<lambda>s. s\<lparr>ss_roc := ss_roc s + 1, ss_s_l := 0\<rparr>) srtp else srtp)"
  "srtp_typed srtp \<Longrightarrow> srtp_typed (if b then on_strm i (\<lambda>s. s\<lparr>ss_s_l := v\<rparr>) srtp else srtp)"
  by (auto intro!: on_strm_plain simp: keeps_ssrc_def)

lemma mb_in_finish: "mb_in start mb \<Longrightarrow> mbuf_ok (mb\<lparr>mb_pos := start\<rparr>)"
  by (auto simp: mb_in_def mbuf_ok_def)

lemma mb_in_okD: "mb_in start mb \<Longrightarrow> mbuf_ok mb"
  by (simp add: mb_in_def)

lemma srtp_encrypt_typed:
  assumes "crypto_sized X" "srtp_typed srtp" "mbuf_ok mb" "srtp_encrypt X srtp mb = (err, srtp', mb')"
  shows "srtp_typed srtp' \<and> mbuf_ok mb'"
proof -
  obtain e1 hdr mb1 where d: "rtp_hdr_decode rtp_header_zero mb = (e1, hdr, mb1)"
    by (metis surj_pair)
  have m1: "mb_in (mb_pos mb) mb1"
    by (rule mb_in_rtp_hdr_decode [OF assms(3) d])
  consider (bad) "e1 \<noteq> 0" | (full) e where "e1 = 0" "stream_get_seq (rh_ssrc hdr) (rh_seq hdr) srtp = Inl e" |
    (go) i srtp1 where "e1 = 0" "stream_get_seq (rh_ssrc hdr) (rh_seq hdr) srtp = Inr (i, srtp1)"
    by (metis sum.exhaust surj_pair)
  then show ?thesis
  proof cases
    case bad
    then show ?thesis
      using assms(2,4) mb_in_okD [OF m1] by (auto simp: srtp_encrypt_def d)
  next
    case full
    then show ?thesis
      using assms(2,4) mb_in_okD [OF m1] by (auto simp: srtp_encrypt_def d)
  next
    case go
    note g = go(2)
    define srtp2 where "srtp2 = (if seq_diff (ss_s_l (strm srtp1 i)) (rh_seq hdr) \<le> -32768
      then on_strm i (\<lambda>s. s\<lparr>ss_roc := ss_roc s + 1, ss_s_l := 0\<rparr>) srtp1 else srtp1)"
    define iv where "iv = srtp_iv_calc (cp_k_s (sr_rtp srtp)) (ss_ssrc (strm srtp2 i))
      (65536 * ucast (ss_roc (strm srtp2 i)) + ucast (rh_seq hdr))"
    obtain e2 mb2 where c: "crypt_step X (sr_rtp srtp) iv mb1 = (e2, mb2)"
      by (metis surj_pair)
    obtain e3 mb3 where n: "srtp_sign X (sr_rtp srtp) (ss_roc (strm srtp2 i)) (mb_pos mb) mb2 = (e3, mb3)"
      by (metis surj_pair)
    have t: "srtp_typed srtp2" "mb_in (mb_pos mb) mb2" "mb_in (mb_pos mb) mb3"
      using stream_get_seq_typed [OF assms(2) g] on_strm_if_typed crypt_step_in [OF assms(1) m1 c] mb_in_srtp_sign [OF _ n]
      by (simp_all add: srtp2_def)
    have "srtp_encrypt X srtp mb =
      (if e2 \<noteq> 0 then (e2, srtp2, mb2) else if e3 \<noteq> 0 then (e3, srtp2, mb3)
       else (0, if rh_seq hdr > ss_s_l (strm srtp2 i) then on_strm i (\<lambda>s. s\<lparr>ss_s_l := rh_seq hdr\<rparr>) srtp2 else srtp2,
             mb3\<lparr>mb_pos := mb_pos mb\<rparr>))"
      using go(1)
      by (simp only: srtp_encrypt_def Let_def d prod.case g sum.case srtp2_def [symmetric] iv_def [symmetric]
          crypt_step_def [symmetric] c n simp_thms if_False)
    then show ?thesis
      using assms(4) t on_strm_if_typed(2) [OF t(1)] mb_in_finish [OF t(3)]
      by (auto dest: mb_in_okD split: if_splits)
  qed
qed

lemma srtp_decrypt_typed:
  assumes "crypto_sized X" "srtp_typed srtp" "mbuf_ok mb" "srtp_decrypt X srtp mb = (err, srtp', mb')"
  shows "srtp_typed srtp' \<and> mbuf_ok mb'"
proof -
  obtain e1 hdr mb1 where d: "rtp_hdr_decode rtp_header_zero mb = (e1, hdr, mb1)"
    by (metis surj_pair)
  have m1: "mb_in (mb_pos mb) mb1"
    by (rule mb_in_rtp_hdr_decode [OF assms(3) d])
  consider (bad) "e1 \<noteq> 0" | (full) e where "e1 = 0" "stream_get_seq (rh_ssrc hdr) (rh_seq hdr) srtp = Inl e" |
    (late) i srtp1 where "e1 = 0" "stream_get_seq (rh_ssrc hdr) (rh_seq hdr) srtp = Inr (i, srtp1)"
      "seq_diff (ss_s_l (strm srtp1 i)) (rh_seq hdr) > 32768" |
    (go) i srtp1 where "e1 = 0" "stream_get_seq (rh_ssrc hdr) (rh_seq hdr) srtp = Inr (i, srtp1)"
      "\<not> seq_diff (ss_s_l (strm srtp1 i)) (rh_seq hdr) > 32768"
    by (metis sum.exhaust surj_pair)
  then show ?thesis
  proof cases
    case bad
    then show ?thesis
      using assms(2,4) mb_in_okD [OF m1] by (auto simp: srtp_decrypt_def d)
  next
    case full
    then show ?thesis
      using assms(2,4) mb_in_okD [OF m1] by (auto simp: srtp_decrypt_def d)
  next
    case late
    then show ?thesis
      using assms(4) mb_in_okD [OF m1] stream_get_seq_typed [OF assms(2) late(2)] by (auto simp: srtp_decrypt_def Let_def d)
  next
    case go
    define srtp2 where "srtp2 = (if seq_diff (ss_s_l (strm srtp1 i)) (rh_seq hdr) \<le> -32768
      then on_strm i (\<lambda>s. s\<lparr>ss_roc := ss_roc s + 1, ss_s_l := 0\<rparr>) srtp1 else srtp1)"
    define ix where "ix = srtp_get_index (ss_roc (strm srtp2 i)) (ss_s_l (strm srtp2 i)) (rh_seq hdr)"
    obtain e2 srtp3 mb2 where v: "srtp_verify X (sr_rtp srtp) i ix (mb_pos mb) srtp2 mb1 = (e2, srtp3, mb2)"
      by (metis surj_pair)
    obtain e3 mb3 where c: "crypt_step X (sr_rtp srtp)
        (srtp_iv_calc (cp_k_s (sr_rtp srtp)) (ss_ssrc (strm srtp3 i)) ix) mb2 = (e3, mb3)"
      by (metis surj_pair)
    have t2: "srtp_typed srtp2"
      using stream_get_seq_typed [OF assms(2) go(2)] on_strm_if_typed by (simp add: srtp2_def)
    have t: "srtp_typed srtp3" "mb_in (mb_pos mb) mb2"
      using srtp_verify_typed [OF t2 v] mb_in_srtp_verify [OF m1 v] by simp_all
    have m3: "mb_in (mb_pos mb) mb3"
      by (rule crypt_step_in [OF assms(1) t(2) c])
    have "srtp_decrypt X srtp mb =
      (if e2 \<noteq> 0 then (e2, srtp3, mb2) else if e3 \<noteq> 0 then (e3, srtp3, mb3)
       else (0, if rh_seq hdr > ss_s_l (strm srtp3 i) then on_strm i (\<lambda>s. s\<lparr>ss_s_l := rh_seq hdr\<rparr>) srtp3 else srtp3,
             mb3\<lparr>mb_pos := mb_pos mb\<rparr>))"
      using go(1,3)
      by (simp only: srtp_decrypt_def Let_def d prod.case go(2) sum.case srtp2_def [symmetric] ix_def [symmetric] v
          aes_decr_eq crypt_step_def [symmetric] c simp_thms if_False)
    then show ?thesis
      using assms(4) t m3 on_strm_if_typed(2) [OF t(1)] mb_in_finish [OF m3]
      by (auto dest: mb_in_okD split: if_splits)
  qed
qed

lemma and_31: "(w :: u32) AND 0x7fffffff < 2 ^ 31"
proof -
  have "w AND 0x7fffffff = take_bit 31 w"
    by (simp add: take_bit_eq_mask mask_eq_exp_minus_1)
  then show ?thesis
    using take_bit_nat_less_exp [of 31 "unat w"] by (simp add: word_less_nat_alt unsigned_take_bit_eq)
qed

lemma rtcp_index_typed:
  "srtp_typed srtp \<Longrightarrow> srtp_typed (on_strm i (\<lambda>s. s\<lparr>ss_rtcp_index := (ss_rtcp_index s + 1) AND 0x7fffffff\<rparr>) srtp)"
  using and_31 by (intro on_strm_typed) (simp_all add: keeps_ssrc_def)

lemma srtcp_encrypt_typed:
  assumes "crypto_sized X" "srtp_typed srtp" "mbuf_ok mb" "srtcp_encrypt X srtp mb = (err, srtp', mb')"
  shows "srtp_typed srtp' \<and> mbuf_ok mb'"
proof -
  obtain e1 ssrc mb1 where d: "get_rtcp_ssrc mb = (e1, ssrc, mb1)"
    by (metis surj_pair)
  have m1: "mb_in (mb_pos mb) mb1"
    by (rule mb_in_get_rtcp_ssrc [OF assms(3) d])
  consider (bad) "e1 \<noteq> 0" | (full) e where "e1 = 0" "stream_get ssrc srtp = Inl e" |
    (go) i srtp1 where "e1 = 0" "stream_get ssrc srtp = Inr (i, srtp1)"
    by (metis sum.exhaust surj_pair)
  then show ?thesis
  proof cases
    case bad
    then show ?thesis
      using assms(2,4) mb_in_okD [OF m1] by (auto simp: srtcp_encrypt_def d)
  next
    case full
    then show ?thesis
      using assms(2,4) mb_in_okD [OF m1] by (auto simp: srtcp_encrypt_def d)
  next
    case go
    define srtp2 where "srtp2 = on_strm i (\<lambda>s. s\<lparr>ss_rtcp_index := (ss_rtcp_index s + 1) AND 0x7fffffff\<rparr>) srtp1"
    define ix where "ix = ss_rtcp_index (strm srtp2 i)"
    obtain e2 ep mb2 where c: "(case cp_aes (sr_rtcp srtp) of None \<Rightarrow> (0, 0, mb1)
        | Some aes \<Rightarrow> (case crypt_rest (aes_encr X aes (srtp_iv_calc (cp_k_s (sr_rtcp srtp)) ssrc (ucast ix))) mb1 of
                        (err, mb) \<Rightarrow> (err, 1, mb))) = (e2, ep :: u32, mb2)"
      by (metis surj_pair)
    let ?mb3 = "mbuf_write_u32 (hton (push_bit 31 ep OR ix)) (mb2\<lparr>mb_pos := mb_end mb2\<rparr>)"
    obtain e4 mb4 where n: "srtcp_sign X (sr_rtcp srtp) (mb_pos mb) ?mb3 = (e4, mb4)"
      by (metis surj_pair)
    have t2: "srtp_typed srtp2"
      using stream_get_typed [OF assms(2) go(2)] rtcp_index_typed by (simp add: srtp2_def)
    have m2: "mb_in (mb_pos mb) mb2"
      using c m1 mb_in_aes [OF assms(1) m1] by (auto split: option.splits prod.splits)
    have m4: "mb_in (mb_pos mb) mb4"
      using m2 by (intro mb_in_srtcp_sign [OF _ n] mb_in_write_u32 mb_in_end)
    have "srtcp_encrypt X srtp mb =
      (if e2 \<noteq> 0 then (e2, srtp2, mb2) else if e4 \<noteq> 0 then (e4, srtp2, mb4) else (0, srtp2, mb4\<lparr>mb_pos := mb_pos mb\<rparr>))"
      using go(1)
      by (simp only: srtcp_encrypt_def Let_def d prod.case go(2) sum.case srtp2_def [symmetric] ix_def [symmetric] c n
          simp_thms if_False)
    then show ?thesis
      using assms(4) t2 m2 m4 mb_in_finish [OF m4] by (auto dest: mb_in_okD split: if_splits)
  qed
qed

lemma srtcp_decrypt_typed:
  assumes "crypto_sized X" "srtp_typed srtp" "mbuf_ok mb" "srtcp_decrypt X srtp mb = (err, srtp', mb')"
  shows "srtp_typed srtp' \<and> mbuf_ok mb'"
proof -
  let ?cmp = "sr_rtcp srtp"
  obtain e1 ssrc mb1 where d: "get_rtcp_ssrc mb = (e1, ssrc, mb1)"
    by (metis surj_pair)
  have m1: "mb_in (mb_pos mb) mb1"
    by (rule mb_in_get_rtcp_ssrc [OF assms(3) d])
  consider (bad) "e1 \<noteq> 0" | (full) e where "e1 = 0" "stream_get ssrc srtp = Inl e" |
    (short) i srtp1 where "e1 = 0" "stream_get ssrc srtp = Inr (i, srtp1)" "mbuf_get_left mb1 < 4 + cp_tag_len ?cmp" |
    (go) i srtp1 where "e1 = 0" "stream_get ssrc srtp = Inr (i, srtp1)" "\<not> mbuf_get_left mb1 < 4 + cp_tag_len ?cmp"
    by (metis sum.exhaust surj_pair)
  then show ?thesis
  proof cases
    case bad
    then show ?thesis
      using assms(2,4) mb_in_okD [OF m1] by (auto simp: srtcp_decrypt_def d)
  next
    case full
    then show ?thesis
      using assms(2,4) mb_in_okD [OF m1] by (auto simp: srtcp_decrypt_def d)
  next
    case short
    then show ?thesis
      using assms(4) stream_get_typed [OF assms(2) short(2)] mb_in_okD [OF m1] by (auto simp: srtcp_decrypt_def d)
  next
    case go
    define es where "es = mb_end mb1 - (4 + cp_tag_len ?cmp)"
    obtain v mb2 where r: "mbuf_read_u32 (mb1\<lparr>mb_pos := es\<rparr>) = (v, mb2)"
      by (metis surj_pair)
    let ?ix = "ntoh v AND 0x7fffffff"
    obtain e3 srtp3 mb3 where n: "srtcp_verify X ?cmp i ?ix (mb_pos mb) srtp1 mb2 = (e3, srtp3, mb3)"
      by (metis surj_pair)
    define mb4 where "mb4 = mb3\<lparr>mb_end := es\<rparr>"
    obtain e5 mb5 where c: "(case cp_aes ?cmp of None \<Rightarrow> (0, mb4)
        | Some aes \<Rightarrow> if drop_bit 31 (ntoh v) AND 1 \<noteq> 0
             then crypt_rest (aes_encr X aes (srtp_iv_calc (cp_k_s ?cmp) ssrc (ucast ?ix))) (mb4\<lparr>mb_pos := mb_pos mb1\<rparr>)
             else (0, mb4)) = (e5, mb5)"
      by (metis surj_pair)
    have b: "mb_pos mb \<le> mb_pos mb1" "mb_pos mb1 \<le> es" "es + 4 \<le> mb_end mb1"
      using go(3) m1 by (auto simp: es_def mbuf_get_left_def mb_in_def mbuf_ok_def)
    have m2: "mb_in (mb_pos mb) mb2" "mb_end mb2 = mb_end mb1" "es \<le> mb_pos mb2"
      using mb_in_read_u32 [OF mb_in_pos [OF m1] r] b r
      by (auto simp: mbuf_read_u32_def mbuf_read_word_def mbuf_read_mem_def split: if_splits)
    have m3: "mb_in (mb_pos mb) mb3" "es \<le> mb_end mb3"
      using mb_in_srtcp_verify [OF m2(1) n] m2(3) by simp_all
    have m4: "mb_in (mb_pos mb) (mb4\<lparr>mb_pos := mb_pos mb1\<rparr>)" "mbuf_ok (mb4\<lparr>mb_pos := mb_pos mb\<rparr>)"
      using m3 b by (auto simp: mb4_def mb_in_def mbuf_ok_def)
    have "mb_in (mb_pos mb) mb5 \<or> mb5 = mb4 \<and> e5 = 0"
      using c mb_in_aes [OF assms(1) m4(1)] by (auto split: option.splits if_splits)
    then have m5: "mbuf_ok (mb5\<lparr>mb_pos := mb_pos mb\<rparr>)" "e5 \<noteq> 0 \<Longrightarrow> mbuf_ok mb5"
      using mb_in_finish [of "mb_pos mb" mb5] m4(2) mb_in_okD [of "mb_pos mb" mb5] by auto
    have "srtcp_decrypt X srtp mb =
      (if e3 \<noteq> 0 then (e3, srtp3, mb3) else if e5 \<noteq> 0 then (e5, srtp3, mb5) else (0, srtp3, mb5\<lparr>mb_pos := mb_pos mb\<rparr>))"
      using go(1,3)
      by (simp only: srtcp_decrypt_def Let_def d prod.case go(2) sum.case es_def [symmetric] r n mb4_def [symmetric]
          aes_decr_eq c simp_thms if_False)
    then show ?thesis
      using assms(4) srtcp_verify_typed [OF stream_get_typed [OF assms(2) go(2)] n] mb_in_okD [OF m3(1)] m5
      by (auto split: if_splits)
  qed
qed

section \<open>Any use of a session\<close>

datatype srtp_op = OpEncrypt mbuf | OpDecrypt mbuf | OpRtcpEncrypt mbuf | OpRtcpDecrypt mbuf

fun op_mbuf :: "srtp_op \<Rightarrow> mbuf" where
  "op_mbuf (OpEncrypt mb) = mb"
| "op_mbuf (OpDecrypt mb) = mb"
| "op_mbuf (OpRtcpEncrypt mb) = mb"
| "op_mbuf (OpRtcpDecrypt mb) = mb"

fun srtp_do :: "crypto \<Rightarrow> srtp_op \<Rightarrow> srtp \<Rightarrow> int \<times> srtp \<times> mbuf" where
  "srtp_do X (OpEncrypt mb) srtp = srtp_encrypt X srtp mb"
| "srtp_do X (OpDecrypt mb) srtp = srtp_decrypt X srtp mb"
| "srtp_do X (OpRtcpEncrypt mb) srtp = srtcp_encrypt X srtp mb"
| "srtp_do X (OpRtcpDecrypt mb) srtp = srtcp_decrypt X srtp mb"

fun srtp_run :: "crypto \<Rightarrow> srtp_op list \<Rightarrow> srtp \<Rightarrow> srtp \<times> mbuf list" where
  "srtp_run X [] srtp = (srtp, [])"
| "srtp_run X (a # as) srtp =
     (case srtp_do X a srtp of (err, srtp, mb) \<Rightarrow>
      case srtp_run X as srtp of (srtp, mbs) \<Rightarrow> (srtp, mb # mbs))"

lemma srtp_do_typed:
  assumes "crypto_sized X" "srtp_typed srtp" "mbuf_ok (op_mbuf a)" "srtp_do X a srtp = (err, srtp', mb')"
  shows "srtp_typed srtp' \<and> mbuf_ok mb'"
  using assms(3,4) srtp_encrypt_typed [OF assms(1,2), of "op_mbuf a" err srtp' mb']
    srtp_decrypt_typed [OF assms(1,2), of "op_mbuf a" err srtp' mb']
    srtcp_encrypt_typed [OF assms(1,2), of "op_mbuf a" err srtp' mb']
    srtcp_decrypt_typed [OF assms(1,2), of "op_mbuf a" err srtp' mb']
  by (cases a) simp_all

lemma srtp_run_typed:
  assumes "crypto_sized X"
  shows "srtp_typed srtp \<Longrightarrow> list_all (mbuf_ok \<circ> op_mbuf) as \<Longrightarrow> srtp_run X as srtp = (srtp', mbs) \<Longrightarrow>
    srtp_typed srtp' \<and> list_all mbuf_ok mbs"
proof (induction as arbitrary: srtp srtp' mbs)
  case (Cons a as)
  obtain err srtp1 mb where d: "srtp_do X a srtp = (err, srtp1, mb)"
    by (metis surj_pair)
  obtain srtp2 mbs2 where r: "srtp_run X as srtp1 = (srtp2, mbs2)"
    by (metis surj_pair)
  have "srtp_typed srtp1" "mbuf_ok mb"
    using srtp_do_typed [OF assms _ _ d] Cons.prems by simp_all
  then show ?case
    using Cons.IH [OF _ _ r] Cons.prems d r by auto
qed simp

text \<open>
  C16. Whatever is encrypted and decrypted with a session, RTP or RTCP, well-formed packets, garbage or
  forgeries, and even if ciphers fail: the session keeps keys and tags of the sizes the suite asks for, at
  most eight streams with different sources and 31-bit RTCP indices, and every buffer comes back with
  its position and its end in order.
\<close>

theorem srtp_type_safe:
  assumes "crypto_sized X" "srtp_alloc X suite key u = Inr srtp" "list_all (mbuf_ok \<circ> op_mbuf) as"
  shows "case srtp_run X as srtp of (srtp', mbs) \<Rightarrow> srtp_typed srtp' \<and> list_all mbuf_ok mbs"
  using srtp_run_typed [OF assms(1) srtp_alloc_typed [OF assms(1,2)] assms(3)] by (auto split: prod.splits)

theorem srtp_type_safe_witness:
  "case srtp_run toy_crypto [OpEncrypt (mb_of (toy_packet 0 1)), OpDecrypt (mb_of [1, 2, 3]),
     OpRtcpDecrypt (mb_of (replicate 20 0))] toy_srtp of
   (srtp', mbs) \<Rightarrow> srtp_typed srtp' \<and> list_all mbuf_ok mbs"
  by (rule srtp_type_safe [OF _ toy_alloc]) (simp_all add: crypto_sized_def toy_crypto_def)

section \<open>A full table\<close>

lemma srtp_typed_table: "srtp_typed srtp \<Longrightarrow> length (sr_streaml srtp) = card (srtp_table srtp)"
  unfolding srtp_typed_def srtp_table_set by (metis distinct_card length_map set_map)

lemma srtp_after_table:
  assumes "crypto_sized X"
  shows "srtp_typed srtp \<Longrightarrow> list_all rtp_ok ps \<Longrightarrow>
    srtp_typed (srtp_after X srtp ps) \<and>
    srtp_table (srtp_after X srtp ps) \<subseteq> srtp_table srtp \<union> rtp_u32 8 ` set ps \<and>
    (srtp_table srtp \<union> rtp_u32 8 ` set ps \<subseteq> srtp_table (srtp_after X srtp ps) \<or>
     SRTP_MAX_STREAMS \<le> card (srtp_table (srtp_after X srtp ps)))"
proof (induction ps arbitrary: srtp)
  case (Cons p ps)
  obtain err srtp1 mb1 where d: "srtp_decrypt X srtp (mb_of p) = (err, srtp1, mb1)"
    by (metis surj_pair)
  have h: "cp_hmac (sr_rtp srtp) \<noteq> None"
    using Cons.prems(1) by (auto simp: srtp_typed_def comp_typed_def)
  have t1: "srtp_typed srtp1"
    using srtp_decrypt_typed [OF assms Cons.prems(1) _ d] by simp
  let ?T = "srtp_table (srtp_after X srtp1 ps)"
  have ih: "srtp_typed (srtp_after X srtp1 ps)" "?T \<subseteq> srtp_table srtp1 \<union> rtp_u32 8 ` set ps"
    "srtp_table srtp1 \<union> rtp_u32 8 ` set ps \<subseteq> ?T \<or> SRTP_MAX_STREAMS \<le> card ?T"
    using Cons.IH [OF t1] Cons.prems(2) by simp_all
  have fin: "finite ?T"
    by (simp add: srtp_table_set)
  have "srtp_table srtp1 = insert (rtp_u32 8 p) (srtp_table srtp) \<or>
      srtp1 = srtp \<and> SRTP_MAX_STREAMS \<le> card (srtp_table srtp)"
    using srtp_table_step [OF h _ d] Cons.prems srtp_typed_table by fastforce
  then show ?case
    using ih d card_mono [OF fin, of "srtp_table srtp"] by auto
qed simp

text \<open>
  C36. Eight packets of anybody, with eight different sources and no valid tag, are enough to lock a receiver:
  a stream is set up before the packet is authenticated and never given back, and the packets of every
  other source are refused from then on.
\<close>

theorem srtp_table_exhausted:
  assumes "crypto_sized X" "srtp_alloc X suite key f = Inr srtp"
    and "list_all rtp_ok ps" "distinct (map (rtp_u32 8) ps)" "length ps = SRTP_MAX_STREAMS"
    and "rtp_ok p" "rtp_u32 8 p \<notin> rtp_u32 8 ` set ps"
  shows "fst (srtp_decrypt X (srtp_after X srtp ps) (mb_of p)) = ENOSR"
proof -
  let ?s = "srtp_after X srtp ps"
  have "srtp_table srtp = {}"
    using srtp_alloc_ok(3) [OF assms(2)] by (simp add: srtp_table_set)
  then have t: "srtp_typed ?s" "srtp_table ?s \<subseteq> rtp_u32 8 ` set ps"
    "rtp_u32 8 ` set ps \<subseteq> srtp_table ?s \<or> SRTP_MAX_STREAMS \<le> card (srtp_table ?s)"
    using srtp_after_table [OF assms(1) srtp_alloc_typed [OF assms(1,2)] assms(3)] by auto
  have "card (rtp_u32 8 ` set ps) = SRTP_MAX_STREAMS"
    using assms(4,5) distinct_card [OF assms(4)] by simp
  then have "SRTP_MAX_STREAMS \<le> card (srtp_table ?s)"
    using t(2,3) by (metis order_refl subset_antisym)
  then show ?thesis
    using t srtp_typed_table [OF t(1)] assms(6,7) by (intro srtp_full) auto
qed

definition toy_stranger :: "u8 \<Rightarrow> u8 list" where
  "toy_stranger n = [0x80, 111, 0, 1, 0, 0, 0, 0, 0, 0, 1, n]"

theorem srtp_table_exhausted_witness:
  "fst (srtp_decrypt toy_crypto (srtp_after toy_crypto toy_srtp (map toy_stranger [0, 1, 2, 3, 4, 5, 6, 7]))
     (mb_of (toy_packet 0 1))) = ENOSR"
proof (rule srtp_table_exhausted [OF _ toy_alloc])
  show "crypto_sized toy_crypto"
    by (simp add: crypto_sized_def toy_crypto_def)
  show "list_all rtp_ok (map toy_stranger [0, 1, 2, 3, 4, 5, 6, 7])" "rtp_ok (toy_packet 0 1)"
    by code_simp+
  show "distinct (map (rtp_u32 8) (map toy_stranger [0, 1, 2, 3, 4, 5, 6, 7]))"
    by code_simp
  show "rtp_u32 8 (toy_packet 0 1) \<notin> rtp_u32 8 ` set (map toy_stranger [0, 1, 2, 3, 4, 5, 6, 7])"
    by code_simp
qed simp

end
