(* ===== verification/Srtcp_Correct.thy ===== *)
theory Srtcp_Correct
  imports Srtp_Typed
begin

unbundle bit_operations_syntax

text \<open>
  RTCP packets (\<^verbatim>\<open>contrib/re/src/srtp/srtcp.c\<close>): a packet carries its index, so that a receiver with the
  same keys restores exactly the packets its replay window accepts, in whatever order they arrive.
\<close>

section \<open>A protected RTCP packet\<close>

definition rtcp_word :: "comp \<Rightarrow> u32 \<Rightarrow> u32" where
  "rtcp_word cmp ix = push_bit 31 (if cp_aes cmp = None then 0 else 1) OR ix"

definition srtcp_body :: "crypto \<Rightarrow> comp \<Rightarrow> u32 \<Rightarrow> u8 list \<Rightarrow> u8 list" where
  "srtcp_body X cmp ix bs =
     take 8 bs @ ctr X (cp_aes cmp) (srtp_iv_calc (cp_k_s cmp) (rtp_u32 4 bs) (ucast ix)) (drop 8 bs)"

definition srtcp_packet :: "crypto \<Rightarrow> comp \<Rightarrow> u32 \<Rightarrow> u8 list \<Rightarrow> u8 list" where
  "srtcp_packet X cmp ix bs =
     (let m = srtcp_body X cmp ix bs @ rev (mem_bytes (rtcp_word cmp ix)) in m @ srtp_tag X cmp m)"

lemma rtcp_word_index: "ix < 2 ^ 31 \<Longrightarrow> rtcp_word cmp ix AND 0x7fffffff = ix"
proof -
  assume "ix < 2 ^ 31"
  then have b: "n < 31" if "bit ix n" for n
    using that less_mask_eq [of ix 31] by (metis bit_take_bit_iff take_bit_eq_mask)
  have m: "0x7fffffff = (mask 31 :: u32)"
    by (simp add: mask_eq_exp_minus_1)
  show ?thesis
    unfolding m rtcp_word_def by (rule bit_word_eqI) (use b in \<open>auto simp: bit_simps\<close>)
qed

lemma rtcp_word_flag: "ix < 2 ^ 31 \<Longrightarrow> drop_bit 31 (rtcp_word cmp ix) AND 1 \<noteq> 0 \<longleftrightarrow> cp_aes cmp \<noteq> None"
proof -
  assume "ix < 2 ^ 31"
  then have b: "\<not> bit ix 31"
    using less_mask_eq [of ix 31] by (metis bit_take_bit_iff less_irrefl take_bit_eq_mask)
  have "drop_bit 31 w AND 1 \<noteq> 0 \<longleftrightarrow> bit w 31" for w :: u32
    by (simp add: bit_iff_odd_drop_bit and_one_eq odd_iff_mod_2_eq_one)
  then show ?thesis
    using b by (auto simp: rtcp_word_def bit_simps)
qed

lemma get_rtcp_ssrc_ok:
  assumes "mbuf_ok mb" "8 \<le> length (mbuf_rest mb)"
  shows "get_rtcp_ssrc mb = (0, rtp_u32 4 (mbuf_rest mb), mb_at mb 8)"
proof -
  have "mbuf_advance 4 mb = mb_at mb 4"
    by (simp add: mbuf_advance_def mb_at_def nat_add_distrib)
  then show ?thesis
    using assms by (simp add: get_rtcp_ssrc_def mbuf_left_rest mbuf_read_at rtp_u32_def)
qed

text \<open>The stream of an RTCP packet.\<close>

definition strm_rtcp :: "u32 \<Rightarrow> srtp \<Rightarrow> srtp_stream" where
  "strm_rtcp ssrc srtp = (case stream_of ssrc srtp of None \<Rightarrow> new_stream ssrc | Some s \<Rightarrow> s)"

lemma stream_get_room:
  assumes "has_room ssrc srtp"
  obtains i srtp' where "stream_get ssrc srtp = Inr (i, srtp')" "stream_find ssrc (sr_streaml srtp') = Some i"
    "sr_rtcp srtp' = sr_rtcp srtp" "strm srtp' i = strm_rtcp ssrc srtp"
    "\<And>y. y \<noteq> ssrc \<Longrightarrow> stream_of y srtp' = stream_of y srtp" "i < length (sr_streaml srtp')"
proof -
  have "\<exists>i srtp1. stream_get ssrc srtp = Inr (i, srtp1)"
    using assms
    by (cases "stream_find ssrc (sr_streaml srtp)") (auto simp: has_room_def stream_of_def stream_get_def stream_new_def)
  then obtain i srtp1 where g: "stream_get ssrc srtp = Inr (i, srtp1)" by blast
  note G = stream_get_Inr [OF g]
  then show ?thesis
    using that [OF g G(1)] stream_find_SomeD [OF G(1)] by (simp add: strm_rtcp_def)
qed

lemma srtcp_sign_ok:
  assumes "mbuf_ok mb" "crypto_ok X" "start < mb_end mb"
  shows "\<exists>mb'. srtcp_sign X cmp start mb = (0, mb') \<and> mbuf_ok (mb'\<lparr>mb_pos := start\<rparr>) \<and>
    mb_data mb' = mb_data mb @ srtp_tag X cmp (drop start (mb_data mb))"
proof (cases "cp_hmac cmp")
  case None
  then show ?thesis
    using assms by (simp add: srtcp_sign_def srtp_tag_def mbuf_ok_def)
next
  case (Some k)
  have r: "mbuf_rest (mb\<lparr>mb_pos := start\<rparr>) = drop start (mb_data mb)" "drop start (mb_data mb) \<noteq> []"
    using assms by (simp_all add: mbuf_rest_data)
  obtain t where t: "hmac_digest X k (drop start (mb_data mb)) = Inr t" "cr_hmac_sha1 X k (drop start (mb_data mb)) = Some t"
    using hmac_ok [OF assms(2) r(2)] by blast
  note w = mbuf_write_end [OF assms(1), of "take (cp_tag_len cmp) t"]
  have "srtcp_sign X cmp start mb = (0, mbuf_write_mem (take (cp_tag_len cmp) t) (mb\<lparr>mb_pos := mb_end mb\<rparr>))"
    by (simp add: srtcp_sign_def Some r t Let_def)
  moreover have "mbuf_ok (mbuf_write_mem (take (cp_tag_len cmp) t) (mb\<lparr>mb_pos := mb_end mb\<rparr>)\<lparr>mb_pos := start\<rparr>)"
    using w assms(3) by (intro mbuf_ok_pos) simp_all
  ultimately show ?thesis
    using w t by (simp add: srtp_tag_def Some)
qed

lemma crypt_step_ok:
  assumes "crypto_ok X" "mbuf_ok mb"
  shows "\<exists>mb'. crypt_step X cmp iv mb = (0, mb') \<and> mbuf_ok mb' \<and> mb_pos mb' = mb_pos mb \<and> mb_end mb' = mb_end mb \<and>
    mb_data mb' = take (mb_pos mb) (mb_data mb) @ ctr X (cp_aes cmp) iv (mbuf_rest mb)"
proof (cases "cp_aes cmp")
  case None
  then show ?thesis
    using assms(2) by (simp add: crypt_step_def ctr_def mbuf_rest_data)
next
  case (Some k)
  then show ?thesis
    using crypt_rest_ok [OF assms(2), of "aes_encr X k iv" "ctr X (Some k) iv (mbuf_rest mb)"] ctr_ok [OF assms(1)]
    by (simp add: crypt_step_def)
qed

lemma srtcp_encrypt_ok:
  fixes srtp
  assumes "mbuf_ok mb" "mbuf_rest mb = bs" "8 \<le> length bs" "crypto_ok X" "has_room (rtp_u32 4 bs) srtp"
  defines "s \<equiv> strm_rtcp (rtp_u32 4 bs) srtp"
  defines "ix \<equiv> (ss_rtcp_index s + 1) AND 0x7fffffff"
  shows "\<exists>srtp' mb'. srtcp_encrypt X srtp mb = (0, srtp', mb') \<and>
    mb_data mb' = take (mb_pos mb) (mb_data mb) @ srtcp_packet X (sr_rtcp srtp) ix bs \<and>
    sr_rtcp srtp' = sr_rtcp srtp \<and> stream_of (rtp_u32 4 bs) srtp' = Some (s\<lparr>ss_rtcp_index := ix\<rparr>)"
proof -
  let ?ssrc = "rtp_u32 4 bs" and ?c = "sr_rtcp srtp"
  obtain i srtp1 where g: "stream_get ?ssrc srtp = Inr (i, srtp1)" "stream_find ?ssrc (sr_streaml srtp1) = Some i"
    "sr_rtcp srtp1 = ?c" "strm srtp1 i = s" "i < length (sr_streaml srtp1)"
    using stream_get_room [OF assms(5)] unfolding s_def by metis
  define srtp2 where "srtp2 = on_strm i (\<lambda>s. s\<lparr>ss_rtcp_index := (ss_rtcp_index s + 1) AND 0x7fffffff\<rparr>) srtp1"
  have s2: "ss_rtcp_index (strm srtp2 i) = ix" "sr_rtcp srtp2 = ?c"
    "stream_of ?ssrc srtp2 = Some (s\<lparr>ss_rtcp_index := ix\<rparr>)"
    using g stream_of_on_strm [OF g(2), of "\<lambda>s. s\<lparr>ss_rtcp_index := (ss_rtcp_index s + 1) AND 0x7fffffff\<rparr>"]
    by (simp_all add: srtp2_def ix_def keeps_ssrc_def)
  have d: "get_rtcp_ssrc mb = (0, ?ssrc, mb_at mb 8)"
    using get_rtcp_ssrc_ok [OF assms(1)] assms(2,3) by simp
  have ok1: "mbuf_ok (mb_at mb 8)"
    using assms(1-3) by simp
  have "take (mb_pos mb + 8) (mb_data mb) = take (mb_pos mb) (mb_data mb) @ take 8 bs"
    using assms(2) by (auto simp: mbuf_rest_data take_add)
  then obtain mb2 where c: "crypt_step X ?c (srtp_iv_calc (cp_k_s ?c) ?ssrc (ucast ix)) (mb_at mb 8) = (0, mb2)" "mbuf_ok mb2"
    "mb_end mb2 = mb_end mb" "mb_data mb2 = take (mb_pos mb) (mb_data mb) @ srtcp_body X ?c ix bs"
    using crypt_step_ok [OF assms(4) ok1, of ?c "srtp_iv_calc (cp_k_s ?c) ?ssrc (ucast ix)"] assms(2)
    by (auto simp: srtcp_body_def)
  have c': "(case cp_aes ?c of None \<Rightarrow> (0, 0, mb_at mb 8)
        | Some aes \<Rightarrow> (case crypt_rest (aes_encr X aes (srtp_iv_calc (cp_k_s ?c) ?ssrc (ucast ix))) (mb_at mb 8) of
                        (err, mb) \<Rightarrow> (err, 1, mb))) = (0, if cp_aes ?c = None then 0 else 1 :: u32, mb2)"
    using c(1) by (auto simp: crypt_step_def split: option.splits prod.splits)
  define mb3 where "mb3 = mbuf_write_u32 (hton (rtcp_word ?c ix)) (mb2\<lparr>mb_pos := mb_end mb2\<rparr>)"
  note w = mbuf_write_end [OF c(2), of "rev (mem_bytes (rtcp_word ?c ix))", folded mbuf_write_u32_mem, folded mb3_def]
  have lt: "length (take (mb_pos mb) (mb_data mb)) = mb_pos mb" "mb_pos mb < mb_end mb3"
    using assms(1) c(3) w(2) by (simp_all add: mbuf_ok_def)
  obtain mb4 where n: "srtcp_sign X ?c (mb_pos mb) mb3 = (0, mb4)"
    "mb_data mb4 = take (mb_pos mb) (mb_data mb) @ srtcp_packet X ?c ix bs"
    using srtcp_sign_ok [OF w(3) assms(4) lt(2), of ?c] lt(1) w(1) c(4)
    by (auto simp: srtcp_packet_def Let_def simp del: length_take)
  have "srtcp_encrypt X srtp mb = (0, srtp2, mb4\<lparr>mb_pos := mb_pos mb\<rparr>)"
    by (simp only: srtcp_encrypt_def Let_def d prod.case g(1) sum.case srtp2_def [symmetric] s2(1) c' rtcp_word_def [symmetric]
        mb3_def [symmetric] n(1) simp_thms if_False)
  then show ?thesis
    using n(2) s2 by simp
qed

lemma srtcp_verify_ok:
  assumes "mbuf_ok mb" "crypto_ok X" "comp_ok cmp" "start < mb_pos mb"
    and m: "drop start (mb_data mb) = m @ srtp_tag X cmp m" "mb_pos mb = start + length m"
    and rp: "srtp_replay_check (ucast ix) (ss_replay_rtcp (strm srtp i)) = (ok, rp)"
  shows "\<exists>mb'. srtcp_verify X cmp i ix start srtp mb =
      (if ok then (0, on_strm i (\<lambda>s. s\<lparr>ss_replay_rtcp := rp\<rparr>) srtp, mb') else (EALREADY, srtp, mb')) \<and>
    mbuf_ok mb' \<and> mb_pos mb' = start \<and> mb_data mb' = take start (mb_data mb) @ m"
proof -
  obtain k where k: "cp_hmac cmp = Some k"
    using assms(3) by (auto simp: comp_ok_def)
  have ne: "m \<noteq> []"
    using assms(4) m(2) by auto
  have le: "start \<le> length (mb_data mb)"
    using assms(1,4) by (simp add: mbuf_ok_def)
  have dt: "mb_data mb = take start (mb_data mb) @ m @ srtp_tag X cmp m"
    using m(1) by (metis append_take_drop_id)
  have r: "mbuf_rest mb = srtp_tag X cmp m @ []"
    using le by (simp add: mbuf_rest_data m(2)) (subst dt, simp)
  have rd: "mbuf_read_mem (cp_tag_len cmp) mb = (0, srtp_tag X cmp m, mb\<lparr>mb_pos := mb_pos mb + cp_tag_len cmp\<rparr>)"
    by (rule mbuf_read_mem_ok [OF assms(1) r]) (simp add: length_srtp_tag [OF assms(2,3)])
  define mb1 where "mb1 = mb\<lparr>mb_pos := start, mb_end := mb_pos mb\<rparr>"
  have "mb_data mb1 = take (mb_pos mb) (mb_data mb)"
    using assms(1) by (simp add: mb1_def mb_data_cut mbuf_ok_def)
  also have "\<dots> = take start (mb_data mb) @ m"
    using le by (subst dt) (simp add: m(2))
  finally have d1: "mb_data mb1 = take start (mb_data mb) @ m" .
  have ok1: "mbuf_ok mb1" "mb_pos mb1 = start"
    using assms(1,4) by (simp_all add: mb1_def mbuf_ok_def)
  have r1: "mbuf_rest mb1 = m"
    using le by (simp add: mbuf_rest_data d1 ok1(2))
  obtain t where t: "hmac_digest X k m = Inr t" "cr_hmac_sha1 X k m = Some t"
    using hmac_ok [OF assms(2) ne] by blast
  have e: "mb\<lparr>mb_pos := mb_pos mb + cp_tag_len cmp\<rparr>\<lparr>mb_pos := start, mb_end := mb_pos mb\<rparr> = mb1"
    by (simp add: mb1_def)
  have tt: "take (cp_tag_len cmp) t = srtp_tag X cmp m"
    by (simp add: srtp_tag_def k t)
  have "srtcp_verify X cmp i ix start srtp mb =
      (if ok then (0, on_strm i (\<lambda>s. s\<lparr>ss_replay_rtcp := rp\<rparr>) srtp, mb1) else (EALREADY, srtp, mb1))"
    by (cases ok) (simp_all only: srtcp_verify_def k option.case rd Let_def prod.case e r1 t(1) sum.case tt rp
        simp_thms if_False if_True)
  then show ?thesis
    using ok1 d1 by auto
qed

lemma srtcp_packet_simps:
  assumes "crypto_ok X" "8 \<le> length bs"
  shows "length (srtcp_body X cmp ix bs) = length bs" "rtp_u32 4 (srtcp_packet X cmp ix bs) = rtp_u32 4 bs"
    "take 8 (srtcp_body X cmp ix bs) = take 8 bs"
    "ctr X (cp_aes cmp) (srtp_iv_calc (cp_k_s cmp) (rtp_u32 4 bs) (ucast ix)) (drop 8 (srtcp_body X cmp ix bs)) = drop 8 bs"
  using assms by (simp_all add: srtcp_body_def srtcp_packet_def ctr_ok rtp_u32_def take_drop Let_def)

lemma srtcp_decrypt_ok:
  fixes srtp
  assumes "mbuf_ok mb" "crypto_ok X" "comp_ok (sr_rtcp srtp)" "8 \<le> length bs" "has_room (rtp_u32 4 bs) srtp" "ix < 2 ^ 31"
  defines "s \<equiv> strm_rtcp (rtp_u32 4 bs) srtp"
  assumes pkt: "mbuf_rest mb = srtcp_packet X (sr_rtcp srtp) ix bs"
    and rp: "srtp_replay_check (ucast ix) (ss_replay_rtcp s) = (ok, rp)"
  shows "\<exists>srtp' mb'. srtcp_decrypt X srtp mb = (if ok then 0 else EALREADY, srtp', mb') \<and>
    (ok \<longrightarrow> mb_data mb' = take (mb_pos mb) (mb_data mb) @ bs) \<and> sr_rtcp srtp' = sr_rtcp srtp \<and>
    stream_of (rtp_u32 4 bs) srtp' = Some (if ok then s\<lparr>ss_replay_rtcp := rp\<rparr> else s)"
proof -
  let ?ssrc = "rtp_u32 4 bs" and ?c = "sr_rtcp srtp"
  let ?w = "rtcp_word ?c ix" and ?b = "srtcp_body X ?c ix bs"
  let ?m = "?b @ rev (mem_bytes ?w)"
  note b = srtcp_packet_simps [OF assms(2,4), of ?c ix]
  obtain i srtp1 where g: "stream_get ?ssrc srtp = Inr (i, srtp1)" "stream_find ?ssrc (sr_streaml srtp1) = Some i"
    "sr_rtcp srtp1 = ?c" "strm srtp1 i = s" "i < length (sr_streaml srtp1)"
    using stream_get_room [OF assms(5)] unfolding s_def by metis
  have pk: "mbuf_rest mb = ?m @ srtp_tag X ?c ?m"
    by (simp add: pkt srtcp_packet_def Let_def)
  have lp: "length (mbuf_rest mb) = length bs + 4 + cp_tag_len ?c"
    using length_srtp_tag [OF assms(2,3)] b(1) by (simp add: pk)
  have d: "get_rtcp_ssrc mb = (0, ?ssrc, mb_at mb 8)"
    using get_rtcp_ssrc_ok [OF assms(1)] lp assms(4) b(2) by (simp add: pkt)
  have end1: "mb_end mb = mb_pos mb + length bs + 4 + cp_tag_len ?c"
    using lp assms(1) by (simp add: mbuf_rest_data mbuf_ok_def)
  define es where "es = mb_end (mb_at mb 8) - (4 + cp_tag_len ?c)"
  have es: "es = mb_pos mb + length bs" "(mb_at mb 8)\<lparr>mb_pos := es\<rparr> = mb_at mb (length bs)"
    using end1 by (simp_all add: es_def mb_at_def)
  have left: "\<not> mbuf_get_left (mb_at mb 8) < 4 + cp_tag_len ?c"
    using lp assms(1,4) by (simp add: mbuf_left_at)
  have rd: "mbuf_read_u32 ((mb_at mb 8)\<lparr>mb_pos := es\<rparr>) = (hton ?w, mb_at mb (length bs + 4))"
    using assms(1) lp b(1) by (simp add: es mbuf_read_at pk hton_def)
  have ok2: "mbuf_ok (mb_at mb (length bs + 4))"
    using assms(1) lp by simp
  have "drop (mb_pos mb) (mb_data (mb_at mb (length bs + 4))) = ?m @ srtp_tag X ?c ?m"
    using pk by (simp add: mbuf_rest_data)
  then obtain mb3 where v: "srtcp_verify X ?c i ix (mb_pos mb) srtp1 (mb_at mb (length bs + 4)) =
      (if ok then (0, on_strm i (\<lambda>s. s\<lparr>ss_replay_rtcp := rp\<rparr>) srtp1, mb3) else (EALREADY, srtp1, mb3))"
    "mbuf_ok mb3" "mb_pos mb3 = mb_pos mb" "mb_data mb3 = take (mb_pos mb) (mb_data mb) @ ?m"
    using srtcp_verify_ok [OF ok2 assms(2,3), of "mb_pos mb" ?m ix srtp1 i ok rp] b(1) rp g(4) by auto
  have lt: "length (take (mb_pos mb) (mb_data mb)) = mb_pos mb"
    using assms(1) by (simp add: mbuf_ok_def)
  define mb4 where "mb4 = mb3\<lparr>mb_end := es\<rparr>"
  have e3: "es \<le> mb_end mb3"
    using v(2,4) lt b(1) length_mb_data [OF v(2)] by (simp add: es)
  have "mb_data mb4 = take es (mb_data mb3)"
    using e3 by (simp add: mb4_def mb_data_def min_def)
  then have d4: "mb_data mb4 = take (mb_pos mb) (mb_data mb) @ ?b"
    using lt b(1) by (simp add: v(4) es(1) del: length_take)
  define mb5 where "mb5 = mb4\<lparr>mb_pos := mb_pos (mb_at mb 8)\<rparr>"
  have m5: "mbuf_ok mb5" "mb_data mb5 = mb_data mb4" "mb_pos mb5 = mb_pos mb + 8" "mbuf_rest mb5 = drop 8 ?b"
    using v(2) e3 assms(4) d4 lt es(1)
    by (simp_all add: mb5_def mb4_def mbuf_ok_def mbuf_rest_data del: length_take)
  have "take (mb_pos mb5) (mb_data mb4) = take (mb_pos mb) (mb_data mb) @ take 8 bs"
    using lt b(1,3) by (simp add: m5(3) d4 del: length_take)
  then obtain mb6 where c: "crypt_step X ?c (srtp_iv_calc (cp_k_s ?c) ?ssrc (ucast ix)) mb5 = (0, mb6)"
    "mb_data mb6 = take (mb_pos mb) (mb_data mb) @ bs"
    using crypt_step_ok [OF assms(2) m5(1), of ?c "srtp_iv_calc (cp_k_s ?c) ?ssrc (ucast ix)"] b(4) m5(2,4) by auto
  obtain mb7 where c7: "(case cp_aes ?c of None \<Rightarrow> (0, mb4)
      | Some aes \<Rightarrow> if cp_aes ?c \<noteq> None then crypt_rest (aes_encr X aes (srtp_iv_calc (cp_k_s ?c) ?ssrc (ucast ix))) mb5 else (0, mb4)) = (0, mb7)"
    "mb_data mb7 = take (mb_pos mb) (mb_data mb) @ bs"
    using c d4 m5(2) by (cases "cp_aes ?c") (auto simp: crypt_step_def)
  have err: "EALREADY \<noteq> 0"
    by simp
  have "srtcp_decrypt X srtp mb =
      (if ok then (0, on_strm i (\<lambda>s. s\<lparr>ss_replay_rtcp := rp\<rparr>) srtp1, mb7\<lparr>mb_pos := mb_pos mb\<rparr>) else (EALREADY, srtp1, mb3))"
    using left
    by (cases ok) (simp_all only: srtcp_decrypt_def Let_def d prod.case g(1) sum.case es_def [symmetric] rd hton_32
        rtcp_word_index [OF assms(6)] rtcp_word_flag [OF assms(6)] v(1) mb4_def [symmetric] mb5_def [symmetric]
        aes_decr_eq c7(1) err simp_thms if_False if_True)
  then show ?thesis
    using c7(2) g stream_of_on_strm [OF g(2), of "\<lambda>s. s\<lparr>ss_replay_rtcp := rp\<rparr>" ?ssrc]
    by (cases ok) (auto simp: stream_of_def keeps_ssrc_def)
qed

section \<open>Two ends\<close>

fun srtcp_send :: "crypto \<Rightarrow> srtp \<Rightarrow> u8 list list \<Rightarrow> u8 list list" where
  "srtcp_send X srtp [] = []"
| "srtcp_send X srtp (p # ps) =
     (let (err, srtp, mb) = srtcp_encrypt X srtp (mb_of p) in mb_data mb # srtcp_send X srtp ps)"

text \<open>What a receiver makes of the packets: the payload, or the error number.\<close>

fun srtcp_recv :: "crypto \<Rightarrow> srtp \<Rightarrow> u8 list list \<Rightarrow> (int + u8 list) list" where
  "srtcp_recv X srtp [] = []"
| "srtcp_recv X srtp (p # ps) =
     (let (err, srtp, mb) = srtcp_decrypt X srtp (mb_of p)
      in (if err = 0 then Inr (mb_data mb) else Inl err) # srtcp_recv X srtp ps)"

definition rtcp_of :: "u32 \<Rightarrow> u8 list \<Rightarrow> bool" where
  "rtcp_of ssrc p \<longleftrightarrow> 8 \<le> length p \<and> rtp_u32 4 p = ssrc"

lemma has_room_Some: "stream_of ssrc srtp = Some s \<Longrightarrow> has_room ssrc srtp"
  by (simp add: has_room_def)

lemma unat_u32: "n < 2 ^ 32 \<Longrightarrow> unat (of_nat n :: u32) = n"
  by (simp add: unsigned_of_nat take_bit_nat_eq_self)

lemma less_31: "n < 2 ^ 31 \<Longrightarrow> (of_nat n :: u32) < 2 ^ 31"
  using unat_u32 [of n] by (simp add: word_less_nat_alt)

lemma and_31_id: "ix < 2 ^ 31 \<Longrightarrow> (ix :: u32) AND 0x7fffffff = ix"
  using less_mask_eq [of ix 31] by (simp add: mask_eq_exp_minus_1)

lemma srtcp_send_eq:
  assumes "crypto_ok X"
  shows "has_room ssrc srtp \<Longrightarrow> ss_rtcp_index (strm_rtcp ssrc srtp) = of_nat n \<Longrightarrow> n + length ps < 2 ^ 31 \<Longrightarrow>
    list_all (rtcp_of ssrc) ps \<Longrightarrow>
    srtcp_send X srtp ps = map2 (\<lambda>i. srtcp_packet X (sr_rtcp srtp) (of_nat i)) [Suc n..<Suc (n + length ps)] ps"
proof (induction ps arbitrary: srtp n)
  case (Cons p ps)
  have ix: "(of_nat n + 1 :: u32) AND 0x7fffffff = of_nat (Suc n)"
    using and_31_id [OF less_31, of "Suc n"] Cons.prems(3) by (simp add: add.commute)
  obtain srtp' mb' where e: "srtcp_encrypt X srtp (mb_of p) = (0, srtp', mb')"
    "mb_data mb' = srtcp_packet X (sr_rtcp srtp) (of_nat (Suc n)) p" "sr_rtcp srtp' = sr_rtcp srtp"
    "stream_of ssrc srtp' = Some ((strm_rtcp ssrc srtp)\<lparr>ss_rtcp_index := of_nat (Suc n)\<rparr>)"
    using srtcp_encrypt_ok [of "mb_of p" p X srtp] assms Cons.prems ix by (auto simp: rtcp_of_def)
  have "srtcp_send X srtp' ps =
      map2 (\<lambda>i. srtcp_packet X (sr_rtcp srtp') (of_nat i)) [Suc (Suc n)..<Suc (Suc n + length ps)] ps"
    using Cons.prems e(4) by (intro Cons.IH has_room_Some [OF e(4)]) (simp_all add: strm_rtcp_def)
  moreover have "[Suc n..<Suc (n + length (p # ps))] = Suc n # [Suc (Suc n)..<Suc (Suc n + length ps)]"
    by (simp add: upt_rec)
  ultimately show ?case
    by (simp add: e del: upt_Suc)
qed simp

lemma srtcp_recv_eq:
  assumes "crypto_ok X"
  shows "has_room ssrc srtp \<Longrightarrow> comp_ok (sr_rtcp srtp) \<Longrightarrow> list_all (\<lambda>(ix, p). ix < 2 ^ 31 \<and> rtcp_of ssrc p) qs \<Longrightarrow>
    srtcp_recv X srtp (map (\<lambda>(ix, p). srtcp_packet X (sr_rtcp srtp) ix p) qs) =
    map2 (\<lambda>ok (ix, p). if ok then Inr p else Inl EALREADY)
      (replay_run (map (ucast \<circ> fst) qs) (ss_replay_rtcp (strm_rtcp ssrc srtp))) qs"
proof (induction qs arbitrary: srtp)
  case (Cons q qs)
  obtain ix p where q: "q = (ix, p)"
    by (cases q)
  obtain ok rp where rp: "srtp_replay_check (ucast ix) (ss_replay_rtcp (strm_rtcp ssrc srtp)) = (ok, rp)"
    by force
  obtain srtp' mb' where e:
    "srtcp_decrypt X srtp (mb_of (srtcp_packet X (sr_rtcp srtp) ix p)) = (if ok then 0 else EALREADY, srtp', mb')"
    "ok \<longrightarrow> mb_data mb' = p" "sr_rtcp srtp' = sr_rtcp srtp"
    "stream_of ssrc srtp' = Some (if ok then (strm_rtcp ssrc srtp)\<lparr>ss_replay_rtcp := rp\<rparr> else strm_rtcp ssrc srtp)"
    using srtcp_decrypt_ok [of "mb_of (srtcp_packet X (sr_rtcp srtp) ix p)" X srtp p ix ok rp] assms Cons.prems q rp
    by (auto simp: rtcp_of_def)
  have "ss_replay_rtcp (strm_rtcp ssrc srtp') = rp"
    using e(4) rp by (auto simp: strm_rtcp_def srtp_replay_check_def Let_def split: if_splits)
  then show ?case
    using Cons.IH [OF has_room_Some [OF e(4)]] Cons.prems q rp e by auto
qed simp

text \<open>
  C17. Of up to \<open>2\<^sup>3\<^sup>1 - 1\<close> RTCP packets that one end protects, any selection may arrive at the other end in any
  order and any number of times: what is new and less than 64 behind the latest is restored exactly as
  it was sent, and everything else is refused as already received.
\<close>

theorem srtcp_delivers:
  assumes "crypto_ok X" "srtp_alloc X suite key f = Inr srtp" "list_all (rtcp_of ssrc) ps" "length ps < 2 ^ 31"
    and "set js \<subseteq> {..<length ps}"
  shows "srtcp_recv X srtp (map ((!) (srtcp_send X srtp ps)) js) =
    map2 (\<lambda>ok j. if ok then Inr (ps ! j) else Inl EALREADY) (window_run (map Suc js) []) js"
proof -
  note a = srtp_alloc_ok [OF assms(2)]
  have room: "has_room ssrc srtp" and new: "strm_rtcp ssrc srtp = new_stream ssrc"
    by (simp_all add: has_room_def strm_rtcp_def stream_of_def a(3))
  have n: "unat (of_nat (Suc j) :: u32) = Suc j" "unat (ucast (of_nat (Suc j) :: u32) :: u64) = Suc j" if "j < length ps" for j
  proof -
    show u: "unat (of_nat (Suc j) :: u32) = Suc j"
      by (rule unat_u32) (use assms(4) that in simp)
    show "unat (ucast (of_nat (Suc j) :: u32) :: u64) = Suc j"
      using assms(4) that by (simp add: unsigned_ucast_eq u take_bit_nat_eq_self del: of_nat_Suc)
  qed
  let ?qs = "map (\<lambda>j. (of_nat (Suc j) :: u32, ps ! j)) js"
  have "srtcp_send X srtp ps ! j = srtcp_packet X (sr_rtcp srtp) (of_nat (Suc j)) (ps ! j)" if "j < length ps" for j
    using srtcp_send_eq [OF assms(1) room, of 0 ps] assms(3,4) that by (simp add: new new_stream_def del: upt_Suc)
  then have "map ((!) (srtcp_send X srtp ps)) js = map (\<lambda>(ix, p). srtcp_packet X (sr_rtcp srtp) ix p) ?qs"
    using assms(5) by (auto simp del: of_nat_Suc)
  moreover have "(of_nat (Suc j) :: u32) < 2 ^ 31 \<and> rtcp_of ssrc (ps ! j)" if "j \<in> set js" for j
    using that assms(3-5) by (intro conjI less_31) (auto simp: list_all_iff)
  then have "list_all (\<lambda>(ix, p). ix < 2 ^ 31 \<and> rtcp_of ssrc p) ?qs"
    by (simp only: list_all_iff set_map ball_simps prod.case simp_thms) blast
  moreover have "map unat (map (ucast \<circ> fst) ?qs :: u64 list) = map Suc js"
    using assms(5) n(2) by (auto simp del: of_nat_Suc)
  moreover have "replay_inv srtp_replay_init (set [])" "unat (rp_lix srtp_replay_init) = foldr max [] 0"
    using replay_inv_init by (simp_all add: srtp_replay_init_def)
  moreover have "ss_replay_rtcp (strm_rtcp ssrc srtp) = srtp_replay_init"
    by (simp add: new new_stream_def)
  ultimately have "srtcp_recv X srtp (map ((!) (srtcp_send X srtp ps)) js) =
      map2 (\<lambda>ok (ix, p). if ok then Inr p else Inl EALREADY) (window_run (map Suc js) []) ?qs"
    using srtcp_recv_eq [OF assms(1) room a(2), of ?qs] replay_run_window [of srtp_replay_init "[]" "map (ucast \<circ> fst) ?qs"]
    by (simp only:)
  then show ?thesis
    by (simp add: zip_map2 split_beta del: of_nat_Suc)
qed

definition toy_rtcp :: "u8 \<Rightarrow> u8 list" where
  "toy_rtcp n = [0x80, 201, 0, 1, 0, 0, 0, 1, n]"

theorem srtcp_delivers_witness:
  "srtcp_recv toy_crypto toy_srtp (map ((!) (srtcp_send toy_crypto toy_srtp [toy_rtcp 5, toy_rtcp 6])) [1, 0, 1]) =
   [Inr (toy_rtcp 6), Inr (toy_rtcp 5), Inl EALREADY]"
proof -
  have "list_all (rtcp_of 1) [toy_rtcp 5, toy_rtcp 6]"
    by (simp add: rtcp_of_def toy_rtcp_def rtp_u32_def hton_def mem_bytes_words of_mem_def)
  from srtcp_delivers [OF toy_crypto_ok toy_alloc this, of "[1, 0, 1]"] show ?thesis
    by simp
qed

end
