(* ===== verification/Spec2Isabelle.thy ===== *)
theory Spec2Isabelle
  imports Econn_Correct Conf_Pos Ecall_Call Wcall_Media Srtcp_Correct
begin

text \<open>
  Wire audio, video and signalling.
\<close>

end
